(* ===== verification/Go_Prelude.thy ===== *)
theory Go_Prelude
  imports Main
begin

text \<open>
  Shared vocabulary of the development: Go error values, the early-return discipline
  \<^verbatim>\<open>if err != nil { return err }\<close> as a bind on sums, loops that stop at the first error, and
  the three contracts (codec, claim table, transition system) that several components meet.
\<close>

section \<open>Error values\<close>

text \<open>
  One constructor per way the source makes an error. \<open>New\<close> is \<^verbatim>\<open>errors.New\<close> with its text,
  \<open>Errorf\<close> is \<^verbatim>\<open>fmt.Errorf\<close> with its format and the rendered arguments, \<open>Wrapf\<close> the same
  with a \<^verbatim>\<open>%w\<close> cause, \<open>Std\<close> an error built by the standard library (reason and input),
  \<open>External\<close> an error handed over by the operating system or a third-party package, and
  \<open>GoPanic\<close> a run-time panic (a nil dereference, an index out of range).
\<close>

datatype go_error =
    New string
  | Errorf string "string list"
  | Wrapf string "string list" go_error
  | Std string "string list"
  | External string
  | GoPanic string

type_synonym 'a res = "go_error + 'a"

text \<open>\<^verbatim>\<open>err.Error()\<close> for the only errors whose text the source looks at: those of
  \<^verbatim>\<open>errors.New\<close>.\<close>

fun err_Error :: "go_error \<Rightarrow> string" where
  "err_Error (New s) = s"
| "err_Error _ = []"

fun is_panic :: "go_error \<Rightarrow> bool" where
  "is_panic (GoPanic _) = True"
| "is_panic (Wrapf _ _ e) = is_panic e"
| "is_panic _ = False"

text \<open>A result handed over by the operating system or a third-party package: an error is only
  known by its text.\<close>

type_synonym 'a ext = "string + 'a"

definition lib :: "'a ext \<Rightarrow> 'a res" where
  "lib m = (case m of Inl e \<Rightarrow> Inl (External e) | Inr a \<Rightarrow> Inr a)"

section \<open>Early return\<close>

definition ebind :: "'e + 'a \<Rightarrow> ('a \<Rightarrow> 'e + 'b) \<Rightarrow> 'e + 'b" where
  "ebind m f = (case m of Inl e \<Rightarrow> Inl e | Inr a \<Rightarrow> f a)"

text \<open>\<^verbatim>\<open>return fmt.Errorf("...: %w", err)\<close>.\<close>

definition ewrap :: "(go_error \<Rightarrow> go_error) \<Rightarrow> 'a res \<Rightarrow> 'a res" where
  "ewrap w m = (case m of Inl e \<Rightarrow> Inl (w e) | Inr a \<Rightarrow> Inr a)"

text \<open>A \<^verbatim>\<open>for\<close> loop that appends one result per element, and one that updates a state;
  both return at the first error.\<close>

primrec emap :: "('a \<Rightarrow> 'e + 'b) \<Rightarrow> 'a list \<Rightarrow> 'e + 'b list" where
  "emap f [] = Inr []"
| "emap f (x # xs) = ebind (f x) (\<lambda>y. ebind (emap f xs) (\<lambda>ys. Inr (y # ys)))"

primrec efold :: "('a \<Rightarrow> 's \<Rightarrow> 'e + 's) \<Rightarrow> 'a list \<Rightarrow> 's \<Rightarrow> 'e + 's" where
  "efold f [] s = Inr s"
| "efold f (x # xs) s = ebind (f x s) (efold f xs)"

named_theorems ok_iff \<open>when a computation returns \<open>Inr\<close>\<close>
named_theorems err_iff \<open>when a computation returns \<open>Inl\<close>\<close>

lemma ebind_simps [simp]:
  "ebind (Inl e) f = Inl e"
  "ebind (Inr a) f = f a"
  by (simp_all add: ebind_def)

lemma ewrap_simps [simp]:
  "ewrap w (Inl e) = Inl (w e)"
  "ewrap w (Inr a) = Inr a"
  by (simp_all add: ewrap_def)

lemma lib_simps [simp]:
  "lib (Inl e) = Inl (External e)"
  "lib (Inr a) = Inr a"
  by (simp_all add: lib_def)

lemma lib_ok [ok_iff]: "lib m = Inr a \<longleftrightarrow> m = Inr a"
  by (cases m) auto

lemma lib_err [err_iff]: "lib m = Inl e \<longleftrightarrow> (\<exists>s. m = Inl s \<and> e = External s)"
  by (cases m) auto

lemma ebind_ok [ok_iff]: "ebind m f = Inr b \<longleftrightarrow> (\<exists>a. m = Inr a \<and> f a = Inr b)"
  by (cases m) auto

lemma ebind_err [err_iff]:
  "ebind m f = Inl e \<longleftrightarrow> m = Inl e \<or> (\<exists>a. m = Inr a \<and> f a = Inl e)"
  by (cases m) auto

lemma ewrap_ok [ok_iff]: "ewrap w m = Inr a \<longleftrightarrow> m = Inr a"
  by (cases m) auto

lemma ewrap_err [err_iff]: "ewrap w m = Inl e \<longleftrightarrow> (\<exists>e'. m = Inl e' \<and> e = w e')"
  by (cases m) auto

lemma if_ok [ok_iff]: "(if b then Inl e else m) = Inr a \<longleftrightarrow> \<not> b \<and> m = Inr a"
  by simp

lemma ebind_cong [fundef_cong]:
  "m = m' \<Longrightarrow> (\<And>a. m' = Inr a \<Longrightarrow> f a = g a) \<Longrightarrow> ebind m f = ebind m' g"
  by (cases m') auto

lemma ebind_assoc: "ebind (ebind m f) g = ebind m (\<lambda>a. ebind (f a) g)"
  by (cases m) auto

lemma emap_ok [ok_iff]: "emap f xs = Inr ys \<longleftrightarrow> list_all2 (\<lambda>x y. f x = Inr y) xs ys"
  by (induction xs arbitrary: ys) (auto simp: ebind_ok list_all2_Cons1)

lemma emap_err: "emap f xs = Inl e \<Longrightarrow> \<exists>x \<in> set xs. f x = Inl e"
  by (induction xs) (auto simp: ebind_err)

lemma emap_length: "emap f xs = Inr ys \<Longrightarrow> length ys = length xs"
  by (auto simp: emap_ok dest: list_all2_lengthD)

lemma emap_ok_ball: "(\<exists>ys. emap f xs = Inr ys) \<longleftrightarrow> (\<forall>x \<in> set xs. \<exists>y. f x = Inr y)"
  by (induction xs) (fastforce simp: ebind_ok)+

lemma emap_in: "emap f xs = Inr ys \<Longrightarrow> y \<in> set ys \<Longrightarrow> \<exists>x \<in> set xs. f x = Inr y"
  by (induction xs arbitrary: ys) (auto simp: ebind_ok)

lemma emap_dom: "emap f xs = Inr ys \<Longrightarrow> x \<in> set xs \<Longrightarrow> \<exists>y \<in> set ys. f x = Inr y"
  by (induction xs arbitrary: ys) (auto simp: ebind_ok)

lemma emap_map_eq: "(\<And>x. x \<in> set xs \<Longrightarrow> f (g x) = Inr (h x)) \<Longrightarrow> emap f (map g xs) = Inr (map h xs)"
  by (induction xs) auto

lemma emap_append:
  "emap f (xs @ ys) = ebind (emap f xs) (\<lambda>as. ebind (emap f ys) (\<lambda>bs. Inr (as @ bs)))"
proof (induction xs)
  case Nil
  show ?case by (cases "emap f ys") simp_all
next
  case (Cons x xs)
  then show ?case by (cases "f x"; cases "emap f xs"; cases "emap f ys") simp_all
qed

lemma efold_append [simp]: "efold f (xs @ ys) s = ebind (efold f xs s) (efold f ys)"
  by (induction xs arbitrary: s) (auto simp: ebind_assoc fun_eq_iff intro!: ebind_cong)

lemma efold_inv:
  assumes "efold f xs s = Inr t" and "P s"
    and "\<And>x s t. x \<in> set xs \<Longrightarrow> P s \<Longrightarrow> f x s = Inr t \<Longrightarrow> P t"
  shows "P t"
  using assms by (induction xs arbitrary: s) (auto simp: ebind_ok)

lemma efold_err: "efold f xs s = Inl e \<Longrightarrow> \<exists>x \<in> set xs. \<exists>s. f x s = Inl e"
  by (induction xs arbitrary: s) (auto simp: ebind_err)

text \<open>Computations that never panic: closed under the constructs above.\<close>

definition safe :: "'a res \<Rightarrow> bool" where
  "safe m = (case m of Inl e \<Rightarrow> \<not> is_panic e | Inr _ \<Rightarrow> True)"

named_theorems safe_intros \<open>computations that never panic\<close>

lemma safe_simps [simp]:
  "safe (Inr a)"
  "safe (Inl e) \<longleftrightarrow> \<not> is_panic e"
  by (simp_all add: safe_def)

lemma safe_lib [simp, safe_intros]: "safe (lib m)"
  by (cases m) auto

lemma safe_ebind [safe_intros]: "safe m \<Longrightarrow> (\<And>a. m = Inr a \<Longrightarrow> safe (f a)) \<Longrightarrow> safe (ebind m f)"
  by (cases m) auto

lemma safe_ewrap [safe_intros]: "safe m \<Longrightarrow> safe (ewrap (Wrapf f as) m)"
  by (cases m) auto

lemma safe_if [safe_intros]: "(b \<Longrightarrow> safe m) \<Longrightarrow> (\<not> b \<Longrightarrow> safe m') \<Longrightarrow> safe (if b then m else m')"
  by simp

lemma safe_emap [safe_intros]: "(\<And>x. x \<in> set xs \<Longrightarrow> safe (f x)) \<Longrightarrow> safe (emap f xs)"
  by (induction xs) (auto intro!: safe_ebind)

lemma safe_efold [safe_intros]: "(\<And>x s. x \<in> set xs \<Longrightarrow> safe (f x s)) \<Longrightarrow> safe (efold f xs s)"
  by (induction xs arbitrary: s) (auto intro!: safe_ebind)

section \<open>Codecs\<close>

text \<open>A printer and a parser that undo each other on the values \<open>ok\<close> selects.\<close>

locale codec =
  fixes enc :: "'a \<Rightarrow> 'b"
    and dec :: "'b \<Rightarrow> 'e + 'a"
    and ok :: "'a \<Rightarrow> bool"
  assumes dec_enc: "ok x \<Longrightarrow> dec (enc x) = Inr x"
begin

lemma enc_eq_iff: "ok x \<Longrightarrow> ok y \<Longrightarrow> enc x = enc y \<longleftrightarrow> x = y"
  by (metis dec_enc sum.inject(2))

lemma enc_inj_on: "inj_on enc {x. ok x}"
  by (auto intro: inj_onI simp: enc_eq_iff)

lemma dec_enc_list: "list_all ok xs \<Longrightarrow> emap dec (map enc xs) = Inr xs"
  by (induction xs) (auto simp: dec_enc)

lemma distinct_enc: "list_all ok xs \<Longrightarrow> distinct (map enc xs) \<longleftrightarrow> distinct xs"
  by (auto simp: distinct_map list_all_iff intro: inj_on_subset [OF enc_inj_on])

end

section \<open>Claim tables\<close>

text \<open>
  A table in which a key may be claimed once: what the duplicate checks of
  \<^verbatim>\<open>ValidateConnections\<close> keep in their Go maps.
\<close>

locale claim_table =
  fixes empty :: 't
    and claim :: "'k \<Rightarrow> 'o \<Rightarrow> 't \<Rightarrow> 't"
    and taken :: "'t \<Rightarrow> 'k \<Rightarrow> bool"
  assumes taken_empty: "\<not> taken empty k"
    and taken_claim: "taken (claim k ow t) k' \<longleftrightarrow> k' = k \<or> taken t k'"
begin

text \<open>Claiming a list of keys in order, stopping at the first key already taken.\<close>

primrec claim_all :: "('k \<times> 'o) list \<Rightarrow> 't \<Rightarrow> 't option" where
  "claim_all [] t = Some t"
| "claim_all (x # xs) t =
     (if taken t (fst x) then None else claim_all xs (claim (fst x) (snd x) t))"

lemma claim_all_ok:
  "(\<exists>t'. claim_all xs t = Some t') \<longleftrightarrow>
     distinct (map fst xs) \<and> (\<forall>k \<in> set (map fst xs). \<not> taken t k)"
  by (induction xs arbitrary: t) (force simp: taken_claim)+

lemma taken_claim_all:
  "claim_all xs t = Some t' \<Longrightarrow> taken t' k \<longleftrightarrow> taken t k \<or> k \<in> fst ` set xs"
  by (induction xs arbitrary: t) (auto simp: taken_claim split: if_splits)

lemma claim_all_empty: "(\<exists>t'. claim_all xs empty = Some t') \<longleftrightarrow> distinct (map fst xs)"
  by (simp add: claim_all_ok taken_empty)

lemma claim_all_append:
  "claim_all (xs @ ys) t = (case claim_all xs t of None \<Rightarrow> None | Some t' \<Rightarrow> claim_all ys t')"
  by (induction xs arbitrary: t) auto

end

section \<open>Transition systems\<close>

locale invariant_system =
  fixes init :: "'s \<Rightarrow> bool"
    and step :: "'s \<Rightarrow> 's \<Rightarrow> bool"
    and inv :: "'s \<Rightarrow> bool"
  assumes inv_init: "init s \<Longrightarrow> inv s"
    and inv_step: "inv s \<Longrightarrow> step s t \<Longrightarrow> inv t"
begin

lemma inv_steps: "rtranclp step s t \<Longrightarrow> inv s \<Longrightarrow> inv t"
  by (induction rule: rtranclp_induct) (auto intro: inv_step)

lemma inv_reachable: "init s \<Longrightarrow> rtranclp step s t \<Longrightarrow> inv t"
  by (auto intro: inv_steps inv_init)

end

section \<open>Lists and options\<close>

lemma take_length_append [simp]: "take (length xs) (xs @ ys) = xs"
  by simp

lemma map_option_Some_iff: "map_option f x = Some y \<longleftrightarrow> (\<exists>z. x = Some z \<and> y = f z)"
  by (auto simp: map_option_case split: option.splits)

lemma list_all2_functional:
  "list_all2 (\<lambda>x y. f x = Inr y) xs ys \<Longrightarrow> list_all2 (\<lambda>x y. f x = Inr y) xs zs \<Longrightarrow> ys = zs"
  by (induction xs arbitrary: ys zs) (auto simp: list_all2_Cons1)

end
