(* ===== verification/Go_Strings.thy ===== *)
theory Go_Strings
  imports Go_Prelude
begin

text \<open>
  The parts of the packages \<^verbatim>\<open>strings\<close>, \<^verbatim>\<open>unicode/utf8\<close> and \<^verbatim>\<open>strconv\<close> the program calls, on
  Go strings as byte lists (a \<^typ>\<open>char\<close> is one byte). Case mapping and white space are
  defined on runes: \<open>runes\<close> decodes UTF-8 the way a \<^verbatim>\<open>range\<close> loop does. The lower-case table
  of the Unicode standard for runes from 128 on is the argument \<open>lw\<close> of \<open>ToLower\<close>.
\<close>

section \<open>Bytes and runes\<close>

definition byte :: "char \<Rightarrow> int" where
  "byte c = of_char c"

lemma byte_lt [simp]: "byte c < 256"
  using of_char_mod_256 [of c, where 'a = int] unfolding byte_def
  by (metis pos_mod_bound zero_less_numeral)

lemma byte_nonneg [simp]: "0 \<le> byte c"
  using of_char_mod_256 [of c, where 'a = int] unfolding byte_def
  by (metis pos_mod_sign zero_less_numeral)

lemma byte_char_of [simp]: "0 \<le> n \<Longrightarrow> n < 256 \<Longrightarrow> byte (char_of n) = n"
  by (simp add: byte_def)

lemma char_of_byte [simp]: "char_of (byte c) = c"
  by (simp add: byte_def)

lemma byte_inject [simp]: "byte c = byte d \<longleftrightarrow> c = d"
  by (metis char_of_byte)

lemma byte_eq_char_of: "0 \<le> n \<Longrightarrow> n < 256 \<Longrightarrow> c = char_of n \<longleftrightarrow> byte c = n"
  by (metis byte_char_of char_of_byte)

definition is_cont :: "char \<Rightarrow> bool" where
  "is_cont c = (128 \<le> byte c \<and> byte c \<le> 191)"

text \<open>\<^verbatim>\<open>utf8.DecodeRuneInString\<close>: the rune and the number of bytes it takes; an invalid
  sequence is U+FFFD of width 1.\<close>

fun decode_rune :: "string \<Rightarrow> int \<times> nat" where
  "decode_rune [] = (65533, 0)"
| "decode_rune (c # cs) =
     (let b = byte c; bad = (65533, 1) in
      if b < 128 then (b, 1)
      else if b < 194 then bad
      else if b < 224 then
        (case cs of
           c1 # _ \<Rightarrow> if is_cont c1 then ((b - 192) * 64 + (byte c1 - 128), 2) else bad
         | _ \<Rightarrow> bad)
      else if b < 240 then
        (case cs of
           c1 # c2 # _ \<Rightarrow>
             if (if b = 224 then 160 else 128) \<le> byte c1 \<and> byte c1 \<le> (if b = 237 then 159 else 191)
                \<and> is_cont c2
             then ((b - 224) * 4096 + (byte c1 - 128) * 64 + (byte c2 - 128), 3) else bad
         | _ \<Rightarrow> bad)
      else if b < 245 then
        (case cs of
           c1 # c2 # c3 # _ \<Rightarrow>
             if (if b = 240 then 144 else 128) \<le> byte c1 \<and> byte c1 \<le> (if b = 244 then 143 else 191)
                \<and> is_cont c2 \<and> is_cont c3
             then ((b - 240) * 262144 + (byte c1 - 128) * 4096 + (byte c2 - 128) * 64
                   + (byte c3 - 128), 4) else bad
         | _ \<Rightarrow> bad)
      else bad)"

lemma decode_rune_width: "s \<noteq> [] \<Longrightarrow> 0 < snd (decode_rune s)"
  by (cases s rule: decode_rune.cases) (auto simp: Let_def split: list.splits)

text \<open>A string as its runes, each with the bytes it was decoded from.\<close>

function runes :: "string \<Rightarrow> (int \<times> string) list" where
  "runes [] = []"
| "runes (c # cs) =
     (let (r, w) = decode_rune (c # cs)
      in (r, take w (c # cs)) # runes (drop w (c # cs)))"
  by pat_completeness auto
termination
proof (relation "measure length", simp)
  fix c cs x r w
  assume "x = decode_rune (c # cs)" and "(r, w) = x"
  moreover have "0 < snd (decode_rune (c # cs))"
    by (rule decode_rune_width) simp
  ultimately have "0 < w" by (metis snd_conv)
  then show "(drop w (c # cs), c # cs) \<in> measure length" by simp
qed

text \<open>\<^verbatim>\<open>strings.Builder.WriteRune\<close>: UTF-8 encoding, U+FFFD for values that are no rune.\<close>

definition encode_rune :: "int \<Rightarrow> string" where
  "encode_rune r0 =
     (let r = (if 1114111 < r0 \<or> (55296 \<le> r0 \<and> r0 \<le> 57343) then 65533 else r0) in
      if r < 128 then [char_of r]
      else if r < 2048 then [char_of (192 + r div 64), char_of (128 + r mod 64)]
      else if r < 65536 then
        [char_of (224 + r div 4096), char_of (128 + r div 64 mod 64), char_of (128 + r mod 64)]
      else
        [char_of (240 + r div 262144), char_of (128 + r div 4096 mod 64),
         char_of (128 + r div 64 mod 64), char_of (128 + r mod 64)])"

definition is_ascii :: "char \<Rightarrow> bool" where
  "is_ascii c = (byte c < 128)"

lemma runes_ascii_Cons:
  "is_ascii c \<Longrightarrow> runes (c # cs) = (byte c, [c]) # runes cs"
  by (simp add: is_ascii_def)

lemma runes_ascii: "list_all is_ascii s \<Longrightarrow> runes s = map (\<lambda>c. (byte c, [c])) s"
proof (induction s)
  case (Cons c cs)
  then show ?case by (simp add: runes_ascii_Cons del: runes.simps)
qed simp

declare runes.simps(2) [simp del]

section \<open>Predicates on bytes\<close>

definition is_digit :: "char \<Rightarrow> bool" where
  "is_digit c = (48 \<le> byte c \<and> byte c \<le> 57)"

definition is_lower :: "char \<Rightarrow> bool" where
  "is_lower c = (97 \<le> byte c \<and> byte c \<le> 122)"

text \<open>\<^verbatim>\<open>unicode.IsSpace\<close>.\<close>

definition is_space_rune :: "int \<Rightarrow> bool" where
  "is_space_rune r =
     (r \<in> set [9, 10, 11, 12, 13, 32, 133, 160, 5760, 8232, 8233, 8239, 8287, 12288]
      \<or> 8192 \<le> r \<and> r \<le> 8202)"

definition lower_rune :: "(int \<Rightarrow> int) \<Rightarrow> int \<Rightarrow> int" where
  "lower_rune lw r = (if r < 128 then (if 65 \<le> r \<and> r \<le> 90 then r + 32 else r) else lw r)"

section \<open>Package strings\<close>

definition HasPrefix :: "string \<Rightarrow> string \<Rightarrow> bool" where
  "HasPrefix s p = (take (length p) s = p)"

definition HasSuffix :: "string \<Rightarrow> string \<Rightarrow> bool" where
  "HasSuffix s p = (length p \<le> length s \<and> drop (length s - length p) s = p)"

definition TrimPrefix :: "string \<Rightarrow> string \<Rightarrow> string" where
  "TrimPrefix s p = (if HasPrefix s p then drop (length p) s else s)"

definition TrimSuffix :: "string \<Rightarrow> string \<Rightarrow> string" where
  "TrimSuffix s p = (if HasSuffix s p then take (length s - length p) s else s)"

fun Contains :: "string \<Rightarrow> string \<Rightarrow> bool" where
  "Contains [] sub = (sub = [])"
| "Contains (c # cs) sub = (HasPrefix (c # cs) sub \<or> Contains cs sub)"

fun IndexByte :: "string \<Rightarrow> char \<Rightarrow> nat option" where
  "IndexByte [] c = None"
| "IndexByte (x # xs) c = (if x = c then Some 0 else map_option Suc (IndexByte xs c))"

fun LastIndexByte :: "string \<Rightarrow> char \<Rightarrow> nat option" where
  "LastIndexByte [] c = None"
| "LastIndexByte (x # xs) c =
     (case LastIndexByte xs c of
        Some i \<Rightarrow> Some (Suc i)
      | None \<Rightarrow> if x = c then Some 0 else None)"

text \<open>\<^verbatim>\<open>strings.Split\<close> and \<^verbatim>\<open>strings.SplitN(s, sep, 2)\<close> for a one-byte separator.\<close>

fun Split :: "string \<Rightarrow> char \<Rightarrow> string list" where
  "Split [] c = [[]]"
| "Split (x # xs) c =
     (if x = c then [] # Split xs c
      else (case Split xs c of [] \<Rightarrow> [[x]] | p # ps \<Rightarrow> (x # p) # ps))"

definition SplitN2 :: "string \<Rightarrow> char \<Rightarrow> string list" where
  "SplitN2 s c =
     (case IndexByte s c of None \<Rightarrow> [s] | Some i \<Rightarrow> [take i s, drop (Suc i) s])"

text \<open>\<^verbatim>\<open>strings.Replace(s, old, new, 1)\<close> for a non-empty \<^verbatim>\<open>old\<close>.\<close>

fun Replace1 :: "string \<Rightarrow> string \<Rightarrow> string \<Rightarrow> string" where
  "Replace1 [] old new = []"
| "Replace1 (c # cs) old new =
     (if HasPrefix (c # cs) old then new @ drop (length old) (c # cs)
      else c # Replace1 cs old new)"

definition Trim :: "string \<Rightarrow> (char \<Rightarrow> bool) \<Rightarrow> string" where
  "Trim s cs = rev (dropWhile cs (rev (dropWhile cs s)))"

definition TrimSpace :: "string \<Rightarrow> string" where
  "TrimSpace s =
     concat (map snd
       (rev (dropWhile (is_space_rune \<circ> fst) (rev (dropWhile (is_space_rune \<circ> fst) (runes s))))))"

definition ascii_lower :: "char \<Rightarrow> char" where
  "ascii_lower c = (if 65 \<le> byte c \<and> byte c \<le> 90 then char_of (byte c + 32) else c)"

definition ToLower :: "(int \<Rightarrow> int) \<Rightarrow> string \<Rightarrow> string" where
  "ToLower lw s =
     (if list_all is_ascii s then map ascii_lower s
      else concat (map (encode_rune \<circ> lower_rune lw \<circ> fst) (runes s)))"

text \<open>\<^verbatim>\<open>strings.EqualFold\<close> against an ASCII word without the letters K and S, whose case folds
  are ASCII only.\<close>

definition EqualFold :: "string \<Rightarrow> string \<Rightarrow> bool" where
  "EqualFold s t = (map ascii_lower s = map ascii_lower t)"

section \<open>Package strconv\<close>

fun digits_val :: "int \<Rightarrow> string \<Rightarrow> int option" where
  "digits_val acc [] = Some acc"
| "digits_val acc (c # cs) =
     (if is_digit c then digits_val (acc * 10 + (byte c - 48)) cs else None)"

definition int64_ok :: "int \<Rightarrow> bool" where
  "int64_ok v = (- (2 ^ 63) \<le> v \<and> v < 2 ^ 63)"

definition split_sign :: "string \<Rightarrow> bool \<times> string" where
  "split_sign s =
     (case s of
        [] \<Rightarrow> (False, [])
      | c # cs \<Rightarrow>
          if c = CHR ''-'' then (True, cs) else if c = CHR ''+'' then (False, cs) else (False, s))"

definition Atoi :: "string \<Rightarrow> int res" where
  "Atoi s =
     (let (neg, ds) = split_sign s in
      case (if ds = [] then None else digits_val 0 ds) of
        None \<Rightarrow> Inl (Std ''strconv.Atoi: invalid syntax'' [s])
      | Some n \<Rightarrow>
          let v = (if neg then - n else n) in
          if int64_ok v then Inr v else Inl (Std ''strconv.Atoi: value out of range'' [s]))"

text \<open>Digits are produced from the least significant end, as \<^verbatim>\<open>strconv\<close> fills its buffer.\<close>

fun utoa :: "int \<Rightarrow> string \<Rightarrow> string" where
  "utoa n acc =
     (if n < 10 then char_of (48 + n) # acc
      else utoa (n div 10) (char_of (48 + n mod 10) # acc))"

declare utoa.simps [simp del]

definition Itoa :: "int \<Rightarrow> string" where
  "Itoa i = (if i < 0 then CHR ''-'' # utoa (- i) [] else utoa i [])"

section \<open>Lemmas on strings\<close>

lemma HasPrefix_append [simp]: "HasPrefix (p @ s) p"
  by (simp add: HasPrefix_def)

lemma HasPrefix_iff: "HasPrefix s p \<longleftrightarrow> (\<exists>r. s = p @ r)"
  by (metis HasPrefix_append HasPrefix_def append_take_drop_id)

lemma HasSuffix_iff: "HasSuffix s p \<longleftrightarrow> (\<exists>r. s = r @ p)"
  by (auto simp: HasSuffix_def intro: exI [of _ "take (length s - length p) s"])
     (metis append_take_drop_id)

lemma TrimPrefix_append [simp]: "TrimPrefix (p @ s) p = s"
  by (simp add: TrimPrefix_def)

lemma TrimSuffix_append [simp]: "TrimSuffix (s @ p) p = s"
  by (simp add: TrimSuffix_def HasSuffix_def)

lemma Contains_iff: "Contains s sub \<longleftrightarrow> (\<exists>p r. s = p @ sub @ r)"
proof (induction s)
  case IH: (Cons c cs)
  show ?case
  proof
    assume "Contains (c # cs) sub"
    then consider r where "c # cs = [] @ sub @ r" | p r where "cs = p @ sub @ r"
      using IH by (auto simp: HasPrefix_iff)
    then show "\<exists>p r. c # cs = p @ sub @ r"
      by cases (blast, metis append_Cons)
  next
    assume "\<exists>p r. c # cs = p @ sub @ r"
    then obtain p r where eq: "c # cs = p @ sub @ r" by blast
    show "Contains (c # cs) sub"
    proof (cases p)
      case Nil
      with eq have "HasPrefix (c # cs) sub" by (auto simp: HasPrefix_iff)
      then show ?thesis by simp
    next
      case (Cons d q)
      with eq have "\<exists>p r. cs = p @ sub @ r" by auto
      with IH show ?thesis by simp
    qed
  qed
qed auto

lemma IndexByte_None [simp]: "IndexByte s c = None \<longleftrightarrow> c \<notin> set s"
  by (induction s) auto

lemma LastIndexByte_None [simp]: "LastIndexByte s c = None \<longleftrightarrow> c \<notin> set s"
  by (induction s) (auto split: option.splits)

lemma IndexByte_append: "c \<notin> set p \<Longrightarrow> IndexByte (p @ c # r) c = Some (length p)"
  by (induction p) auto

lemma IndexByte_Some:
  "IndexByte s c = Some i \<longleftrightarrow> (\<exists>p r. s = p @ c # r \<and> c \<notin> set p \<and> i = length p)"
proof
  show "IndexByte s c = Some i \<Longrightarrow> \<exists>p r. s = p @ c # r \<and> c \<notin> set p \<and> i = length p"
  proof (induction s arbitrary: i)
    case (Cons x s)
    show ?case
    proof (cases "x = c")
      case True
      with Cons.prems show ?thesis by (intro exI [of _ "[]"] exI [of _ s]) simp
    next
      case False
      with Cons obtain j p r where "i = Suc j" "s = p @ c # r" "c \<notin> set p" "j = length p"
        by (auto simp: map_option_Some_iff)
      with False show ?thesis by (intro exI [of _ "x # p"] exI [of _ r]) simp
    qed
  qed simp
qed (auto simp: IndexByte_append)

lemma LastIndexByte_append: "c \<notin> set r \<Longrightarrow> LastIndexByte (p @ c # r) c = Some (length p)"
  by (induction p) (auto split: option.splits)

lemma LastIndexByte_Some:
  "LastIndexByte s c = Some i \<Longrightarrow> \<exists>p r. s = p @ c # r \<and> c \<notin> set r \<and> i = length p"
proof (induction s arbitrary: i)
  case (Cons x s)
  show ?case
  proof (cases "LastIndexByte s c")
    case None
    with Cons.prems have "x = c" and "i = 0" and "c \<notin> set s"
      by (auto split: if_splits)
    then show ?thesis by (intro exI [of _ "[]"] exI [of _ s]) simp
  next
    case (Some j)
    with Cons obtain p r where "s = p @ c # r" "c \<notin> set r" "j = length p"
      by blast
    with Some Cons.prems show ?thesis
      by (intro exI [of _ "x # p"] exI [of _ r]) simp
  qed
qed simp

lemma SplitN2_pair: "c \<notin> set k \<Longrightarrow> SplitN2 (k @ c # v) c = [k, v]"
  by (simp add: SplitN2_def IndexByte_append)

lemma SplitN2_none: "c \<notin> set s \<Longrightarrow> SplitN2 s c = [s]"
  by (simp add: SplitN2_def IndexByte_None [THEN iffD2])

section \<open>Splitting and joining\<close>

fun join_with :: "char \<Rightarrow> string list \<Rightarrow> string" where
  "join_with c [] = []"
| "join_with c [p] = p"
| "join_with c (p # q # ps) = p @ c # join_with c (q # ps)"

lemma Split_not_Nil [simp]: "Split s c \<noteq> []"
  by (induction s) (auto split: list.splits)

lemma Split_no_sep: "p \<in> set (Split s c) \<Longrightarrow> c \<notin> set p"
  by (induction s arbitrary: p) (auto split: list.splits if_splits)

lemma Split_none: "c \<notin> set s \<Longrightarrow> Split s c = [s]"
  by (induction s) auto

lemma Split_append: "c \<notin> set p \<Longrightarrow> Split (p @ c # r) c = p # Split r c"
  by (induction p) auto

lemma join_Split: "join_with c (Split s c) = s"
proof (induction s)
  case (Cons x s)
  obtain p ps where eq: "Split s c = p # ps"
    by (meson Split_not_Nil neq_Nil_conv)
  with Cons show ?case
    by (cases ps) auto
qed simp

lemma Split_join:
  "ps \<noteq> [] \<Longrightarrow> (\<And>p. p \<in> set ps \<Longrightarrow> c \<notin> set p) \<Longrightarrow> Split (join_with c ps) c = ps"
  by (induction c ps rule: join_with.induct) (auto simp: Split_none Split_append)

section \<open>Case mapping and trimming\<close>

lemma ascii_lower_ascii [simp]: "is_ascii c \<Longrightarrow> is_ascii (ascii_lower c)"
  by (auto simp: is_ascii_def ascii_lower_def)

lemma ascii_lower_idem [simp]: "ascii_lower (ascii_lower c) = ascii_lower c"
  by (auto simp: ascii_lower_def)

lemma ascii_lower_id: "is_ascii c \<Longrightarrow> \<not> (65 \<le> byte c \<and> byte c \<le> 90) \<Longrightarrow> ascii_lower c = c"
  by (auto simp: ascii_lower_def)

lemma ToLower_ascii: "list_all is_ascii s \<Longrightarrow> ToLower lw s = map ascii_lower s"
  by (simp add: ToLower_def)

lemma ToLower_idem_ascii:
  "list_all is_ascii s \<Longrightarrow> ToLower lw (ToLower lw s) = ToLower lw s"
  by (auto simp: ToLower_def list_all_iff)

lemma dropWhile_hd: "(xs \<noteq> [] \<Longrightarrow> \<not> P (hd xs)) \<Longrightarrow> dropWhile P xs = xs"
  by (cases xs) auto

lemma set_Trim: "set (Trim s cs) \<subseteq> set s"
  by (metis Trim_def set_dropWhileD set_rev subsetI)

lemma Trim_Nil [simp]: "Trim [] cs = []"
  by (simp add: Trim_def)

lemma last_Trim: "Trim s cs \<noteq> [] \<Longrightarrow> \<not> cs (last (Trim s cs))"
  unfolding Trim_def by (simp add: last_rev hd_dropWhile)

lemma hd_Trim:
  assumes "Trim s cs \<noteq> []"
  shows "\<not> cs (hd (Trim s cs))"
proof -
  let ?d = "dropWhile cs s"
  from assms have d: "?d \<noteq> []" unfolding Trim_def by fastforce
  then have h: "\<not> cs (hd ?d)" by (rule hd_dropWhile)
  obtain w where "rev ?d = w @ dropWhile cs (rev ?d)"
    by (metis takeWhile_dropWhile_id)
  then have "?d = rev (dropWhile cs (rev ?d)) @ rev w"
    by (metis rev_append rev_rev_ident)
  then have "hd (Trim s cs) = hd ?d"
    using assms unfolding Trim_def by (metis hd_append2)
  with h show ?thesis by simp
qed

lemma Trim_ends:
  "Trim s cs \<noteq> [] \<Longrightarrow> \<not> cs (hd (Trim s cs)) \<and> \<not> cs (last (Trim s cs))"
  by (simp add: hd_Trim last_Trim)

lemma list_all_Trim: "list_all P s \<Longrightarrow> list_all P (Trim s cs)"
  using set_Trim [of s cs] by (auto simp: list_all_iff)

lemma Trim_id: "(s \<noteq> [] \<Longrightarrow> \<not> cs (hd s) \<and> \<not> cs (last s)) \<Longrightarrow> Trim s cs = s"
  by (cases "s = []") (simp_all add: Trim_def dropWhile_hd hd_rev)

lemma Trim_idem: "Trim (Trim s cs) cs = Trim s cs"
  by (rule Trim_id) (auto dest: hd_Trim last_Trim)

lemma TrimSpace_ascii:
  assumes "list_all is_ascii s"
  shows "TrimSpace s = Trim s (is_space_rune \<circ> byte)"
proof -
  let ?u = "\<lambda>c. (byte c, [c])"
  have c: "concat (map snd (map ?u t)) = t" for t
    by (induction t) auto
  have d: "dropWhile (is_space_rune \<circ> fst) (map ?u t) = map ?u (dropWhile (is_space_rune \<circ> byte) t)" for t
    by (simp add: dropWhile_map comp_def)
  show ?thesis
    unfolding TrimSpace_def Trim_def runes_ascii [OF assms] d rev_map
    by (rule c)
qed

lemma concat_runes: "concat (map snd (runes s)) = s"
proof (induction s rule: runes.induct)
  case (2 c cs)
  obtain r w where rw: "decode_rune (c # cs) = (r, w)" by fastforce
  then have "concat (map snd (runes (drop w (c # cs)))) = drop w (c # cs)"
    using 2 by metis
  then show ?case unfolding runes.simps(2) rw by simp
qed simp

lemma set_TrimSpace: "set (TrimSpace s) \<subseteq> set s"
proof -
  have "set (concat (map snd rs')) \<subseteq> set (concat (map snd rs))" if "set rs' \<subseteq> set rs"
    for rs rs' :: "(int \<times> string) list"
    using that by auto
  then have "set (TrimSpace s) \<subseteq> set (concat (map snd (runes s)))"
    unfolding TrimSpace_def by (metis set_dropWhileD set_rev subsetI)
  then show ?thesis by (simp add: concat_runes)
qed

section \<open>Decimal numbers\<close>

lemma is_digit_char_of [simp]: "0 \<le> (n::int) \<Longrightarrow> n < 10 \<Longrightarrow> is_digit (char_of (48 + n))"
  by (simp add: is_digit_def)

lemma digits_val_append:
  "digits_val acc (xs @ ys) = (case digits_val acc xs of None \<Rightarrow> None | Some a \<Rightarrow> digits_val a ys)"
  by (induction xs arbitrary: acc) auto

lemma utoa_digits: "0 \<le> n \<Longrightarrow> list_all is_digit acc \<Longrightarrow> list_all is_digit (utoa n acc)"
proof (induction n acc rule: utoa.induct)
  case (1 n acc)
  then show ?case by (subst utoa.simps) auto
qed

lemma utoa_not_Nil [simp]: "utoa n acc \<noteq> []"
proof (induction n acc rule: utoa.induct)
  case (1 n acc)
  then show ?case by (subst utoa.simps) auto
qed

lemma digits_val_utoa: "0 \<le> n \<Longrightarrow> digits_val 0 (utoa n acc) = digits_val n acc"
proof (induction n acc rule: utoa.induct)
  case (1 n acc)
  then show ?case
    by (subst utoa.simps) (auto simp: mult.commute)
qed

lemma digit_ne_sign: "is_digit c \<Longrightarrow> c \<noteq> CHR ''-'' \<and> c \<noteq> CHR ''+'' \<and> c \<noteq> CHR '':'' \<and> c \<noteq> CHR ''.''
    \<and> c \<noteq> CHR ''['' \<and> c \<noteq> CHR '']''"
  by (auto simp: is_digit_def byte_def)

lemma split_sign_digits:
  "list_all is_digit s \<Longrightarrow> split_sign s = (False, s)"
  by (cases s) (auto simp: split_sign_def dest: digit_ne_sign)

lemma Atoi_Itoa: "int64_ok i \<Longrightarrow> Atoi (Itoa i) = Inr i"
proof (cases "i < 0")
  case True
  assume "int64_ok i"
  with True show ?thesis
    by (simp add: Atoi_def Itoa_def split_sign_def digits_val_utoa Let_def)
next
  case False
  assume "int64_ok i"
  moreover have "split_sign (utoa i []) = (False, utoa i [])"
    using False by (intro split_sign_digits utoa_digits) auto
  ultimately show ?thesis using False
    by (simp add: Atoi_def Itoa_def digits_val_utoa Let_def)
qed

lemma Atoi_range: "Atoi s = Inr v \<Longrightarrow> int64_ok v"
  by (auto simp: Atoi_def Let_def split: prod.splits option.splits if_splits)

lemma Itoa_chars: "c \<in> set (Itoa i) \<Longrightarrow> is_digit c \<or> c = CHR ''-''"
  using utoa_digits [of "\<bar>i\<bar>" "[]"] by (auto simp: Itoa_def list_all_iff split: if_splits)

lemma Itoa_not_Nil [simp]: "Itoa i \<noteq> []"
  by (simp add: Itoa_def)

interpretation decimal: codec Itoa Atoi int64_ok
  by unfold_locales (rule Atoi_Itoa)

end
