(* ===== verification/Go_Encoding.thy ===== *)
theory Go_Encoding
  imports Go_Strings
begin

text \<open>
  Packages \<^verbatim>\<open>encoding/base64\<close> (\<^verbatim>\<open>StdEncoding\<close>) and \<^verbatim>\<open>encoding/hex\<close>. The encoder of base64 and
  the decoder of hex are not called by the program; they state what its decoder and encoder
  mean (whoever wrote the key, whoever reads it).
\<close>

section \<open>base64.StdEncoding\<close>

definition b64_val :: "char \<Rightarrow> int option" where
  "b64_val c =
     (let b = byte c in
      if 65 \<le> b \<and> b \<le> 90 then Some (b - 65)
      else if 97 \<le> b \<and> b \<le> 122 then Some (b - 71)
      else if 48 \<le> b \<and> b \<le> 57 then Some (b + 4)
      else if b = 43 then Some 62
      else if b = 47 then Some 63
      else None)"

definition b64_char :: "int \<Rightarrow> char" where
  "b64_char v =
     char_of (if v < 26 then v + 65 else if v < 52 then v + 71 else if v < 62 then v - 4
              else if v = 62 then 43 else 47)"

text \<open>Groups of four characters; padding closes the input. Trailing bits are not checked
  (the encoding is not \<^verbatim>\<open>Strict\<close>).\<close>

fun b64_groups :: "string \<Rightarrow> string option" where
  "b64_groups [] = Some []"
| "b64_groups (a # b # c # d # rest) =
     (case (b64_val a, b64_val b) of
        (Some u, Some v) \<Rightarrow>
          (if c = CHR ''='' then
             (if d = CHR ''='' \<and> rest = [] then Some [char_of (u * 4 + v div 16)] else None)
           else
             (case b64_val c of
                None \<Rightarrow> None
              | Some w \<Rightarrow>
                  if d = CHR ''='' then
                    (if rest = []
                     then Some [char_of (u * 4 + v div 16), char_of (v mod 16 * 16 + w div 4)]
                     else None)
                  else
                    (case b64_val d of
                       None \<Rightarrow> None
                     | Some x \<Rightarrow>
                         map_option (\<lambda>r. char_of (u * 4 + v div 16)
                             # char_of (v mod 16 * 16 + w div 4)
                             # char_of (w mod 4 * 64 + x) # r) (b64_groups rest))))
      | _ \<Rightarrow> None)"
| "b64_groups _ = None"

text \<open>\<^verbatim>\<open>DecodeString\<close> skips carriage returns and line feeds wherever they stand.\<close>

definition b64_DecodeString :: "string \<Rightarrow> string res" where
  "b64_DecodeString s =
     (case b64_groups (filter (\<lambda>c. byte c \<noteq> 10 \<and> byte c \<noteq> 13) s) of
        None \<Rightarrow> Inl (Std ''illegal base64 data'' [s])
      | Some bs \<Rightarrow> Inr bs)"

fun b64_EncodeToString :: "string \<Rightarrow> string" where
  "b64_EncodeToString [] = []"
| "b64_EncodeToString [a] =
     [b64_char (byte a div 4), b64_char (byte a mod 4 * 16), CHR ''='', CHR ''='']"
| "b64_EncodeToString [a, b] =
     [b64_char (byte a div 4), b64_char (byte a mod 4 * 16 + byte b div 16),
      b64_char (byte b mod 16 * 4), CHR ''='']"
| "b64_EncodeToString (a # b # c # rest) =
     b64_char (byte a div 4) # b64_char (byte a mod 4 * 16 + byte b div 16)
     # b64_char (byte b mod 16 * 4 + byte c div 64) # b64_char (byte c mod 64)
     # b64_EncodeToString rest"

section \<open>encoding/hex\<close>

definition hex_digit :: "int \<Rightarrow> char" where
  "hex_digit v = char_of (if v < 10 then v + 48 else v + 87)"

definition hex_val :: "char \<Rightarrow> int option" where
  "hex_val c =
     (let b = byte c in
      if 48 \<le> b \<and> b \<le> 57 then Some (b - 48)
      else if 97 \<le> b \<and> b \<le> 102 then Some (b - 87)
      else if 65 \<le> b \<and> b \<le> 70 then Some (b - 55)
      else None)"

fun hex_EncodeToString :: "string \<Rightarrow> string" where
  "hex_EncodeToString [] = []"
| "hex_EncodeToString (c # cs) =
     hex_digit (byte c div 16) # hex_digit (byte c mod 16) # hex_EncodeToString cs"

fun hex_DecodeString :: "string \<Rightarrow> string res" where
  "hex_DecodeString [] = Inr []"
| "hex_DecodeString (a # b # rest) =
     (case (hex_val a, hex_val b) of
        (Some u, Some v) \<Rightarrow> ebind (hex_DecodeString rest) (\<lambda>r. Inr (char_of (u * 16 + v) # r))
      | _ \<Rightarrow> Inl (Std ''encoding/hex: invalid byte'' [[a, b]]))"
| "hex_DecodeString [a] = Inl (Std ''encoding/hex: odd length hex string'' [[a]])"

definition is_hex_digit :: "char \<Rightarrow> bool" where
  "is_hex_digit c = (is_digit c \<or> 97 \<le> byte c \<and> byte c \<le> 102)"

section \<open>Lemmas\<close>

lemma byte_b64_char:
  "0 \<le> v \<Longrightarrow> v < 64 \<Longrightarrow> byte (b64_char v) =
     (if v < 26 then v + 65 else if v < 52 then v + 71 else if v < 62 then v - 4
      else if v = 62 then 43 else 47)"
  by (simp add: b64_char_def)

lemma b64_val_char [simp]: "0 \<le> v \<Longrightarrow> v < 64 \<Longrightarrow> b64_val (b64_char v) = Some v"
  by (auto simp: b64_val_def byte_b64_char Let_def)

lemma byte_eq_sign: "byte (CHR ''='') = 61"
  by (simp add: byte_def)

lemma b64_char_ne_pad [simp]:
  assumes "0 \<le> v" and "v < 64"
  shows "b64_char v \<noteq> CHR ''=''"
proof
  assume "b64_char v = CHR ''=''"
  then have "byte (b64_char v) = 61" by (simp add: byte_eq_sign)
  with assms show False by (auto simp: byte_b64_char split: if_splits)
qed

lemma b64_char_not_newline:
  "0 \<le> v \<Longrightarrow> v < 64 \<Longrightarrow> byte (b64_char v) \<noteq> 10 \<and> byte (b64_char v) \<noteq> 13"
  by (simp add: byte_b64_char)

text \<open>The four sextets of three bytes, and the bytes they give back.\<close>

lemma sextet_bounds [simp]:
  "byte a div 4 < 64"
  "byte a mod 4 * 16 < 64"
  "byte a mod 4 * 16 + byte b div 16 < 64"
  "byte b mod 16 * 4 < 64"
  "byte b mod 16 * 4 + byte c div 64 < 64"
  "0 \<le> byte a div 4"
  "0 \<le> byte a mod 4 * 16 + byte b div 16"
  "0 \<le> byte b mod 16 * 4 + byte c div 64"
  using byte_lt [of a] byte_lt [of b] byte_lt [of c]
    byte_nonneg [of a] byte_nonneg [of b] byte_nonneg [of c] by linarith+

lemma sextets_high [simp]:
  "byte b div 16 div 16 = 0" "byte b div 16 mod 16 = byte b div 16"
  "byte c div 64 div 4 = 0" "byte c div 64 mod 4 = byte c div 64"
proof -
  have "0 \<le> byte b div 16" "byte b div 16 < 16" "0 \<le> byte c div 64" "byte c div 64 < 4"
    using byte_lt [of b] byte_lt [of c] byte_nonneg [of b] byte_nonneg [of c] by linarith+
  then show "byte b div 16 div 16 = 0" "byte b div 16 mod 16 = byte b div 16"
    "byte c div 64 div 4 = 0" "byte c div 64 mod 4 = byte c div 64"
    by (simp_all only: div_pos_pos_trivial mod_pos_pos_trivial)
qed

lemma b64_groups_encode: "b64_groups (b64_EncodeToString bs) = Some bs"
proof (induction bs rule: b64_EncodeToString.induct)
  case (2 a)
  show ?case by simp
next
  case (3 a b)
  show ?case by simp
next
  case (4 a b c rest)
  then show ?case by simp
qed simp

lemma b64_encode_no_newline:
  "c \<in> set (b64_EncodeToString bs) \<Longrightarrow> byte c \<noteq> 10 \<and> byte c \<noteq> 13"
  by (induction bs rule: b64_EncodeToString.induct)
     (auto simp: b64_char_not_newline byte_eq_sign)

lemma b64_roundtrip: "b64_DecodeString (b64_EncodeToString bs) = Inr bs"
proof -
  have "filter (\<lambda>c. byte c \<noteq> 10 \<and> byte c \<noteq> 13) (b64_EncodeToString bs) = b64_EncodeToString bs"
    by (rule filter_True) (auto dest: b64_encode_no_newline)
  then show ?thesis by (simp add: b64_DecodeString_def b64_groups_encode)
qed

interpretation base64: codec b64_EncodeToString b64_DecodeString "\<lambda>_. True"
  by unfold_locales (rule b64_roundtrip)

lemma hex_val_digit [simp]: "0 \<le> v \<Longrightarrow> v < 16 \<Longrightarrow> hex_val (hex_digit v) = Some v"
  by (auto simp: hex_val_def hex_digit_def Let_def)

lemma nibble_bounds [simp]: "byte c div 16 < 16" "0 \<le> byte c div 16"
  using byte_lt [of c] byte_nonneg [of c] by linarith+

lemma hex_roundtrip: "hex_DecodeString (hex_EncodeToString bs) = Inr bs"
  by (induction bs) auto

interpretation hex: codec hex_EncodeToString hex_DecodeString "\<lambda>_. True"
  by unfold_locales (rule hex_roundtrip)

lemma length_hex [simp]: "length (hex_EncodeToString bs) = 2 * length bs"
  by (induction bs) auto

lemma is_hex_digit_digit [simp]: "0 \<le> v \<Longrightarrow> v < 16 \<Longrightarrow> is_hex_digit (hex_digit v)"
  by (auto simp: is_hex_digit_def is_digit_def hex_digit_def)

lemma hex_all_digits: "list_all is_hex_digit (hex_EncodeToString bs)"
  by (induction bs) auto

end
