(* ===== verification/Go_Net.thy ===== *)
theory Go_Net
  imports Go_Encoding "HOL-Library.Word"
begin

text \<open>
  Package \<^verbatim>\<open>net\<close>: \<^verbatim>\<open>SplitHostPort\<close> and \<^verbatim>\<open>JoinHostPort\<close>; package \<^verbatim>\<open>net/netip\<close>: \<^verbatim>\<open>Addr\<close>,
  \<^verbatim>\<open>Prefix\<close>, their parsers and printers. An IPv4 address is four bytes, an IPv6 address eight
  16-bit groups and a zone.
\<close>

section \<open>host:port\<close>

definition addr_err :: "string \<Rightarrow> string \<Rightarrow> 'a res" where
  "addr_err addr why = Inl (Std why [addr])"

text \<open>\<open>SplitHostPort\<close> keeps the index arithmetic of the library: \<open>i\<close> is the last colon, \<open>j\<close>
  and \<open>k\<close> the positions before which no bracket may stand.\<close>

definition split_tail :: "string \<Rightarrow> nat \<Rightarrow> string \<Rightarrow> nat \<Rightarrow> nat \<Rightarrow> (string \<times> string) res" where
  "split_tail hostport i host j k =
     (if CHR ''['' \<in> set (drop j hostport) then addr_err hostport ''unexpected '[' in address''
      else if CHR '']'' \<in> set (drop k hostport) then addr_err hostport ''unexpected ']' in address''
      else Inr (host, drop (Suc i) hostport))"

definition SplitHostPort :: "string \<Rightarrow> (string \<times> string) res" where
  "SplitHostPort hostport =
     (case LastIndexByte hostport (CHR '':'') of
        None \<Rightarrow> addr_err hostport ''missing port in address''
      | Some i \<Rightarrow>
          if HasPrefix hostport ''['' then
            (case IndexByte hostport (CHR '']'') of
               None \<Rightarrow> addr_err hostport ''missing ']' in address''
             | Some e \<Rightarrow>
                 if e + 1 = length hostport then addr_err hostport ''missing port in address''
                 else if e + 1 = i then split_tail hostport i (take (e - 1) (drop 1 hostport)) 1 (e + 1)
                 else if hostport ! (e + 1) = CHR '':''
                 then addr_err hostport ''too many colons in address''
                 else addr_err hostport ''missing port in address'')
          else
            (let host = take i hostport in
             if CHR '':'' \<in> set host then addr_err hostport ''too many colons in address''
             else split_tail hostport i host 0 0))"

definition JoinHostPort :: "string \<Rightarrow> string \<Rightarrow> string" where
  "JoinHostPort host port =
     (if CHR '':'' \<in> set host then ''['' @ host @ '']:'' @ port else host @ '':'' @ port)"

text \<open>Hosts and ports that survive the round trip.\<close>

definition plain_host :: "string \<Rightarrow> bool" where
  "plain_host h = (CHR ''['' \<notin> set h \<and> CHR '']'' \<notin> set h)"

definition plain_port :: "string \<Rightarrow> bool" where
  "plain_port p = (CHR '':'' \<notin> set p \<and> CHR ''['' \<notin> set p \<and> CHR '']'' \<notin> set p)"

section \<open>netip.Addr\<close>

datatype netip_addr =
    AddrZero
  | Addr4 "8 word" "8 word" "8 word" "8 word"
  | Addr6 "16 word list" string

fun Is4 :: "netip_addr \<Rightarrow> bool" where
  "Is4 (Addr4 _ _ _ _) = True"
| "Is4 _ = False"

fun Is6 :: "netip_addr \<Rightarrow> bool" where
  "Is6 (Addr6 _ _) = True"
| "Is6 _ = False"

definition ip_err :: "string \<Rightarrow> string \<Rightarrow> 'a res" where
  "ip_err s msg = Inl (Std msg [s])"

text \<open>\<^verbatim>\<open>parseIPv4Fields\<close>: \<open>val\<close> and \<open>dl\<close> are the value and the number of digits of the current
  octet, \<open>fs\<close> the octets stored so far.\<close>

fun v4_fields :: "string \<Rightarrow> int \<Rightarrow> nat \<Rightarrow> int list \<Rightarrow> string \<Rightarrow> int list res" where
  "v4_fields s val dl fs [] =
     (if length fs < 3 then ip_err s ''IPv4 address too short'' else Inr (fs @ [val]))"
| "v4_fields s val dl fs (c # cs) =
     (if is_digit c then
        (if dl = 1 \<and> val = 0 then ip_err s ''IPv4 field has octet with leading zero''
         else let v = val * 10 + (byte c - 48) in
              if 255 < v then ip_err s ''IPv4 field has value >255''
              else v4_fields s v (Suc dl) fs cs)
      else if c = CHR ''.'' then
        (if dl = 0 \<or> cs = [] then ip_err s ''IPv4 field must have at least one digit''
         else if length fs = 3 then ip_err s ''IPv4 address too long''
         else v4_fields s 0 0 (fs @ [val]) cs)
      else ip_err s ''unexpected character'')"

definition parseIPv4 :: "string \<Rightarrow> netip_addr res" where
  "parseIPv4 s =
     ebind (v4_fields s 0 0 [] s) (\<lambda>fs.
       case fs of
         [a, b, c, d] \<Rightarrow> Inr (Addr4 (word_of_int a) (word_of_int b) (word_of_int c) (word_of_int d))
       | _ \<Rightarrow> ip_err s ''IPv4 address too short'')"

text \<open>The digits of one group: at most four.\<close>

fun scan_hex :: "nat \<Rightarrow> int \<Rightarrow> string \<Rightarrow> (int \<times> nat \<times> string) option" where
  "scan_hex off acc [] = Some (acc, off, [])"
| "scan_hex off acc (c # cs) =
     (case hex_val c of
        None \<Rightarrow> Some (acc, off, c # cs)
      | Some v \<Rightarrow> if 3 < off then None else scan_hex (Suc off) (acc * 16 + v) cs)"

text \<open>The group loop of \<^verbatim>\<open>parseIPv6\<close>; its first argument counts the groups that still fit, the
  library's guard \<^verbatim>\<open>i < 16\<close>.\<close>

fun v6_groups :: "nat \<Rightarrow> string \<Rightarrow> 16 word list \<Rightarrow> nat option \<Rightarrow> string
    \<Rightarrow> (16 word list \<times> nat option \<times> string) res" where
  "v6_groups 0 inp gs ell s = Inr (gs, ell, s)"
| "v6_groups (Suc n) inp gs ell s =
     (case scan_hex 0 0 s of
        None \<Rightarrow> ip_err inp ''each group must have 4 or less digits''
      | Some (acc, off, rest) \<Rightarrow>
          if off = 0 then ip_err inp ''each colon-separated field must have at least one digit''
          else if HasPrefix rest ''.'' then
            (if ell = None \<and> length gs \<noteq> 6
             then ip_err inp ''embedded IPv4 address must replace the final 2 fields of the address''
             else if 8 < length gs + 2
             then ip_err inp ''too many hex fields to fit an embedded IPv4 at the end of the address''
             else ebind (v4_fields inp 0 0 [] s) (\<lambda>fs.
               case fs of
                 [a, b, c, d] \<Rightarrow>
                   Inr (gs @ [word_of_int (a * 256 + b), word_of_int (c * 256 + d)], ell, [])
               | _ \<Rightarrow> ip_err inp ''IPv4 address too short''))
          else
            (let gs' = gs @ [word_of_int acc] in
             case rest of
               [] \<Rightarrow> Inr (gs', ell, [])
             | c # r \<Rightarrow>
                 if c \<noteq> CHR '':'' then ip_err inp ''unexpected character, want colon''
                 else
                   (case r of
                      [] \<Rightarrow> ip_err inp ''colon must be followed by more characters''
                    | d # r' \<Rightarrow>
                        if d = CHR '':'' then
                          (if ell \<noteq> None then ip_err inp ''multiple :: in address''
                           else if r' = [] then Inr (gs', Some (length gs'), [])
                           else v6_groups n inp gs' (Some (length gs')) r')
                        else v6_groups n inp gs' ell r)))"

definition v6_expand :: "string \<Rightarrow> string \<Rightarrow> 16 word list \<times> nat option \<times> string \<Rightarrow> netip_addr res" where
  "v6_expand inp zone st =
     (case st of (gs, ell, s) \<Rightarrow>
        if s \<noteq> [] then ip_err inp ''trailing garbage after address''
        else if length gs < 8 then
          (case ell of
             None \<Rightarrow> ip_err inp ''address string too short''
           | Some e \<Rightarrow> Inr (Addr6 (take e gs @ replicate (8 - length gs) 0 @ drop e gs) zone))
        else if ell \<noteq> None then ip_err inp ''the :: must expand to at least one field of zeros''
        else Inr (Addr6 gs zone))"

definition parseIPv6 :: "string \<Rightarrow> netip_addr res" where
  "parseIPv6 inp =
     (let (s, zone, bad) =
        (case IndexByte inp (CHR ''%'') of
           None \<Rightarrow> (inp, [], False)
         | Some i \<Rightarrow> (take i inp, drop (Suc i) inp, drop (Suc i) inp = []))
      in if bad then ip_err inp ''zone must be a non-empty string''
         else if HasPrefix s ''::'' then
           (if length s = 2 then Inr (Addr6 (replicate 8 0) zone)
            else ebind (v6_groups 8 inp [] (Some 0) (drop 2 s)) (v6_expand inp zone))
         else ebind (v6_groups 8 inp [] None s) (v6_expand inp zone))"

text \<open>\<^verbatim>\<open>ParseAddr\<close> decides on the first of the characters dot, colon and percent.\<close>

fun addr_kind :: "string \<Rightarrow> char option" where
  "addr_kind [] = None"
| "addr_kind (c # cs) =
     (if c = CHR ''.'' \<or> c = CHR '':'' \<or> c = CHR ''%'' then Some c else addr_kind cs)"

definition ParseAddr :: "string \<Rightarrow> netip_addr res" where
  "ParseAddr s =
     (case addr_kind s of
        None \<Rightarrow> ip_err s ''unable to parse IP''
      | Some c \<Rightarrow>
          if c = CHR ''.'' then parseIPv4 s
          else if c = CHR '':'' then parseIPv6 s
          else ip_err s ''missing IPv6 address'')"

section \<open>Printing\<close>

definition string4 :: "8 word \<Rightarrow> 8 word \<Rightarrow> 8 word \<Rightarrow> 8 word \<Rightarrow> string" where
  "string4 a b c d =
     join_with (CHR ''.'') [Itoa (uint a), Itoa (uint b), Itoa (uint c), Itoa (uint d)]"

fun hex_of :: "int \<Rightarrow> string \<Rightarrow> string" where
  "hex_of n acc =
     (if n < 16 then hex_digit n # acc else hex_of (n div 16) (hex_digit (n mod 16) # acc))"

declare hex_of.simps [simp del]

text \<open>The first longest run of at least two zero groups: its start and end.\<close>

fun zero_run :: "16 word list \<Rightarrow> nat" where
  "zero_run [] = 0"
| "zero_run (g # gs) = (if g = 0 then Suc (zero_run gs) else 0)"

fun best_run :: "nat \<Rightarrow> nat \<times> nat \<Rightarrow> 16 word list \<Rightarrow> nat \<times> nat" where
  "best_run i (s, e) [] = (s, e)"
| "best_run i (s, e) (g # gs) =
     (let l = zero_run (g # gs) in
      best_run (Suc i) (if 2 \<le> l \<and> e - s < l then (i, i + l) else (s, e)) gs)"

definition groups_string :: "16 word list \<Rightarrow> string" where
  "groups_string gs = join_with (CHR '':'') (map (\<lambda>g. hex_of (uint g) []) gs)"

definition string6 :: "16 word list \<Rightarrow> string" where
  "string6 gs =
     (let (s, e) = best_run 0 (255, 255) gs in
      if s = 255 then groups_string gs
      else groups_string (take s gs) @ ''::'' @ groups_string (drop e gs))"

definition is4in6 :: "16 word list \<Rightarrow> bool" where
  "is4in6 gs = (take 5 gs = replicate 5 0 \<and> gs ! 5 = 65535)"

definition string4in6 :: "16 word list \<Rightarrow> string" where
  "string4in6 gs =
     ''::ffff:'' @ string4 (word_of_int (uint (gs ! 6) div 256)) (word_of_int (uint (gs ! 6)))
       (word_of_int (uint (gs ! 7) div 256)) (word_of_int (uint (gs ! 7)))"

fun Addr_String :: "netip_addr \<Rightarrow> string" where
  "Addr_String AddrZero = ''invalid IP''"
| "Addr_String (Addr4 a b c d) = string4 a b c d"
| "Addr_String (Addr6 gs zone) =
     (if is4in6 gs then string4in6 gs else string6 gs) @ (if zone = [] then [] else ''%'' @ zone)"

section \<open>netip.Prefix\<close>

record netip_prefix =
  prefix_Addr :: netip_addr
  prefix_Bits :: int

fun has_zone :: "netip_addr \<Rightarrow> bool" where
  "has_zone (Addr6 gs zone) = (zone \<noteq> [])"
| "has_zone _ = False"

definition prefix_bits :: "string \<Rightarrow> netip_addr \<Rightarrow> string \<Rightarrow> netip_prefix res" where
  "prefix_bits s ip bitsStr =
     (if has_zone ip then ip_err s ''IPv6 zones cannot be present in a prefix''
      else if 1 < length bitsStr \<and> (byte (hd bitsStr) < 49 \<or> 57 < byte (hd bitsStr))
      then ip_err s ''bad bits after slash''
      else
        (case Atoi bitsStr of
           Inl _ \<Rightarrow> ip_err s ''bad bits after slash''
         | Inr bits \<Rightarrow>
             if bits < 0 \<or> (if Is6 ip then 128 else 32) < bits
             then ip_err s ''prefix length out of range''
             else Inr \<lparr>prefix_Addr = ip, prefix_Bits = bits\<rparr>))"

definition ParsePrefix :: "string \<Rightarrow> netip_prefix res" where
  "ParsePrefix s =
     (case LastIndexByte s (CHR ''/'') of
        None \<Rightarrow> ip_err s ''no slash''
      | Some i \<Rightarrow>
          ebind (ewrap (\<lambda>e. Wrapf ''netip.ParsePrefix'' [s] e) (ParseAddr (take i s)))
            (\<lambda>ip. prefix_bits s ip (drop (Suc i) s)))"

definition Prefix_String :: "netip_prefix \<Rightarrow> string" where
  "Prefix_String p = Addr_String (prefix_Addr p) @ ''/'' @ Itoa (prefix_Bits p)"

section \<open>Lemmas on host:port\<close>

lemma split_tail_ok [ok_iff]:
  "split_tail hp i h j k = Inr r \<longleftrightarrow>
     CHR ''['' \<notin> set (drop j hp) \<and> CHR '']'' \<notin> set (drop k hp) \<and> r = (h, drop (Suc i) hp)"
  by (auto simp: split_tail_def addr_err_def)

lemma SplitHostPort_join_plain:
  assumes "CHR '':'' \<notin> set h" and "plain_host h" and "plain_port p"
  shows "SplitHostPort (h @ CHR '':'' # p) = Inr (h, p)"
proof -
  have "LastIndexByte (h @ CHR '':'' # p) (CHR '':'') = Some (length h)"
    using assms(3) by (intro LastIndexByte_append) (simp add: plain_port_def)
  moreover have "\<not> HasPrefix (h @ CHR '':'' # p) ''[''"
    using assms(2) by (cases h) (auto simp: HasPrefix_def plain_host_def)
  ultimately show ?thesis
    using assms by (simp add: SplitHostPort_def split_tail_ok plain_host_def plain_port_def)
qed

lemma SplitHostPort_join_bracket:
  assumes "plain_host h" and "plain_port p"
  shows "SplitHostPort (CHR ''['' # h @ CHR '']'' # CHR '':'' # p) = Inr (h, p)"
proof -
  let ?s = "CHR ''['' # h @ CHR '']'' # CHR '':'' # p"
  have "LastIndexByte ((CHR ''['' # h @ [CHR '']'']) @ CHR '':'' # p) (CHR '':'') = Some (length h + 2)"
    using assms(2) by (subst LastIndexByte_append) (auto simp: plain_port_def)
  then have l: "LastIndexByte ?s (CHR '':'') = Some (length h + 2)" by simp
  have "IndexByte ((CHR ''['' # h) @ CHR '']'' # CHR '':'' # p) (CHR '']'') = Some (length h + 1)"
    using assms(1) by (subst IndexByte_append) (auto simp: plain_host_def)
  then have i: "IndexByte ?s (CHR '']'') = Some (length h + 1)" by simp
  have pre: "HasPrefix ?s ''[''" by (simp add: HasPrefix_def)
  show ?thesis
    using assms l i pre by (simp add: SplitHostPort_def split_tail_ok plain_host_def plain_port_def)
qed

lemma SplitHostPort_Join:
  "plain_host h \<Longrightarrow> plain_port p \<Longrightarrow> SplitHostPort (JoinHostPort h p) = Inr (h, p)"
  using SplitHostPort_join_plain SplitHostPort_join_bracket by (simp add: JoinHostPort_def)

interpretation host_port: codec "\<lambda>(h, p). JoinHostPort h p" SplitHostPort
  "\<lambda>(h, p). plain_host h \<and> plain_port p"
  by unfold_locales (auto simp: SplitHostPort_Join)

lemma SplitHostPort_inv:
  assumes "SplitHostPort s = Inr (h, p)"
  shows "plain_port p \<and> plain_host h \<and> (s = h @ '':'' @ p \<and> CHR '':'' \<notin> set h \<or> s = ''['' @ h @ '']:'' @ p)"
proof -
  obtain i where i: "LastIndexByte s (CHR '':'') = Some i"
    using assms by (auto simp: SplitHostPort_def addr_err_def split: option.splits)
  then obtain pre post where s: "s = pre @ CHR '':'' # post" and post: "CHR '':'' \<notin> set post"
    and len: "i = length pre"
    by (auto dest!: LastIndexByte_Some)
  show ?thesis
  proof (cases "HasPrefix s ''[''")
    case False
    then have t: "CHR '':'' \<notin> set pre" "split_tail s i pre 0 0 = Inr (h, p)"
      using assms i s len by (auto simp: SplitHostPort_def addr_err_def Let_def split: if_splits)
    then show ?thesis
      using s len post by (auto simp: split_tail_ok plain_host_def plain_port_def)
  next
    case True
    with assms i obtain e where e: "IndexByte s (CHR '']'') = Some e" and ei: "e + 1 = i"
      and t: "split_tail s i (take (e - 1) (drop 1 s)) 1 (e + 1) = Inr (h, p)"
      by (auto simp: SplitHostPort_def addr_err_def split: option.splits if_splits)
    from e obtain q r where q: "s = q @ CHR '']'' # r" "CHR '']'' \<notin> set q" "e = length q"
      by (auto simp: IndexByte_Some)
    from True q obtain q' where q': "q = CHR ''['' # q'"
      by (cases q) (auto simp: HasPrefix_def)
    have "pre @ CHR '':'' # post = (q @ [CHR '']'']) @ r" using s q(1) by simp
    moreover have "length pre = length (q @ [CHR '']''])" using len ei q(3) by simp
    ultimately have "pre = q @ [CHR '']''] \<and> CHR '':'' # post = r"
      using append_eq_append_conv by blast
    then have "pre = q @ [CHR '']'']" "r = CHR '':'' # post" by auto
    then show ?thesis
      using t q q' post len ei by (auto simp: split_tail_ok plain_host_def plain_port_def)
  qed
qed

lemma SplitHostPort_Join_id:
  "SplitHostPort s = Inr (h, p) \<Longrightarrow> SplitHostPort (JoinHostPort h p) = Inr (h, p)"
  by (auto dest!: SplitHostPort_inv intro!: SplitHostPort_Join)

section \<open>IPv4 round trip\<close>

definition octet :: "int \<Rightarrow> bool" where
  "octet v = (0 \<le> v \<and> v \<le> 255)"

lemma octet_uint [simp]: "octet (uint (w :: 8 word))"
  using uint_lt2p [of w] uint_ge_0 [of w] by (simp add: octet_def)

text \<open>Reading back a printed octet, digit by digit.\<close>

lemma digits_val_mono: "0 \<le> acc \<Longrightarrow> digits_val acc ds = Some v \<Longrightarrow> acc \<le> v"
proof (induction ds arbitrary: acc)
  case (Cons c cs)
  from Cons.prems(2) have d: "is_digit c" and v: "digits_val (acc * 10 + (byte c - 48)) cs = Some v"
    by (simp_all split: if_splits)
  from d Cons.prems(1) have "acc \<le> acc * 10 + (byte c - 48)" by (simp add: is_digit_def)
  with Cons.IH [OF _ v] Cons.prems(1) show ?case by linarith
qed simp

lemma v4_fields_digits:
  "0 < val \<Longrightarrow> digits_val val ds = Some v \<Longrightarrow> v \<le> 255 \<Longrightarrow>
   v4_fields s val dl fs (ds @ rest) = v4_fields s v (dl + length ds) fs rest"
proof (induction ds arbitrary: val dl)
  case (Cons c cs)
  let ?w = "val * 10 + (byte c - 48)"
  from Cons.prems(2) have d: "is_digit c" and v: "digits_val ?w cs = Some v"
    by (simp_all split: if_splits)
  from d Cons.prems(1) have pos: "0 < ?w" by (simp add: is_digit_def)
  then have "?w \<le> v" by (intro digits_val_mono [OF _ v] less_imp_le)
  then have "\<not> 255 < ?w" using Cons.prems(3) by (meson not_le order.trans)
  moreover have "\<not> (dl = 1 \<and> val = 0)" using Cons.prems(1) by simp
  ultimately have "v4_fields s val dl fs ((c # cs) @ rest) = v4_fields s ?w (Suc dl) fs (cs @ rest)"
    by (simp only: append_Cons v4_fields.simps(2) Let_def d if_True if_False)
  with Cons.IH [OF pos v Cons.prems(3)] show ?case by simp
qed simp

lemma utoa_leading:
  "0 < n \<Longrightarrow> \<exists>c cs. utoa n acc = c # cs \<and> is_digit c \<and> 0 < byte c - 48"
proof (induction n acc rule: utoa.induct)
  case (1 n acc)
  show ?case
  proof (cases "n < 10")
    case True
    with 1 show ?thesis by (subst utoa.simps) (auto simp: is_digit_def)
  next
    case False
    then have "0 < n div 10" by linarith
    with 1 False show ?thesis by (subst utoa.simps) auto
  qed
qed

lemma v4_fields_octet:
  assumes "octet n"
  shows "v4_fields s 0 0 fs (Itoa n @ rest) = v4_fields s n (length (Itoa n)) fs rest"
proof (cases "n = 0")
  case True
  have "Itoa 0 = ''0''" by (simp add: Itoa_def utoa.simps char_of_def)
  with True show ?thesis by (simp add: is_digit_def byte_def)
next
  case False
  with assms have n: "0 < n" "n \<le> 255" by (auto simp: octet_def)
  then obtain c cs where c: "utoa n [] = c # cs" "is_digit c" "0 < byte c - 48"
    using utoa_leading by blast
  then have "digits_val (byte c - 48) cs = Some n"
    using digits_val_utoa [of n "[]"] n by simp
  moreover have "Itoa n = c # cs" using n c by (simp add: Itoa_def)
  moreover have "byte c - 48 \<le> 255" using byte_lt [of c] by linarith
  ultimately show ?thesis
    using c n v4_fields_digits [of "byte c - 48" cs n s "Suc 0" fs rest] by (simp add: Let_def)
qed

lemma dot_not_digit [simp]: "\<not> is_digit (CHR ''.'')"
  by (simp add: is_digit_def byte_def)

lemma v4_fields_string4:
  "v4_fields s 0 0 [] (string4 a b c d) = Inr [uint a, uint b, uint c, uint d]"
proof -
  have l: "length (Itoa (uint w)) \<noteq> 0" for w :: "8 word" by simp
  have e: "v4_fields s 0 0 fs (Itoa (uint w)) = v4_fields s (uint w) (length (Itoa (uint w))) fs []"
    for w :: "8 word" and fs
    using v4_fields_octet [of "uint w" s fs "[]"] by simp
  show ?thesis
    by (simp add: string4_def v4_fields_octet e l)
qed

lemma addr_kind_digits:
  "list_all is_digit ds \<Longrightarrow> addr_kind (ds @ rest) = addr_kind rest"
  by (induction ds) (auto dest: digit_ne_sign simp: is_digit_def byte_def)

lemma Itoa_digits: "0 \<le> i \<Longrightarrow> list_all is_digit (Itoa i)"
  by (simp add: Itoa_def utoa_digits)

lemma ParseAddr_string4: "ParseAddr (string4 a b c d) = Inr (Addr4 a b c d)"
proof -
  have "addr_kind (string4 a b c d) = Some (CHR ''.'')"
    by (simp add: string4_def addr_kind_digits Itoa_digits)
  then show ?thesis
    by (simp add: ParseAddr_def parseIPv4_def v4_fields_string4)
qed

interpretation ipv4: codec Addr_String ParseAddr Is4
proof
  fix x :: netip_addr
  assume "Is4 x"
  then show "ParseAddr (Addr_String x) = Inr x"
    by (cases x) (auto simp: ParseAddr_string4)
qed

lemma string4_chars: "ch \<in> set (string4 a b c d) \<Longrightarrow> is_digit ch \<or> ch = CHR ''.''"
  using Itoa_digits by (fastforce simp: string4_def list_all_iff)

lemma prefix_bits_Itoa:
  assumes "Is4 ip" and "0 \<le> n" and "n \<le> 32"
  shows "prefix_bits s ip (Itoa n) = Inr \<lparr>prefix_Addr = ip, prefix_Bits = n\<rparr>"
proof -
  have h: "1 < length (Itoa n) \<Longrightarrow> \<not> (byte (hd (Itoa n)) < 49 \<or> 57 < byte (hd (Itoa n)))"
  proof (cases "n = 0")
    case True
    then show "1 < length (Itoa n) \<Longrightarrow> ?thesis" by (simp add: Itoa_def utoa.simps)
  next
    case False
    with assms(2) obtain c cs where "utoa n [] = c # cs" "is_digit c" "0 < byte c - 48"
      using utoa_leading by (metis order_le_less)
    then show ?thesis using assms(2) by (auto simp: Itoa_def is_digit_def)
  qed
  have "Atoi (Itoa n) = Inr n" using assms by (intro Atoi_Itoa) (simp add: int64_ok_def)
  with h assms show ?thesis
    by (cases ip) (auto simp: prefix_bits_def)
qed

lemma ParsePrefix_v4:
  assumes "Is4 (prefix_Addr p)" and "0 \<le> prefix_Bits p" and "prefix_Bits p \<le> 32"
  shows "ParsePrefix (Prefix_String p) = Inr p"
proof -
  have "CHR ''/'' \<notin> set (Itoa (prefix_Bits p))"
    using Itoa_chars [of "CHR ''/''" "prefix_Bits p"] by (auto simp: is_digit_def byte_def)
  then have "LastIndexByte (Prefix_String p) (CHR ''/'') = Some (length (Addr_String (prefix_Addr p)))"
    by (simp add: Prefix_String_def LastIndexByte_append)
  then show ?thesis
    using assms by (simp add: ParsePrefix_def Prefix_String_def ipv4.dec_enc prefix_bits_Itoa)
qed

definition prefix4_ok :: "netip_prefix \<Rightarrow> bool" where
  "prefix4_ok p = (Is4 (prefix_Addr p) \<and> 0 \<le> prefix_Bits p \<and> prefix_Bits p \<le> 32)"

interpretation prefix4: codec Prefix_String ParsePrefix prefix4_ok
  by unfold_locales (auto simp: prefix4_ok_def intro: ParsePrefix_v4)

end
