(* ===== verification/Go_Path.thy ===== *)
theory Go_Path
  imports Go_Strings
begin

text \<open>Package \<^verbatim>\<open>path/filepath\<close> on Unix (\<^verbatim>\<open>path.Clean\<close> is the same function there).\<close>

text \<open>\<^verbatim>\<open>Clean\<close>: empty and dot elements vanish, a dot-dot element removes the element before it,
  and the ones that would climb above the root of an absolute path are dropped.\<close>

fun clean_elems :: "bool \<Rightarrow> string list \<Rightarrow> string list \<Rightarrow> string list" where
  "clean_elems rooted out [] = rev out"
| "clean_elems rooted out (e # es) =
     (if e = [] \<or> e = ''.'' then clean_elems rooted out es
      else if e = ''..'' then
        (case out of
           [] \<Rightarrow> clean_elems rooted (if rooted then [] else [''..'']) es
         | x # xs \<Rightarrow> clean_elems rooted (if x = ''..'' then ''..'' # out else xs) es)
      else clean_elems rooted (e # out) es)"

definition Clean :: "string \<Rightarrow> string" where
  "Clean p =
     (let rooted = HasPrefix p ''/'';
          es = clean_elems rooted [] (Split p (CHR ''/''))
      in if rooted then ''/'' @ join_with (CHR ''/'') es
         else if es = [] then ''.'' else join_with (CHR ''/'') es)"

definition Join :: "string list \<Rightarrow> string" where
  "Join elems =
     (case dropWhile (\<lambda>e. e = []) elems of
        [] \<Rightarrow> []
      | e # es \<Rightarrow> Clean (join_with (CHR ''/'') (e # es)))"

definition IsAbs :: "string \<Rightarrow> bool" where
  "IsAbs p = HasPrefix p ''/''"

definition after_slash :: "string \<Rightarrow> string" where
  "after_slash p = (case LastIndexByte p (CHR ''/'') of None \<Rightarrow> p | Some i \<Rightarrow> drop (Suc i) p)"

definition Base :: "string \<Rightarrow> string" where
  "Base p =
     (if p = [] then ''.''
      else let b = after_slash (rev (dropWhile (\<lambda>c. c = CHR ''/'') (rev p)))
           in if b = [] then ''/'' else b)"

definition Ext :: "string \<Rightarrow> string" where
  "Ext p =
     (let b = after_slash p in
      case LastIndexByte b (CHR ''.'') of None \<Rightarrow> [] | Some i \<Rightarrow> drop i b)"

definition Dir :: "string \<Rightarrow> string" where
  "Dir p = (case LastIndexByte p (CHR ''/'') of None \<Rightarrow> Clean [] | Some i \<Rightarrow> Clean (take (Suc i) p))"

section \<open>Lemmas\<close>

lemma join_with_Nil_iff: "join_with c es = [] \<longleftrightarrow> es = [] \<or> es = [[]]"
  by (cases "(c, es)" rule: join_with.cases) auto

lemma clean_elems_nonempty:
  "[] \<notin> set out \<Longrightarrow> [] \<notin> set (clean_elems r out es)"
  by (induction r out es rule: clean_elems.induct) (auto split: list.splits)

lemma Clean_not_Nil [simp]: "Clean p \<noteq> []"
proof -
  let ?es = "clean_elems (HasPrefix p ''/'') [] (Split p (CHR ''/''))"
  have "[] \<notin> set ?es" by (rule clean_elems_nonempty) simp
  then have "?es \<noteq> [[]]" by (metis list.set_intros(1))
  then show ?thesis by (auto simp: Clean_def Let_def join_with_Nil_iff)
qed

lemma Dir_not_Nil [simp]: "Dir p \<noteq> []"
  by (simp add: Dir_def split: option.splits)

lemma Join_not_Nil: "\<exists>e \<in> set es. e \<noteq> [] \<Longrightarrow> Join es \<noteq> []"
  by (auto simp: Join_def split: list.splits)

text \<open>An ordinary element: not empty, no separator, neither dot nor dot-dot.\<close>

definition path_elem :: "string \<Rightarrow> bool" where
  "path_elem e = (e \<noteq> [] \<and> CHR ''/'' \<notin> set e \<and> e \<noteq> ''.'' \<and> e \<noteq> ''..'')"

lemma clean_elems_snoc:
  "path_elem e \<Longrightarrow> clean_elems r out (es @ [e]) = clean_elems r out es @ [e]"
  by (induction r out es rule: clean_elems.induct) (auto simp: path_elem_def split: list.splits)

lemma join_with_snoc:
  "es \<noteq> [] \<Longrightarrow> join_with c (es @ [e]) = join_with c es @ c # e"
  by (induction c es rule: join_with.induct) auto

lemma Split_snoc: "c \<notin> set e \<Longrightarrow> Split (s @ c # e) c = Split s c @ [e]"
proof (induction s)
  case (Cons x s)
  then show ?case
    by (cases "Split s c") (auto simp: Split_none)
qed (simp add: Split_none)

lemma HasPrefix_Cons [simp]: "HasPrefix (x # xs) [c] \<longleftrightarrow> x = c"
  by (simp add: HasPrefix_def)

lemma Clean_snoc_inj:
  assumes "path_elem e" and "path_elem f" and "p \<noteq> []"
    and eq: "Clean (p @ CHR ''/'' # e) = Clean (p @ CHR ''/'' # f)"
  shows "e = f"
proof -
  let ?r = "HasPrefix p ''/''"
  let ?es = "clean_elems ?r [] (Split p (CHR ''/''))"
  have c: "Clean (p @ CHR ''/'' # g) =
     (if ?r then ''/'' else []) @ join_with (CHR ''/'') (?es @ [g])" if "path_elem g" for g
  proof -
    have "HasPrefix (p @ CHR ''/'' # g) ''/'' \<longleftrightarrow> ?r"
      using assms(3) by (cases p) auto
    moreover have "CHR ''/'' \<notin> set g" using that by (simp add: path_elem_def)
    ultimately show ?thesis
      using that by (simp add: Clean_def Split_snoc clean_elems_snoc)
  qed
  have "join_with (CHR ''/'') (?es @ [e]) = join_with (CHR ''/'') (?es @ [f])"
    using eq c [OF assms(1)] c [OF assms(2)] by simp
  then show ?thesis
    by (cases "?es = []") (auto simp: join_with_snoc)
qed

end
