(* ===== verification/Host_Env.thy ===== *)
theory Host_Env
  imports Go_Net Go_Path
begin

text \<open>
  What the program asks of its surroundings, as arguments of the model: the results of the
  calls into the INI library (\<^verbatim>\<open>github.com/go-ini/ini\<close>, not part of the repository) and the
  answers of the operating system, the resolver, the regular-expression compiler and the
  Unicode case table. Nothing is assumed about them; a lemma that needs one of their
  documented properties names it as a hypothesis.
\<close>

section \<open>The INI library\<close>

text \<open>A key as the program reads it: \<^verbatim>\<open>String()\<close>, \<^verbatim>\<open>Int()\<close>, \<^verbatim>\<open>Bool()\<close> and
  \<^verbatim>\<open>ValueWithShadows()\<close>.\<close>

record ini_key =
  key_String :: string
  key_Int :: "int ext"
  key_Bool :: "bool ext"
  key_ValueWithShadows :: "string list"

text \<open>A section: its name, \<^verbatim>\<open>GetKey\<close> (\<open>None\<close> when it returns an error) and \<^verbatim>\<open>Key\<close> (\<open>None\<close> for
  a nil pointer).\<close>

record ini_section =
  sec_Name :: string
  sec_GetKey :: "string \<Rightarrow> ini_key option"
  sec_Key :: "string \<Rightarrow> ini_key option"

text \<open>A file: \<^verbatim>\<open>Sections()\<close> in file order, \<^verbatim>\<open>Section(ini.DefaultSection)\<close> and
  \<^verbatim>\<open>SectionsByName\<close>.\<close>

record ini_file =
  file_Sections :: "ini_section list"
  file_DefaultSection :: ini_section
  file_SectionsByName :: "string \<Rightarrow> ini_section list ext"

text \<open>
  The documented behaviour of \<^verbatim>\<open>Key\<close> that \<^verbatim>\<open>parseString\<close> runs into: it never returns nil but a
  key with empty value when there is none of that name, and the key \<^verbatim>\<open>GetKey\<close> finds
  otherwise.
\<close>

definition ini_documented :: "ini_section \<Rightarrow> bool" where
  "ini_documented sec \<longleftrightarrow>
     (\<forall>n. case sec_GetKey sec n of
            Some k \<Rightarrow> sec_Key sec n = Some k
          | None \<Rightarrow> \<exists>k. sec_Key sec n = Some k \<and> key_String k = [])"

section \<open>Operating system, resolver, regular expressions\<close>

text \<open>\<^verbatim>\<open>*net.TCPAddr\<close>: the text of its IP (empty when nil), port and zone.\<close>

record tcp_addr =
  tcp_IP :: string
  tcp_Port :: int
  tcp_Zone :: string

definition TCPAddr_String :: "tcp_addr option \<Rightarrow> string" where
  "TCPAddr_String a =
     (case a of
        None \<Rightarrow> ''<nil>''
      | Some t \<Rightarrow>
          JoinHostPort (if tcp_Zone t = [] then tcp_IP t else tcp_IP t @ ''%'' @ tcp_Zone t)
            (Itoa (tcp_Port t)))"

record dir_entry =
  entry_Name :: string
  entry_IsRegular :: bool

text \<open>A compiled \<^verbatim>\<open>*regexp.Regexp\<close> is known by its source text.\<close>

type_synonym regexp = string

record world =
  env_LookupEnv :: "string \<Rightarrow> string option"
  env_ReadFile :: "string \<Rightarrow> string ext"
  env_StatIsDir :: "string \<Rightarrow> bool ext"
  env_ReadDir :: "string \<Rightarrow> dir_entry list ext"
  env_UserCacheDir :: "string ext"
  env_TempDir :: string
  env_ResolveTCPAddr :: "string \<Rightarrow> tcp_addr ext"
  env_ResolveIPAddr :: "string \<Rightarrow> string ext"
  env_unicode_lower :: "int \<Rightarrow> int"
  re_Compile :: "string \<Rightarrow> regexp ext"
  re_MatchString :: "regexp \<Rightarrow> string \<Rightarrow> bool"
  ini_LoadBytes :: "string \<Rightarrow> ini_file ext"
  ini_LoadPath :: "string \<Rightarrow> ini_file ext"
  env_map_pick :: nat

text \<open>\<open>env_map_pick\<close> stands for the unspecified iteration order of a Go map in the one loop
  whose result depends on it: it selects which of several offending keys is met first.\<close>

abbreviation lower :: "world \<Rightarrow> string \<Rightarrow> string" where
  "lower W \<equiv> ToLower (env_unicode_lower W)"

section \<open>A small instance\<close>

text \<open>
  A section backed by an association list from lower-case key names to values, with the
  documented behaviour of the library: look-ups ignore case, \<^verbatim>\<open>Key\<close> yields an empty key for a
  missing name, repeated names are shadow values. The closed examples of the development run on
  it; decimal integers and the words \<^verbatim>\<open>true\<close> and \<^verbatim>\<open>false\<close> are all the values they use.
\<close>

definition sample_key :: "string list \<Rightarrow> ini_key" where
  "sample_key vs =
     (let v = (case vs of [] \<Rightarrow> [] | x # _ \<Rightarrow> x) in
      \<lparr>key_String = v,
       key_Int = (case Atoi v of Inl _ \<Rightarrow> Inl v | Inr n \<Rightarrow> Inr n),
       key_Bool = (if v = ''true'' then Inr True else if v = ''false'' then Inr False
                   else Inl v),
       key_ValueWithShadows = vs\<rparr>)"

definition sample_section :: "string \<Rightarrow> (string \<times> string) list \<Rightarrow> ini_section" where
  "sample_section name kvs =
     (let look = (\<lambda>n. map snd (filter (\<lambda>kv. fst kv = map ascii_lower n) kvs)) in
      \<lparr>sec_Name = name,
       sec_GetKey = (\<lambda>n. if look n = [] then None else Some (sample_key (look n))),
       sec_Key = (\<lambda>n. Some (sample_key (look n)))\<rparr>)"

definition sample_file :: "(string \<times> string) list \<Rightarrow> ini_section list \<Rightarrow> ini_file" where
  "sample_file root secs =
     \<lparr>file_Sections = secs,
      file_DefaultSection = sample_section ''default'' root,
      file_SectionsByName =
        (\<lambda>n. Inr (filter (\<lambda>s. sec_Name s = map ascii_lower n) secs))\<rparr>"

lemma sample_documented: "ini_documented (sample_section name kvs)"
  by (auto simp: ini_documented_def sample_section_def Let_def sample_key_def)

text \<open>A world with no files, no environment variables and no resolver, in which every pattern
  compiles and matches exactly its own text.\<close>

definition sample_world :: world where
  "sample_world =
     \<lparr>env_LookupEnv = (\<lambda>_. None),
      env_ReadFile = (\<lambda>p. Inl p),
      env_StatIsDir = (\<lambda>p. Inl p),
      env_ReadDir = (\<lambda>p. Inl p),
      env_UserCacheDir = Inr ''/root/.cache'',
      env_TempDir = ''/tmp'',
      env_ResolveTCPAddr = (\<lambda>a. Inl a),
      env_ResolveIPAddr = (\<lambda>h. Inr h),
      env_unicode_lower = (\<lambda>r. r),
      re_Compile = (\<lambda>p. Inr p),
      re_MatchString = (\<lambda>p s. p = s),
      ini_LoadBytes = (\<lambda>b. Inl b),
      ini_LoadPath = (\<lambda>p. Inl p),
      env_map_pick = 0\<rparr>"

end
