(* ===== verification/Conn_Names.thy ===== *)
theory Conn_Names
  imports Host_Env
begin

text \<open>Connection names (\<^verbatim>\<open>connections.go\<close>): normalisation, the name derived from a file path,
  and the pattern names must match.\<close>

definition name_rune :: "int \<Rightarrow> bool" where
  "name_rune r = (97 \<le> r \<and> r \<le> 122 \<or> 48 \<le> r \<and> r \<le> 57 \<or> r = 45 \<or> r = 95)"

definition sanitizeConnectionName :: "world \<Rightarrow> string \<Rightarrow> string" where
  "sanitizeConnectionName W name =
     Trim (concat (map (\<lambda>(r, _). if name_rune r then encode_rune r else ''-'')
                       (runes (lower W (TrimSpace name)))))
          (\<lambda>c. c = CHR ''-'' \<or> c = CHR ''_'')"

definition defaultNameFromFile :: "world \<Rightarrow> string \<Rightarrow> string" where
  "defaultNameFromFile W path = sanitizeConnectionName W (TrimSuffix (Base path) (Ext path))"

definition name_char :: "char \<Rightarrow> bool" where
  "name_char c = (is_lower c \<or> is_digit c \<or> c = CHR ''_'' \<or> c = CHR ''-'')"

text \<open>The pattern \<^verbatim>\<open>^[a-z0-9][a-z0-9_-]*$\<close>.\<close>

definition connectionNamePattern :: "string \<Rightarrow> bool" where
  "connectionNamePattern s =
     (case s of
        [] \<Rightarrow> False
      | c # cs \<Rightarrow> (is_lower c \<or> is_digit c) \<and> list_all name_char cs)"

section \<open>Lemmas\<close>

abbreviation name_cut :: "char \<Rightarrow> bool" where
  "name_cut \<equiv> \<lambda>c. c = CHR ''-'' \<or> c = CHR ''_''"

lemma name_char_cut: "name_char c \<and> \<not> name_cut c \<longleftrightarrow> is_lower c \<or> is_digit c"
  by (auto simp: name_char_def is_lower_def is_digit_def byte_def)

lemma pattern_iff:
  "connectionNamePattern s \<longleftrightarrow> s \<noteq> [] \<and> list_all name_char s \<and> \<not> name_cut (hd s)"
  using name_char_cut [of "hd s"] by (cases s) (auto simp: connectionNamePattern_def)

lemma encode_name_rune: "name_rune r \<Longrightarrow> encode_rune r = [char_of r] \<and> name_char (char_of r)"
proof -
  assume r: "name_rune r"
  then have "encode_rune r = [char_of r]" by (auto simp: name_rune_def encode_rune_def)
  moreover have "char_of (45 :: int) = CHR ''-''" "char_of (95 :: int) = CHR ''_''"
    by (simp_all add: char_of_def)
  ultimately show ?thesis
    using r by (auto simp: name_rune_def name_char_def is_lower_def is_digit_def)
qed

lemma dash_name_char [simp]: "name_char (CHR ''-'')"
  by (simp add: name_char_def)

lemma sanitize_body:
  "list_all name_char (concat (map (\<lambda>(r, _). if name_rune r then encode_rune r else ''-'') rs))"
  by (induction rs) (auto simp: encode_name_rune)

lemma sanitize_chars: "list_all name_char (sanitizeConnectionName W name)"
  unfolding sanitizeConnectionName_def by (intro list_all_Trim sanitize_body)

lemma sanitize_ends:
  assumes "s \<noteq> []" and "s = sanitizeConnectionName W name"
  shows "\<not> name_cut (hd s) \<and> \<not> name_cut (last s)"
proof -
  obtain t where "s = Trim t name_cut"
    using assms(2) by (auto simp: sanitizeConnectionName_def)
  with assms(1) Trim_ends [of t name_cut] show ?thesis by simp
qed

text \<open>A normalised name is empty or matches the pattern.\<close>

lemma sanitize_pattern:
  "sanitizeConnectionName W name \<noteq> [] \<Longrightarrow> connectionNamePattern (sanitizeConnectionName W name)"
  using sanitize_chars sanitize_ends by (auto simp: pattern_iff)

lemma name_char_ascii: "name_char c \<Longrightarrow> is_ascii c"
  by (auto simp: name_char_def is_lower_def is_digit_def is_ascii_def byte_def)

lemma name_char_lower: "name_char c \<Longrightarrow> ascii_lower c = c"
  by (auto simp: name_char_def is_lower_def is_digit_def ascii_lower_def byte_def)

lemma name_char_no_space: "name_char c \<Longrightarrow> \<not> is_space_rune (byte c)"
  by (auto simp: name_char_def is_lower_def is_digit_def is_space_rune_def byte_def)

lemma name_char_rune: "name_char c \<Longrightarrow> name_rune (byte c)"
  by (auto simp: name_char_def is_lower_def is_digit_def name_rune_def byte_def)

lemma sanitize_fixed:
  assumes "list_all name_char s" and "s \<noteq> [] \<Longrightarrow> \<not> name_cut (hd s) \<and> \<not> name_cut (last s)"
  shows "sanitizeConnectionName W s = s"
proof -
  have a: "list_all is_ascii s" using assms(1) by (auto simp: list_all_iff name_char_ascii)
  have nsp: "\<not> is_space_rune (byte (hd s)) \<and> \<not> is_space_rune (byte (last s))" if "s \<noteq> []"
    using assms(1) that name_char_no_space by (simp add: list_all_iff)
  have "TrimSpace s = s"
    using nsp by (simp add: TrimSpace_ascii [OF a] Trim_id)
  moreover have "lower W s = s"
    using assms(1) by (simp add: ToLower_ascii [OF a] map_idI list_all_iff name_char_lower)
  moreover have "concat (map (\<lambda>(r, _). if name_rune r then encode_rune r else ''-'')
      (map (\<lambda>c. (byte c, [c])) s)) = s"
    using assms(1) by (induction s) (auto simp: name_char_rune encode_name_rune)
  ultimately show ?thesis
    using assms(2) by (simp add: sanitizeConnectionName_def runes_ascii [OF a] Trim_id)
qed

lemma sanitize_idem:
  "sanitizeConnectionName W (sanitizeConnectionName V name) = sanitizeConnectionName V name"
  by (rule sanitize_fixed) (auto simp: sanitize_chars dest: sanitize_ends)

lemma pattern_path_elem: "connectionNamePattern s \<Longrightarrow> path_elem s"
  by (auto simp: pattern_iff path_elem_def name_char_def is_lower_def is_digit_def byte_def list_all_iff)

section \<open>Properties\<close>

text \<open>A normalised connection name is canonical. It is empty or matches the pattern connection
  names must match and does not end with a separator; normalising it again changes nothing; and
  every string of lower-case letters, digits and inner separators is its own normal form.\<close>

theorem sanitize_canonical:
  "(sanitizeConnectionName W name = [] \<or>
      connectionNamePattern (sanitizeConnectionName W name) \<and>
      last (sanitizeConnectionName W name) \<notin> {CHR ''-'', CHR ''_''}) \<and>
   sanitizeConnectionName W (sanitizeConnectionName W name) = sanitizeConnectionName W name \<and>
   (connectionNamePattern s \<and> last s \<notin> {CHR ''-'', CHR ''_''} \<longrightarrow> sanitizeConnectionName W s = s)"
  using sanitize_pattern [of W name] sanitize_ends [of "sanitizeConnectionName W name" W name]
    sanitize_idem [of W W name] sanitize_fixed [of s W]
  by (auto simp: pattern_iff)

theorem sanitize_canonical_witness:
  "sanitizeConnectionName sample_world ''home-lab_2'' = ''home-lab_2''"
  using sanitize_canonical [of sample_world "''x''" "''home-lab_2''"]
  by (simp add: connectionNamePattern_def name_char_def is_lower_def is_digit_def byte_def)

end
