(* ===== verification/Config_Keys.thy ===== *)
theory Config_Keys
  imports Conn_Names
begin

text \<open>
  The readers of single keys in \<^verbatim>\<open>config.go\<close> (lines 102--271, 340--373): strings with
  environment references, ports, addresses, prefixes, key material, regular expressions and
  booleans.
\<close>

definition parseString :: "world \<Rightarrow> ini_section \<Rightarrow> string \<Rightarrow> string res" where
  "parseString W sec keyName =
     (case sec_Key sec (lower W keyName) of
        None \<Rightarrow> Inl (New (keyName @ '' should not be empty''))
      | Some key \<Rightarrow>
          let value = key_String key in
          if HasPrefix value ''$'' then
            (if HasPrefix value ''$$'' then Inr (Replace1 value ''$$'' ''$'')
             else
               (case env_LookupEnv W (TrimPrefix value ''$'') of
                  None \<Rightarrow>
                    Inl (New (keyName @ '' references unset environment variable '' @ key_String key))
                | Some v \<Rightarrow> Inr v))
          else Inr (key_String key))"

definition parsePort :: "ini_section \<Rightarrow> string \<Rightarrow> int res" where
  "parsePort sec keyName =
     (case sec_Key sec keyName of
        None \<Rightarrow> Inl (New (keyName @ '' should not be empty''))
      | Some key \<Rightarrow>
          ebind (lib (key_Int key)) (\<lambda>port.
            if port < 0 \<or> 65536 \<le> port then Inl (New ''port should be >= 0 and < 65536'')
            else Inr port))"

definition parseTCPAddr :: "world \<Rightarrow> ini_section \<Rightarrow> string \<Rightarrow> tcp_addr res" where
  "parseTCPAddr W sec keyName =
     ebind (parseString W sec keyName) (\<lambda>addrStr. lib (env_ResolveTCPAddr W addrStr))"

definition encodeBase64ToHex :: "string \<Rightarrow> string res" where
  "encodeBase64ToHex key =
     (case b64_DecodeString key of
        Inl _ \<Rightarrow> Inl (New ''invalid base64 key material'')
      | Inr decoded \<Rightarrow>
          if length decoded \<noteq> 32 then Inl (New ''key should be 32 bytes'')
          else Inr (hex_EncodeToString decoded))"

definition parseBase64KeyToHex :: "world \<Rightarrow> ini_section \<Rightarrow> string \<Rightarrow> string res" where
  "parseBase64KeyToHex W sec keyName = ebind (parseString W sec keyName) encodeBase64ToHex"

text \<open>The loop over a comma-separated value: parts are trimmed and empty parts skipped.\<close>

definition comma_items :: "string \<Rightarrow> string list" where
  "comma_items key = filter (\<lambda>s. s \<noteq> []) (map TrimSpace (Split key (CHR '','')))"

definition parseNetIP :: "world \<Rightarrow> ini_section \<Rightarrow> string \<Rightarrow> netip_addr list res" where
  "parseNetIP W sec keyName =
     (case parseString W sec keyName of
        Inl err \<Rightarrow> if Contains (err_Error err) ''should not be empty'' then Inr [] else Inl err
      | Inr key \<Rightarrow> emap ParseAddr (comma_items key))"

definition addr_or_prefix :: "string \<Rightarrow> netip_addr res" where
  "addr_or_prefix str =
     (case ParseAddr str of
        Inr addr \<Rightarrow> Inr addr
      | Inl _ \<Rightarrow> ebind (ParsePrefix str) (\<lambda>prefix. Inr (prefix_Addr prefix)))"

definition parseCIDRNetIP :: "world \<Rightarrow> ini_section \<Rightarrow> string \<Rightarrow> netip_addr list res" where
  "parseCIDRNetIP W sec keyName =
     (case parseString W sec keyName of
        Inl err \<Rightarrow> if Contains (err_Error err) ''should not be empty'' then Inr [] else Inl err
      | Inr key \<Rightarrow> emap addr_or_prefix (comma_items key))"

definition parseAllowedIPs :: "world \<Rightarrow> ini_section \<Rightarrow> netip_prefix list res" where
  "parseAllowedIPs W sec =
     (case parseString W sec ''AllowedIPs'' of
        Inl err \<Rightarrow> if Contains (err_Error err) ''should not be empty'' then Inr [] else Inl err
      | Inr key \<Rightarrow> emap ParsePrefix (comma_items key))"

definition resolveIP :: "world \<Rightarrow> string \<Rightarrow> string res" where
  "resolveIP W ip = lib (env_ResolveIPAddr W ip)"

definition resolveIPPAndPort :: "world \<Rightarrow> string \<Rightarrow> string res" where
  "resolveIPPAndPort W addr =
     ebind (SplitHostPort addr) (\<lambda>(host, port).
       ebind (resolveIP W host) (\<lambda>ip. Inr (JoinHostPort ip port)))"

definition parseRegexList :: "world \<Rightarrow> ini_section \<Rightarrow> string \<Rightarrow> regexp list res" where
  "parseRegexList W sec keyName =
     (case sec_GetKey sec keyName of
        None \<Rightarrow> Inr []
      | Some key \<Rightarrow>
          emap (\<lambda>raw.
              case re_Compile W raw of
                Inl cerr \<Rightarrow> Inl (New (''invalid '' @ keyName @ '' regex `'' @ raw @ ''`: '' @ cerr))
              | Inr re \<Rightarrow> Inr re)
            (filter (\<lambda>raw. raw \<noteq> []) (map TrimSpace (key_ValueWithShadows key))))"

definition parseBoolKey :: "ini_section \<Rightarrow> string \<Rightarrow> bool res" where
  "parseBoolKey sec keyName =
     (case sec_GetKey sec keyName of None \<Rightarrow> Inr False | Some key \<Rightarrow> lib (key_Bool key))"

section \<open>Lemmas\<close>

lemma parsePort_range: "parsePort sec n = Inr port \<Longrightarrow> 0 \<le> port \<and> port < 65536"
  by (auto simp: parsePort_def ok_iff split: option.splits if_splits)

text \<open>The strings a dollar sign introduces.\<close>

lemma parseString_plain:
  "sec_Key sec (lower W n) = Some k \<Longrightarrow> \<not> HasPrefix (key_String k) ''$'' \<Longrightarrow>
   parseString W sec n = Inr (key_String k)"
  by (simp add: parseString_def)

lemma parseString_env:
  assumes "sec_Key sec (lower W n) = Some k" and "key_String k = ''$'' @ v"
    and "\<not> HasPrefix v ''$''"
  shows "parseString W sec n =
     (case env_LookupEnv W v of
        None \<Rightarrow> Inl (New (n @ '' references unset environment variable '' @ ''$'' @ v))
      | Some x \<Rightarrow> Inr x)"
proof -
  have "\<not> HasPrefix (''$'' @ v) ''$$''" using assms(3) by (simp add: HasPrefix_def)
  then show ?thesis
    using assms(1,2)
    by (cases "env_LookupEnv W v") (simp_all add: parseString_def TrimPrefix_def HasPrefix_def)
qed

lemma parseString_escaped:
  "sec_Key sec (lower W n) = Some k \<Longrightarrow> key_String k = ''$$'' @ v \<Longrightarrow>
   parseString W sec n = Inr (''$'' @ v)"
  by (simp add: parseString_def HasPrefix_def)

lemma encodeBase64ToHex_ok [ok_iff]:
  "encodeBase64ToHex key = Inr h \<longleftrightarrow>
     (\<exists>bs. b64_DecodeString key = Inr bs \<and> length bs = 32 \<and> h = hex_EncodeToString bs)"
  by (auto simp: encodeBase64ToHex_def split: sum.splits)

definition hex_key :: "string \<Rightarrow> bool" where
  "hex_key h = (length h = 64 \<and> list_all is_hex_digit h)"

lemma encodeBase64ToHex_hex_key: "encodeBase64ToHex key = Inr h \<Longrightarrow> hex_key h"
  by (auto simp: ok_iff hex_key_def hex_all_digits)

lemma parseBase64KeyToHex_hex_key: "parseBase64KeyToHex W sec n = Inr h \<Longrightarrow> hex_key h"
  by (auto simp: parseBase64KeyToHex_def ebind_ok intro: encodeBase64ToHex_hex_key)

subsection \<open>No panics\<close>

lemma is_panic_base [simp]:
  "\<not> is_panic (New s)" "\<not> is_panic (Std w as)" "\<not> is_panic (External s)" "\<not> is_panic (Errorf f as)"
  by simp_all

lemma safe_parseString [simp]: "safe (parseString W sec n)"
  by (simp add: parseString_def Let_def split: option.splits)

lemma safe_parsePort [simp]: "safe (parsePort sec n)"
  by (auto simp: parsePort_def intro!: safe_ebind split: option.splits)

lemma safe_parseTCPAddr [simp]: "safe (parseTCPAddr W sec n)"
  by (auto simp: parseTCPAddr_def intro!: safe_ebind)

lemma safe_encodeBase64ToHex [simp]: "safe (encodeBase64ToHex key)"
  by (simp add: encodeBase64ToHex_def split: sum.splits)

lemma safe_parseBase64KeyToHex [simp]: "safe (parseBase64KeyToHex W sec n)"
  by (auto simp: parseBase64KeyToHex_def intro!: safe_ebind)

lemma safe_Atoi [simp]: "safe (Atoi s)"
  by (auto simp: Atoi_def Let_def split: prod.splits option.splits)

lemma safe_v4_fields [simp]: "safe (v4_fields s val dl fs cs)"
  by (induction s val dl fs cs rule: v4_fields.induct) (auto simp: ip_err_def Let_def)

lemma safe_v6_groups [simp]: "safe (v6_groups n inp gs ell s)"
  by (induction n inp gs ell s rule: v6_groups.induct)
     (auto simp: ip_err_def Let_def intro!: safe_ebind split: option.splits list.splits)

lemma safe_v6_expand [simp]: "safe (v6_expand inp zone st)"
  by (auto simp: v6_expand_def ip_err_def split: prod.splits option.splits)

lemma safe_ParseAddr [simp]: "safe (ParseAddr s)"
  by (auto simp: ParseAddr_def parseIPv4_def parseIPv6_def ip_err_def Let_def
           intro!: safe_ebind split: option.splits list.splits prod.splits)

lemma safe_ParsePrefix [simp]: "safe (ParsePrefix s)"
  by (auto simp: ParsePrefix_def prefix_bits_def ip_err_def
           intro!: safe_ebind safe_ewrap split: option.splits sum.splits)

lemma safe_SplitHostPort [simp]: "safe (SplitHostPort s)"
  by (auto simp: SplitHostPort_def addr_err_def split_tail_def Let_def split: option.splits)

lemma safe_sum_Inl: "safe m \<Longrightarrow> m = Inl e \<Longrightarrow> \<not> is_panic e"
  by simp

lemmas parseString_no_panic = safe_sum_Inl [OF safe_parseString]

lemma safe_parseNetIP [simp]: "safe (parseNetIP W sec n)"
  by (auto simp: parseNetIP_def intro!: safe_emap split: sum.splits dest: parseString_no_panic)

lemma safe_parseCIDRNetIP [simp]: "safe (parseCIDRNetIP W sec n)"
  by (auto simp: parseCIDRNetIP_def addr_or_prefix_def intro!: safe_emap safe_ebind
           split: sum.splits dest: parseString_no_panic)

lemma safe_parseAllowedIPs [simp]: "safe (parseAllowedIPs W sec)"
  by (auto simp: parseAllowedIPs_def intro!: safe_emap split: sum.splits
           dest: parseString_no_panic)

lemma safe_resolveIPPAndPort [simp]: "safe (resolveIPPAndPort W addr)"
  by (auto simp: resolveIPPAndPort_def resolveIP_def intro!: safe_ebind split: prod.splits)

lemma safe_parseRegexList [simp]: "safe (parseRegexList W sec n)"
  by (auto simp: parseRegexList_def intro!: safe_emap split: option.splits sum.splits)

lemma safe_parseBoolKey [simp]: "safe (parseBoolKey sec n)"
  by (auto simp: parseBoolKey_def split: option.splits)

section \<open>Properties\<close>

text \<open>C26: key material survives the conversion. Every 32-byte key, written in base64 in the
  configuration, becomes 64 hexadecimal digits that decode to the same bytes; and nothing but
  base64 of exactly 32 bytes is accepted.\<close>

theorem key_material_roundtrip:
  "(length bs = 32 \<longrightarrow>
      (\<exists>h. encodeBase64ToHex (b64_EncodeToString bs) = Inr h \<and> hex_DecodeString h = Inr bs)) \<and>
   (encodeBase64ToHex key = Inr h' \<longrightarrow>
      hex_key h' \<and> (\<exists>bs'. b64_DecodeString key = Inr bs' \<and> length bs' = 32 \<and> hex_DecodeString h' = Inr bs'))"
  by (auto simp: ok_iff base64.dec_enc hex.dec_enc hex_key_def hex_all_digits)

theorem key_material_roundtrip_witness:
  "\<exists>h. encodeBase64ToHex (b64_EncodeToString (replicate 32 (CHR ''k''))) = Inr h \<and>
     hex_DecodeString h = Inr (replicate 32 (CHR ''k''))"
  using key_material_roundtrip [of "replicate 32 (CHR ''k'')"] by simp

subsection \<open>Comma-separated lists\<close>

text \<open>The items of a list may have a blank on either side.\<close>

definition padded :: "string \<Rightarrow> string \<Rightarrow> bool" where
  "padded s t = (t = s \<or> t = '' '' @ s \<or> t = s @ '' '' \<or> t = '' '' @ s @ '' '')"

definition plain_item :: "string \<Rightarrow> bool" where
  "plain_item s = (s \<noteq> [] \<and> list_all (\<lambda>c. is_digit c \<or> c = CHR ''.'') s)"

lemma plain_item_Addr4: "Is4 a \<Longrightarrow> plain_item (Addr_String a)"
proof -
  assume "Is4 a"
  then obtain b c d e where a: "a = Addr4 b c d e" by (cases a) auto
  show ?thesis
    using string4_chars [of _ b c d e] by (auto simp: a plain_item_def list_all_iff string4_def [of b])
qed

lemma plain_char:
  "is_digit c \<or> c = CHR ''.'' \<Longrightarrow>
     is_ascii c \<and> \<not> is_space_rune (byte c) \<and> c \<noteq> CHR '','' \<and> c \<noteq> CHR ''$''"
  by (auto simp: is_digit_def is_ascii_def is_space_rune_def byte_def)

lemma padded_chars:
  "padded s t \<Longrightarrow> plain_item s \<Longrightarrow> CHR '','' \<notin> set t \<and> CHR ''$'' \<notin> set t"
  using plain_char by (fastforce simp: padded_def plain_item_def list_all_iff)

lemma TrimSpace_padded:
  assumes "padded s t" and "plain_item s"
  shows "TrimSpace t = s"
proof -
  let ?sp = "is_space_rune \<circ> byte"
  have sp: "is_ascii (CHR '' '')" "?sp (CHR '' '')" "?sp (CHR '' '') = True"
    by (simp_all add: is_ascii_def is_space_rune_def byte_def)
  have s: "\<forall>c \<in> set s. is_ascii c \<and> \<not> ?sp c" and ne: "s \<noteq> []"
    using assms(2) plain_char by (auto simp: plain_item_def list_all_iff)
  have a: "list_all is_ascii t"
    using assms(1) s sp(1) by (auto simp: padded_def list_all_iff)
  have "dropWhile ?sp t = s \<or> dropWhile ?sp t = s @ '' ''"
    using assms(1) s ne sp(2) by (cases s) (auto simp: padded_def)
  moreover have "dropWhile ?sp (rev (s @ '' '')) = rev s" "dropWhile ?sp (rev s) = rev s"
    using s ne sp(2) by (cases s rule: rev_cases; auto)+
  ultimately show ?thesis
    unfolding TrimSpace_ascii [OF a] Trim_def by auto
qed

lemma padded_items:
  assumes "list_all2 padded ss ts" and "list_all plain_item ss"
  shows "map TrimSpace ts = ss \<and> (\<forall>t \<in> set ts. CHR '','' \<notin> set t \<and> CHR ''$'' \<notin> set t)"
  using assms by (induction rule: list_all2_induct) (auto simp: TrimSpace_padded dest: padded_chars)

lemma comma_items_padded:
  assumes "list_all2 padded ss ts" and "list_all plain_item ss" and "ts \<noteq> []"
  shows "comma_items (join_with (CHR '','') ts) = ss"
proof -
  have "Split (join_with (CHR '','') ts) (CHR '','') = ts"
    using assms padded_items by (intro Split_join) blast+
  then show ?thesis
    using padded_items [OF assms(1,2)] assms(2)
    by (auto simp: comma_items_def filter_id_conv list_all_iff plain_item_def)
qed

lemma set_join_with: "set (join_with c ts) \<subseteq> insert c (\<Union> (set ` set ts))"
  by (induction c ts rule: join_with.induct) auto

lemma join_no_dollar:
  assumes "\<forall>t \<in> set ts. CHR ''$'' \<notin> set t"
  shows "\<not> HasPrefix (join_with (CHR '','') ts) ''$''"
proof -
  have "CHR ''$'' \<notin> set (join_with (CHR '','') ts)"
    using assms set_join_with [of "CHR '',''" ts] by auto
  then show ?thesis by (auto simp: HasPrefix_iff)
qed

lemma addr_or_prefix_addr: "Is4 a \<Longrightarrow> addr_or_prefix (Addr_String a) = Inr a"
  by (simp add: addr_or_prefix_def ipv4.dec_enc)

lemma addr_or_prefix_list: "list_all Is4 as \<Longrightarrow> emap addr_or_prefix (map Addr_String as) = Inr as"
  by (induction as) (auto simp: addr_or_prefix_addr)

text \<open>Address lists survive the configuration. A comma-separated list of IPv4 addresses in their
  printed form, with a blank before or after any of them, is read back as the same list, both
  as a list of plain addresses and as interface addresses.\<close>

theorem address_list_roundtrip:
  assumes "sec_Key sec (lower W n) = Some k" and "key_String k = join_with (CHR '','') ts"
    and "list_all2 padded (map Addr_String as) ts" and "list_all Is4 as" and "as \<noteq> []"
  shows "parseNetIP W sec n = Inr as \<and> parseCIDRNetIP W sec n = Inr as"
proof -
  have p: "list_all plain_item (map Addr_String as)"
    using assms(4) by (auto simp: list_all_iff plain_item_Addr4)
  have "ts \<noteq> []" using assms(3,5) by auto
  then have items: "comma_items (key_String k) = map Addr_String as"
    using comma_items_padded [OF assms(3) p] assms(2) by simp
  have "\<not> HasPrefix (key_String k) ''$''"
    using padded_items [OF assms(3) p] assms(2) join_no_dollar by auto
  then show ?thesis
    using parseString_plain [OF assms(1)] assms(4)
    by (simp add: parseNetIP_def parseCIDRNetIP_def items ipv4.dec_enc_list addr_or_prefix_list)
qed

definition demo_dns :: ini_section where
  "demo_dns = sample_section ''Interface'' [(''dns'', ''10.0.0.1, 1.1.1.1'')]"

theorem address_list_roundtrip_witness:
  "parseNetIP sample_world demo_dns ''DNS'' = Inr [Addr4 10 0 0 1, Addr4 1 1 1 1]"
proof -
  obtain k where k: "sec_Key demo_dns (lower sample_world ''DNS'') = Some k"
      "key_String k = join_with (CHR '','') [''10.0.0.1'', '' 1.1.1.1'']"
  proof -
    have "map_option key_String (sec_Key demo_dns (lower sample_world ''DNS'')) =
        Some (join_with (CHR '','') [''10.0.0.1'', '' 1.1.1.1''])"
      by code_simp
    then show ?thesis using that by auto
  qed
  have "list_all2 padded (map Addr_String [Addr4 10 0 0 1, Addr4 1 1 1 1]) [''10.0.0.1'', '' 1.1.1.1'']"
    by code_simp
  from address_list_roundtrip [OF k this] show ?thesis by simp
qed

text \<open>The values a dollar sign introduces. A value that does not begin with a dollar sign is
  taken as it is; \<^verbatim>\<open>$NAME\<close> is replaced by the environment variable, and an unset variable is an
  error; \<^verbatim>\<open>$$text\<close> stands for the literal \<^verbatim>\<open>$text\<close>. So every string can be written in a
  configuration.\<close>

theorem parseString_semantics:
  assumes "sec_Key sec (lower W n) = Some k"
  shows "(\<not> HasPrefix (key_String k) ''$'' \<longrightarrow> parseString W sec n = Inr (key_String k)) \<and>
    (key_String k = ''$'' @ v \<and> \<not> HasPrefix v ''$'' \<longrightarrow>
       parseString W sec n =
         (case env_LookupEnv W v of
            None \<Rightarrow> Inl (New (n @ '' references unset environment variable '' @ ''$'' @ v))
          | Some x \<Rightarrow> Inr x)) \<and>
    (key_String k = ''$$'' @ v \<longrightarrow> parseString W sec n = Inr (''$'' @ v))"
  using parseString_plain [OF assms] parseString_env [OF assms] parseString_escaped [OF assms]
  by blast

theorem parseString_semantics_witness:
  "parseString sample_world (sample_section ''http'' [(''password'', ''$$ecret'')]) ''Password'' = Inr ''$ecret''"
proof -
  let ?sec = "sample_section ''http'' [(''password'', ''$$ecret'')]"
  have "map_option key_String (sec_Key ?sec (lower sample_world ''Password'')) = Some ''$$ecret''"
    by code_simp
  then obtain k where "sec_Key ?sec (lower sample_world ''Password'') = Some k" "key_String k = ''$$ecret''"
    by auto
  with parseString_semantics [of ?sec sample_world "''Password''" k "''ecret''"] show ?thesis by simp
qed

end
