(* ===== verification/Tailscale_Config.thy ===== *)
theory Tailscale_Config
  imports Config_Keys
begin

text \<open>
  The \<^verbatim>\<open>[Tailscale]\<close> section (\<^verbatim>\<open>tailscale_config.go\<close>): its record, its parser and the directory
  a node keeps its state in.
\<close>

record TailscaleConfig =
  ts_Hostname :: string
  ts_AuthKey :: string
  ts_ControlURL :: string
  ts_Ephemeral :: bool
  ts_StateDir :: string
  ts_AdvertiseTags :: "string list"

definition defaultStateDirBase :: string where
  "defaultStateDirBase = ''tsnet''"

definition parseTailscaleConfig :: "world \<Rightarrow> ini_section \<Rightarrow> TailscaleConfig res" where
  "parseTailscaleConfig W sec =
     ebind (parseString W sec ''Hostname'') (\<lambda>hostname.
     if TrimSpace hostname = [] then Inl (New ''hostname must not be empty'')
     else
       ebind (parseString W sec ''AuthKey'') (\<lambda>authKey.
       ebind (parseString W sec ''ControlURL'') (\<lambda>controlURL.
       ebind (parseString W sec ''StateDir'') (\<lambda>stateDir.
       ebind (parseBoolKey sec ''Ephemeral'') (\<lambda>ephemeral.
       Inr \<lparr>ts_Hostname = hostname, ts_AuthKey = authKey, ts_ControlURL = controlURL,
            ts_Ephemeral = ephemeral, ts_StateDir = stateDir,
            ts_AdvertiseTags =
              (case sec_GetKey sec ''AdvertiseTags'' of
                 None \<Rightarrow> []
               | Some key \<Rightarrow> comma_items (key_String key))\<rparr>)))))"

definition EffectiveStateDir :: "world \<Rightarrow> TailscaleConfig \<Rightarrow> string \<Rightarrow> string" where
  "EffectiveStateDir W c connName =
     (if ts_StateDir c \<noteq> [] then ts_StateDir c
      else
        let base = (case env_UserCacheDir W of
                      Inl _ \<Rightarrow> env_TempDir W
                    | Inr b \<Rightarrow> if b = [] then env_TempDir W else b)
        in Join [base, ''wireproxy'', defaultStateDirBase, connName])"

section \<open>Lemmas\<close>

lemma safe_parseTailscaleConfig [simp]: "safe (parseTailscaleConfig W sec)"
  by (auto simp: parseTailscaleConfig_def intro!: safe_ebind)

lemma parseTailscaleConfig_hostname:
  "parseTailscaleConfig W sec = Inr c \<Longrightarrow> TrimSpace (ts_Hostname c) \<noteq> []"
  by (auto simp: parseTailscaleConfig_def ebind_ok split: if_splits)

lemma comma_items_trimmed: "t \<in> set (comma_items s) \<Longrightarrow> t \<noteq> [] \<and> CHR '','' \<notin> set t"
  using Split_no_sep [of _ s "CHR '',''"] set_TrimSpace by (fastforce simp: comma_items_def)

lemma parseTailscaleConfig_tags:
  "parseTailscaleConfig W sec = Inr c \<Longrightarrow> t \<in> set (ts_AdvertiseTags c) \<Longrightarrow>
     t \<noteq> [] \<and> CHR '','' \<notin> set t"
  by (auto simp: parseTailscaleConfig_def ebind_ok split: if_splits option.splits
           dest: comma_items_trimmed)

text \<open>Two nodes without an explicit directory keep their state apart.\<close>

lemma derived_dir_eq_iff:
  assumes "ts_StateDir c = []" and "ts_StateDir d = []"
    and "connectionNamePattern n" and "connectionNamePattern m"
  shows "EffectiveStateDir W c n = EffectiveStateDir W d m \<longleftrightarrow> n = m"
proof
  assume eq: "EffectiveStateDir W c n = EffectiveStateDir W d m"
  define base where "base = (case env_UserCacheDir W of
      Inl _ \<Rightarrow> env_TempDir W | Inr b \<Rightarrow> if b = [] then env_TempDir W else b)"
  have j: "\<exists>p. p \<noteq> [] \<and> (\<forall>k. Join [base, ''wireproxy'', ''tsnet'', k] = Clean (p @ CHR ''/'' # k))"
    by (cases "base = []", rule exI [of _ "''wireproxy/tsnet''"], simp add: Join_def,
        rule exI [of _ "base @ ''/wireproxy/tsnet''"], simp add: Join_def)
  have "Join [base, ''wireproxy'', ''tsnet'', n] = Join [base, ''wireproxy'', ''tsnet'', m]"
    using eq assms(1,2) by (simp add: EffectiveStateDir_def base_def defaultStateDirBase_def Let_def)
  with j show "n = m"
    using Clean_snoc_inj [OF pattern_path_elem [OF assms(3)] pattern_path_elem [OF assms(4)]]
    by metis
qed (simp add: EffectiveStateDir_def assms(1,2))

section \<open>Properties\<close>

text \<open>The state directory of a tailnet node. An explicit directory is used as it is; without one,
  two connections with valid names use the same directory exactly when they have the same name,
  whatever the cache directory of the user.\<close>

theorem derived_state_dirs:
  "(ts_StateDir c \<noteq> [] \<longrightarrow> EffectiveStateDir W c n = ts_StateDir c) \<and>
   (ts_StateDir c = [] \<and> ts_StateDir d = [] \<and> connectionNamePattern n \<and> connectionNamePattern m \<longrightarrow>
     (EffectiveStateDir W c n = EffectiveStateDir W d m \<longleftrightarrow> n = m))"
  using derived_dir_eq_iff by (auto simp: EffectiveStateDir_def)

definition demo_ts_conf :: TailscaleConfig where
  "demo_ts_conf = \<lparr>ts_Hostname = ''gate'', ts_AuthKey = [], ts_ControlURL = [], ts_Ephemeral = False,
     ts_StateDir = [], ts_AdvertiseTags = []\<rparr>"

theorem derived_state_dirs_witness:
  "EffectiveStateDir sample_world demo_ts_conf ''home'' \<noteq> EffectiveStateDir sample_world demo_ts_conf ''work''"
  using derived_state_dirs [of demo_ts_conf sample_world "''home''" demo_ts_conf "''work''"]
  by (simp add: demo_ts_conf_def connectionNamePattern_def name_char_def is_lower_def is_digit_def byte_def)

end
