(* ===== verification/Config_Sections.thy ===== *)
theory Config_Sections
  imports Tailscale_Config
begin

text \<open>
  The configuration types and the parsers of single sections (\<^verbatim>\<open>config.go\<close>, lines 18--101,
  273--541, 613--721, 843--893). A struct filled through a pointer is a record passed in and
  returned; a parser that fails returns no record, as its callers drop it.
\<close>

section \<open>Types\<close>

record PeerConfig =
  peer_PublicKey :: string
  peer_PreSharedKey :: string
  peer_Endpoint :: "string option"
  peer_KeepAlive :: int
  peer_AllowedIPs :: "netip_prefix list"

record DeviceConfig =
  dev_SecretKey :: string
  dev_Endpoint :: "netip_addr list"
  dev_Peers :: "PeerConfig list"
  dev_DNS :: "netip_addr list"
  dev_MTU :: int
  dev_ListenPort :: "int option"
  dev_CheckAlive :: "netip_addr list"
  dev_CheckAliveInterval :: int

record UDPProxyTunnelConfig =
  udp_BindAddress :: string
  udp_Target :: string
  udp_InactivityTimeout :: int

record TCPClientTunnelConfig =
  tcpc_BindAddress :: "tcp_addr option"
  tcpc_Target :: string

record STDIOTunnelConfig =
  stdio_Target :: string

record TCPServerTunnelConfig =
  tcps_ListenPort :: int
  tcps_Target :: string

record Socks5Config =
  socks_BindAddress :: string
  socks_Username :: string
  socks_Password :: string
  socks_TunnelDomains :: "regexp list"
  socks_LogDomains :: bool

record SNIConfig =
  sni_BindAddress :: string
  sni_TunnelDomains :: "regexp list"
  sni_LogDomains :: bool

record HTTPConfig =
  http_BindAddress :: string
  http_Username :: string
  http_Password :: string
  http_CertFile :: string
  http_KeyFile :: string
  http_TunnelDomains :: "regexp list"
  http_LogDomains :: bool

record ResolveConfig =
  ResolveStrategy :: string

text \<open>The values behind the interface \<^verbatim>\<open>RoutineSpawner\<close>.\<close>

datatype RoutineSpawner =
    TCPClientTunnel TCPClientTunnelConfig
  | STDIOTunnel STDIOTunnelConfig
  | TCPServerTunnel TCPServerTunnelConfig
  | Socks5 Socks5Config
  | HTTP HTTPConfig
  | SNI SNIConfig
  | UDPProxyTunnel UDPProxyTunnelConfig

record Configuration =
  conf_Name :: string
  conf_Device :: "DeviceConfig option"
  conf_Tailscale :: "TailscaleConfig option"
  conf_Routines :: "RoutineSpawner list"
  conf_Resolve :: "ResolveConfig option"

section \<open>Proxy sections\<close>

definition parseTCPClientTunnelConfig :: "world \<Rightarrow> ini_section \<Rightarrow> RoutineSpawner res" where
  "parseTCPClientTunnelConfig W sec =
     ebind (parseTCPAddr W sec ''BindAddress'') (\<lambda>tcpAddr.
     ebind (parseString W sec ''Target'') (\<lambda>target.
     Inr (TCPClientTunnel \<lparr>tcpc_BindAddress = Some tcpAddr, tcpc_Target = target\<rparr>)))"

definition parseSTDIOTunnelConfig :: "world \<Rightarrow> ini_section \<Rightarrow> RoutineSpawner res" where
  "parseSTDIOTunnelConfig W sec =
     ebind (parseString W sec ''Target'') (\<lambda>target. Inr (STDIOTunnel \<lparr>stdio_Target = target\<rparr>))"

definition parseTCPServerTunnelConfig :: "world \<Rightarrow> ini_section \<Rightarrow> RoutineSpawner res" where
  "parseTCPServerTunnelConfig W sec =
     ebind (parsePort sec ''ListenPort'') (\<lambda>listenPort.
     ebind (parseString W sec ''Target'') (\<lambda>target.
     Inr (TCPServerTunnel \<lparr>tcps_ListenPort = listenPort, tcps_Target = target\<rparr>)))"

definition parseSocks5Config :: "world \<Rightarrow> ini_section \<Rightarrow> RoutineSpawner res" where
  "parseSocks5Config W sec =
     ebind (parseString W sec ''BindAddress'') (\<lambda>bindAddress.
     ebind (parseString W sec ''Username'') (\<lambda>username.
     ebind (parseString W sec ''Password'') (\<lambda>password.
     ebind (parseRegexList W sec ''TunnelDomains'') (\<lambda>tunnelDomains.
     ebind (parseBoolKey sec ''LogDomains'') (\<lambda>logDomains.
     Inr (Socks5 \<lparr>socks_BindAddress = bindAddress, socks_Username = username,
                  socks_Password = password, socks_TunnelDomains = tunnelDomains,
                  socks_LogDomains = logDomains\<rparr>))))))"

definition parseSNIConfig :: "world \<Rightarrow> ini_section \<Rightarrow> RoutineSpawner res" where
  "parseSNIConfig W sec =
     ebind (parseString W sec ''BindAddress'') (\<lambda>bindAddress.
     ebind (parseRegexList W sec ''TunnelDomains'') (\<lambda>tunnelDomains.
     ebind (parseBoolKey sec ''LogDomains'') (\<lambda>logDomains.
     Inr (SNI \<lparr>sni_BindAddress = bindAddress, sni_TunnelDomains = tunnelDomains,
               sni_LogDomains = logDomains\<rparr>))))"

definition parseHTTPConfig :: "world \<Rightarrow> ini_section \<Rightarrow> RoutineSpawner res" where
  "parseHTTPConfig W sec =
     ebind (parseString W sec ''BindAddress'') (\<lambda>bindAddress.
     ebind (parseString W sec ''Username'') (\<lambda>username.
     ebind (parseString W sec ''Password'') (\<lambda>password.
     ebind (parseString W sec ''CertFile'') (\<lambda>certFile.
     ebind (parseString W sec ''KeyFile'') (\<lambda>keyFile.
     ebind (parseRegexList W sec ''TunnelDomains'') (\<lambda>tunnelDomains.
     ebind (parseBoolKey sec ''LogDomains'') (\<lambda>logDomains.
     Inr (HTTP \<lparr>http_BindAddress = bindAddress, http_Username = username,
                http_Password = password, http_CertFile = certFile, http_KeyFile = keyFile,
                http_TunnelDomains = tunnelDomains, http_LogDomains = logDomains\<rparr>))))))))"

text \<open>The error of \<^verbatim>\<open>parseString\<close> is dropped: the strategy is then the empty string.\<close>

definition parseResolveConfig :: "world \<Rightarrow> ini_section \<Rightarrow> ResolveConfig res" where
  "parseResolveConfig W sec =
     (let resolvStrategy = (case parseString W sec ''ResolveStrategy'' of Inl _ \<Rightarrow> [] | Inr s \<Rightarrow> s);
          sel = lower W (TrimSpace resolvStrategy)
      in if sel = ''ipv4'' \<or> sel = ''ipv6'' then Inr \<lparr>ResolveStrategy = lower W resolvStrategy\<rparr>
         else if sel = [] then Inr \<lparr>ResolveStrategy = ''auto''\<rparr>
         else Inl (New ''ResolveStrategy must be one of: auto, ipv4, ipv6''))"

text \<open>An optional integer key: the value given when it is absent, an error when it is no integer.\<close>

definition int_key :: "ini_section \<Rightarrow> string \<Rightarrow> int \<Rightarrow> int res" where
  "int_key sec n absent =
     (case sec_GetKey sec n of None \<Rightarrow> Inr absent | Some k \<Rightarrow> lib (key_Int k))"

definition parseUDPProxyTunnelConfig :: "world \<Rightarrow> ini_section \<Rightarrow> RoutineSpawner res" where
  "parseUDPProxyTunnelConfig W sec =
     ebind (parseString W sec ''BindAddress'') (\<lambda>bindAddress.
     ebind (parseString W sec ''Target'') (\<lambda>target.
     ebind (int_key sec ''InactivityTimeout'' 0) (\<lambda>inactivityTimeout.
     Inr (UDPProxyTunnel \<lparr>udp_BindAddress = bindAddress, udp_Target = target,
                          udp_InactivityTimeout = inactivityTimeout\<rparr>))))"

definition routineParsers :: "(string \<times> (world \<Rightarrow> ini_section \<Rightarrow> RoutineSpawner res)) list" where
  "routineParsers =
     [(''tcpclienttunnel'', parseTCPClientTunnelConfig),
      (''stdiotunnel'', parseSTDIOTunnelConfig),
      (''tcpservertunnel'', parseTCPServerTunnelConfig),
      (''socks5'', parseSocks5Config),
      (''http'', parseHTTPConfig),
      (''sni'', parseSNIConfig),
      (''udpproxytunnel'', parseUDPProxyTunnelConfig)]"

section \<open>WireGuard sections\<close>

definition listen_port_key :: "ini_section \<Rightarrow> int option \<Rightarrow> int option res" where
  "listen_port_key sec absent =
     (case sec_GetKey sec ''ListenPort'' of
        None \<Rightarrow> Inr absent
      | Some k \<Rightarrow> ebind (lib (key_Int k)) (\<lambda>v. Inr (Some v)))"

definition check_alive_interval :: "ini_section \<Rightarrow> netip_addr list \<Rightarrow> int res" where
  "check_alive_interval sec checkAlive =
     (case sec_GetKey sec ''CheckAliveInterval'' of
        None \<Rightarrow> Inr 5
      | Some k \<Rightarrow>
          ebind (lib (key_Int k)) (\<lambda>value.
          if checkAlive = [] then Inl (New ''CheckAliveInterval is only valid when CheckAlive is set'')
          else if value < 1 \<or> 86400 < value then
            Inl (New ''CheckAliveInterval must be between 1 and 86400 seconds'')
          else Inr value))"

definition parseInterfaceSection :: "world \<Rightarrow> ini_section \<Rightarrow> DeviceConfig \<Rightarrow> DeviceConfig res" where
  "parseInterfaceSection W sec device =
     ebind (parseCIDRNetIP W sec ''Address'') (\<lambda>address.
     ebind (parseBase64KeyToHex W sec ''PrivateKey'') (\<lambda>privKey.
     ebind (parseNetIP W sec ''DNS'') (\<lambda>dns.
     ebind (int_key sec ''MTU'' (dev_MTU device)) (\<lambda>mtu.
     ebind (listen_port_key sec (dev_ListenPort device)) (\<lambda>listenPort.
     ebind (parseNetIP W sec ''CheckAlive'') (\<lambda>checkAlive.
     ebind (check_alive_interval sec checkAlive) (\<lambda>interval.
     Inr (device\<lparr>dev_Endpoint := address, dev_SecretKey := privKey, dev_DNS := dns,
                 dev_MTU := mtu, dev_ListenPort := listenPort, dev_CheckAlive := checkAlive,
                 dev_CheckAliveInterval := interval\<rparr>))))))))"

definition zero_psk :: string where
  "zero_psk = replicate 64 (CHR ''0'')"

text \<open>The body of the loop in \<^verbatim>\<open>parsePeerSections\<close>.\<close>

definition parsePeerSection :: "world \<Rightarrow> ini_section \<Rightarrow> PeerConfig res" where
  "parsePeerSection W sec =
     ebind (parseBase64KeyToHex W sec ''PublicKey'') (\<lambda>publicKey.
     ebind (case sec_GetKey sec ''PreSharedKey'' of
              None \<Rightarrow> Inr zero_psk
            | Some k \<Rightarrow> encodeBase64ToHex (key_String k)) (\<lambda>preSharedKey.
     ebind (case sec_GetKey sec ''Endpoint'' of
              None \<Rightarrow> Inr None
            | Some k \<Rightarrow>
                ebind (resolveIPPAndPort W (lower W (key_String k))) (\<lambda>d. Inr (Some d))) (\<lambda>endpoint.
     ebind (int_key sec ''PersistentKeepalive'' 0) (\<lambda>keepAlive.
     ebind (parseAllowedIPs W sec) (\<lambda>allowedIPs.
     Inr \<lparr>peer_PublicKey = publicKey, peer_PreSharedKey = preSharedKey,
          peer_Endpoint = endpoint, peer_KeepAlive = keepAlive,
          peer_AllowedIPs = allowedIPs\<rparr>)))))"

definition parsePeerSections ::
    "world \<Rightarrow> ini_section list \<Rightarrow> PeerConfig list \<Rightarrow> PeerConfig list res" where
  "parsePeerSections W sections peers =
     efold (\<lambda>sec ps. ebind (parsePeerSection W sec) (\<lambda>p. Inr (ps @ [p]))) sections peers"

definition ParseInterface :: "world \<Rightarrow> ini_file \<Rightarrow> DeviceConfig \<Rightarrow> DeviceConfig res" where
  "ParseInterface W cfg device =
     (case file_SectionsByName cfg ''Interface'' of
        Inr [sec] \<Rightarrow> parseInterfaceSection W sec device
      | _ \<Rightarrow> Inl (New ''one and only one [Interface] is expected''))"

definition ParsePeers :: "world \<Rightarrow> ini_file \<Rightarrow> PeerConfig list \<Rightarrow> PeerConfig list res" where
  "ParsePeers W cfg peers =
     (case file_SectionsByName cfg ''Peer'' of
        Inl _ \<Rightarrow> Inl (New ''at least one [Peer] is expected'')
      | Inr [] \<Rightarrow> Inl (New ''at least one [Peer] is expected'')
      | Inr sections \<Rightarrow> parsePeerSections W sections peers)"

definition applyInterfaceOverrides :: "world \<Rightarrow> ini_section \<Rightarrow> DeviceConfig \<Rightarrow> DeviceConfig res" where
  "applyInterfaceOverrides W sec device =
     ebind (int_key sec ''MTU'' (dev_MTU device)) (\<lambda>mtu.
     ebind (if sec_GetKey sec ''DNS'' = None then Inr (dev_DNS device)
            else parseNetIP W sec ''DNS'') (\<lambda>dns.
     ebind (listen_port_key sec (dev_ListenPort device)) (\<lambda>listenPort.
     ebind (if sec_GetKey sec ''CheckAlive'' = None then Inr (dev_CheckAlive device)
            else parseNetIP W sec ''CheckAlive'') (\<lambda>checkAlive.
     ebind (int_key sec ''CheckAliveInterval'' (dev_CheckAliveInterval device)) (\<lambda>interval.
     Inr (device\<lparr>dev_MTU := mtu, dev_DNS := dns, dev_ListenPort := listenPort,
                 dev_CheckAlive := checkAlive, dev_CheckAliveInterval := interval\<rparr>))))))"

section \<open>Lemmas\<close>

subsection \<open>No panics\<close>

lemma safe_int_key [simp]: "safe (int_key sec n d)"
  by (auto simp: int_key_def split: option.splits)

lemma safe_listen_port_key [simp]: "safe (listen_port_key sec d)"
  by (auto simp: listen_port_key_def intro!: safe_ebind split: option.splits)

lemma safe_check_alive_interval [simp]: "safe (check_alive_interval sec ca)"
  by (auto simp: check_alive_interval_def intro!: safe_ebind split: option.splits)

lemma safe_parseInterfaceSection [simp]: "safe (parseInterfaceSection W sec d)"
  unfolding parseInterfaceSection_def by (intro safe_ebind) simp_all

lemma safe_parsePeerSection [simp]: "safe (parsePeerSection W sec)"
  unfolding parsePeerSection_def
  by (intro safe_ebind) (auto intro!: safe_ebind split: option.splits)

lemma safe_parsePeerSections [simp]: "safe (parsePeerSections W secs ps)"
  unfolding parsePeerSections_def by (intro safe_efold safe_ebind) simp_all

lemma safe_ParseInterface [simp]: "safe (ParseInterface W cfg d)"
  by (auto simp: ParseInterface_def split: sum.splits list.splits)

lemma safe_ParsePeers [simp]: "safe (ParsePeers W cfg ps)"
  by (auto simp: ParsePeers_def split: sum.splits list.splits)

lemma safe_applyInterfaceOverrides [simp]: "safe (applyInterfaceOverrides W sec d)"
  unfolding applyInterfaceOverrides_def by (intro safe_ebind) auto

lemma safe_parseResolveConfig [simp]: "safe (parseResolveConfig W sec)"
  by (auto simp: parseResolveConfig_def Let_def)

lemma safe_routineParsers:
  assumes "(t, f) \<in> set routineParsers"
  shows "safe (f W sec)"
proof -
  have "safe (parseTCPClientTunnelConfig W sec)" "safe (parseSTDIOTunnelConfig W sec)"
    "safe (parseTCPServerTunnelConfig W sec)" "safe (parseSocks5Config W sec)"
    "safe (parseHTTPConfig W sec)" "safe (parseSNIConfig W sec)"
    "safe (parseUDPProxyTunnelConfig W sec)"
    unfolding parseTCPClientTunnelConfig_def parseSTDIOTunnelConfig_def
      parseTCPServerTunnelConfig_def parseSocks5Config_def parseHTTPConfig_def
      parseSNIConfig_def parseUDPProxyTunnelConfig_def
    by (intro safe_ebind; simp)+
  then show ?thesis using assms by (auto simp: routineParsers_def)
qed

subsection \<open>What a parsed section holds\<close>

text \<open>The well-formedness the IPC request relies on: hexadecimal keys of 32 bytes.\<close>

definition wf_peer :: "PeerConfig \<Rightarrow> bool" where
  "wf_peer p = (hex_key (peer_PublicKey p) \<and> hex_key (peer_PreSharedKey p))"

definition wf_device :: "DeviceConfig \<Rightarrow> bool" where
  "wf_device d = (hex_key (dev_SecretKey d) \<and> dev_Peers d \<noteq> [] \<and> list_all wf_peer (dev_Peers d))"

lemma hex_key_zero_psk [simp]: "hex_key zero_psk"
  by (simp add: hex_key_def zero_psk_def is_hex_digit_def is_digit_def byte_def list_all_iff)

lemma parsePeerSection_wf: "parsePeerSection W sec = Inr p \<Longrightarrow> wf_peer p"
  by (auto simp: parsePeerSection_def ebind_ok wf_peer_def
           dest: encodeBase64ToHex_hex_key parseBase64KeyToHex_hex_key split: option.splits)

lemma parsePeerSections_ok [ok_iff]:
  "parsePeerSections W secs ps = Inr qs \<longleftrightarrow> (\<exists>rs. emap (parsePeerSection W) secs = Inr rs \<and> qs = ps @ rs)"
  unfolding parsePeerSections_def
  by (induction secs arbitrary: ps) (fastforce simp: ebind_ok)+

lemma parsePeerSections_wf:
  assumes "parsePeerSections W secs [] = Inr ps" and "secs \<noteq> []"
  shows "ps \<noteq> [] \<and> list_all wf_peer ps"
proof -
  have e: "emap (parsePeerSection W) secs = Inr ps" using assms(1) by (simp add: parsePeerSections_ok)
  have "list_all wf_peer ps"
    using emap_in [OF e] by (auto simp: list_all_iff intro: parsePeerSection_wf)
  then show ?thesis using emap_length [OF e] assms(2) by auto
qed

lemma parseInterfaceSection_frame:
  "parseInterfaceSection W sec d = Inr d' \<Longrightarrow> hex_key (dev_SecretKey d') \<and> dev_Peers d' = dev_Peers d"
  by (auto simp: parseInterfaceSection_def ebind_ok dest: parseBase64KeyToHex_hex_key)

lemma parseInterfaceSection_interval:
  "parseInterfaceSection W sec d = Inr d' \<Longrightarrow>
     1 \<le> dev_CheckAliveInterval d' \<and> dev_CheckAliveInterval d' \<le> 86400"
  by (auto simp: parseInterfaceSection_def ebind_ok check_alive_interval_def
           split: option.splits if_splits)

lemma applyInterfaceOverrides_frame:
  "applyInterfaceOverrides W sec d = Inr d' \<Longrightarrow>
     dev_SecretKey d' = dev_SecretKey d \<and> dev_Peers d' = dev_Peers d \<and>
     dev_Endpoint d' = dev_Endpoint d"
  by (auto simp: applyInterfaceOverrides_def ebind_ok)

lemma ParseInterface_ok [ok_iff]:
  "ParseInterface W cfg d = Inr d' \<longleftrightarrow>
     (\<exists>sec. file_SectionsByName cfg ''Interface'' = Inr [sec] \<and> parseInterfaceSection W sec d = Inr d')"
  by (auto simp: ParseInterface_def split: sum.splits list.splits)

lemma ParsePeers_ok [ok_iff]:
  "ParsePeers W cfg ps = Inr qs \<longleftrightarrow>
     (\<exists>secs. file_SectionsByName cfg ''Peer'' = Inr secs \<and> secs \<noteq> [] \<and>
        parsePeerSections W secs ps = Inr qs)"
  by (auto simp: ParsePeers_def split: sum.splits list.splits)

text \<open>The strategy \<^verbatim>\<open>auto\<close>, which the error message of \<^verbatim>\<open>parseResolveConfig\<close> lists, is itself
  rejected when it is written out; only leaving the key out selects it.\<close>

lemma ResolveStrategy_auto_rejected:
  "parseString W sec ''ResolveStrategy'' = Inr ''auto'' \<Longrightarrow> isl (parseResolveConfig W sec)"
proof -
  have a: "list_all is_ascii ''auto''" by code_simp
  have "TrimSpace ''auto'' = ''auto''" by code_simp
  moreover have "lower W ''auto'' = ''auto''"
    unfolding ToLower_ascii [OF a] by code_simp
  moreover assume "parseString W sec ''ResolveStrategy'' = Inr ''auto''"
  ultimately show ?thesis by (simp add: parseResolveConfig_def)
qed

end
