(* ===== verification/Config.thy ===== *)
theory Config
  imports Config_Sections "HOL-Library.AList"
begin

text \<open>
  Configuration files (\<^verbatim>\<open>config.go\<close>, lines 543--611 and 723--989): the grouping of sections into
  connections, the parser of one group and of a whole file.
\<close>

section \<open>Grouping sections\<close>

text \<open>The Go map \<^verbatim>\<open>routines\<close> is an association list; every key occurs once.\<close>

record connGroup =
  g_name :: string
  g_iface :: "ini_section list"
  g_peers :: "ini_section list"
  g_tailscale :: "ini_section list"
  g_resolve :: "ini_section list"
  g_routines :: "(string \<times> ini_section list) list"

definition newConnGroup :: "string \<Rightarrow> connGroup" where
  "newConnGroup name =
     \<lparr>g_name = name, g_iface = [], g_peers = [], g_tailscale = [], g_resolve = [], g_routines = []\<rparr>"

definition routine_sections :: "connGroup \<Rightarrow> string \<Rightarrow> ini_section list" where
  "routine_sections g t = (case map_of (g_routines g) t of None \<Rightarrow> [] | Some ss \<Rightarrow> ss)"

text \<open>The \<^verbatim>\<open>switch sectionType\<close> of \<^verbatim>\<open>splitIntoGroups\<close>.\<close>

definition add_section :: "string \<Rightarrow> ini_section \<Rightarrow> connGroup \<Rightarrow> connGroup" where
  "add_section sectionType sec g =
     (if sectionType = ''interface'' then g\<lparr>g_iface := g_iface g @ [sec]\<rparr>
      else if sectionType = ''peer'' then g\<lparr>g_peers := g_peers g @ [sec]\<rparr>
      else if sectionType = ''tailscale'' then g\<lparr>g_tailscale := g_tailscale g @ [sec]\<rparr>
      else if sectionType = ''resolve'' then g\<lparr>g_resolve := g_resolve g @ [sec]\<rparr>
      else g\<lparr>g_routines :=
               AList.update sectionType (routine_sections g sectionType @ [sec]) (g_routines g)\<rparr>)"

text \<open>The group name and type a section name stands for.\<close>

definition section_group :: "world \<Rightarrow> string \<Rightarrow> (string \<times> string) res" where
  "section_group W name =
     (case IndexByte name (CHR ''.'') of
        None \<Rightarrow> Inr ([], name)
      | Some idx \<Rightarrow>
          let groupName = sanitizeConnectionName W (take idx name) in
          if groupName = [] then Inl (New (''invalid connection group name in section '' @ name))
          else Inr (groupName, drop (Suc idx) name))"

definition is_root_section :: "ini_section \<Rightarrow> bool" where
  "is_root_section sec = (sec_Name sec = [] \<or> EqualFold (sec_Name sec) ''DEFAULT'')"

text \<open>The local variables \<^verbatim>\<open>groups\<close> and \<^verbatim>\<open>byName\<close>; the pointers the map holds are positions in
  the list.\<close>

record group_table =
  t_groups :: "connGroup list"
  t_byName :: "string \<rightharpoonup> nat"

definition split_section :: "world \<Rightarrow> ini_section \<Rightarrow> group_table \<Rightarrow> group_table res" where
  "split_section W sec t =
     (if is_root_section sec then Inr t
      else
        ebind (section_group W (sec_Name sec)) (\<lambda>(groupName, sectionType).
          let (i, t') = (case t_byName t groupName of
                           Some i \<Rightarrow> (i, t)
                         | None \<Rightarrow>
                             (length (t_groups t),
                              t\<lparr>t_groups := t_groups t @ [newConnGroup groupName],
                                t_byName := (t_byName t)(groupName \<mapsto> length (t_groups t))\<rparr>))
          in Inr (t'\<lparr>t_groups :=
                      (t_groups t')[i := add_section sectionType sec (t_groups t' ! i)]\<rparr>)))"

definition splitIntoGroups :: "world \<Rightarrow> ini_file \<Rightarrow> (ini_section \<times> connGroup list) res" where
  "splitIntoGroups W cfg =
     ebind (efold (split_section W) (file_Sections cfg) \<lparr>t_groups = [], t_byName = Map.empty\<rparr>)
       (\<lambda>t. Inr (file_DefaultSection cfg, t_groups t))"

section \<open>Parsing one group\<close>

definition resolveWGConfigPath :: "string \<Rightarrow> string \<Rightarrow> string" where
  "resolveWGConfigPath wgPath parentDir =
     (if \<not> IsAbs wgPath then Join [parentDir, wgPath] else wgPath)"

text \<open>
  The routine sections in the order of \<^verbatim>\<open>routineParsers\<close>, then the unknown types. The second
  loop ranges over a Go map: \<open>env_map_pick\<close> is the unknown type it happens to meet first.
\<close>

definition appendRoutines :: "world \<Rightarrow> connGroup \<Rightarrow> Configuration \<Rightarrow> Configuration res" where
  "appendRoutines W g conf =
     ebind (efold (\<lambda>(sectionType, parse) conf.
              efold (\<lambda>sec conf.
                  ebind (parse W sec) (\<lambda>routine.
                    Inr (conf\<lparr>conf_Routines := conf_Routines conf @ [routine]\<rparr>)))
                (routine_sections g sectionType) conf)
            routineParsers conf) (\<lambda>conf.
       case filter (\<lambda>t. t \<notin> set (map fst routineParsers)) (map fst (g_routines g)) of
         [] \<Rightarrow> Inr conf
       | unknown \<Rightarrow>
           Inl (New (''unknown section type ['' @ unknown ! (env_map_pick W mod length unknown)
                     @ ''] in connection ''
                     @ (if conf_Name conf = [] then ''<default>'' else conf_Name conf))))"

text \<open>Where the device configuration comes from: the path of an external file, or empty for
  inline sections.\<close>

definition external_path :: "connGroup \<Rightarrow> string \<Rightarrow> ini_section \<Rightarrow> string res" where
  "external_path g parentDir root =
     (case g_iface g of
        [] \<Rightarrow>
          if g_name g \<noteq> [] then Inl (New ''one and only one [Interface] is expected'')
          else
            (case sec_GetKey root ''WGConfig'' of
               Some key \<Rightarrow> Inr (resolveWGConfigPath (key_String key) parentDir)
             | None \<Rightarrow> Inl (New ''one and only one [Interface] is expected''))
      | [iface] \<Rightarrow>
          (case sec_GetKey iface ''WGConfig'' of
             None \<Rightarrow> Inr []
           | Some key \<Rightarrow>
               (case filter (\<lambda>f. sec_GetKey iface f \<noteq> None) [''PrivateKey'', ''Address''] of
                  forbidden # _ \<Rightarrow>
                    Inl (New (''[Interface] must not combine WGConfig with inline '' @ forbidden))
                | [] \<Rightarrow> Inr (resolveWGConfigPath (key_String key) parentDir)))
      | _ \<Rightarrow> Inl (New ''one and only one [Interface] is expected''))"

definition empty_device :: DeviceConfig where
  "empty_device =
     \<lparr>dev_SecretKey = [], dev_Endpoint = [], dev_Peers = [], dev_DNS = [], dev_MTU = 1420,
      dev_ListenPort = None, dev_CheckAlive = [], dev_CheckAliveInterval = 0\<rparr>"

text \<open>The WireGuard half of \<^verbatim>\<open>parse\<close>. Indexing an empty \<^verbatim>\<open>g.iface\<close> would panic.\<close>

definition parse_device :: "world \<Rightarrow> connGroup \<Rightarrow> string \<Rightarrow> ini_section \<Rightarrow> DeviceConfig res" where
  "parse_device W g sourcePath root =
     ebind (external_path g (Dir sourcePath) root) (\<lambda>externalPath.
       if externalPath \<noteq> [] then
         ebind (lib (ini_LoadPath W externalPath)) (\<lambda>wgCfg.
         ebind (ParseInterface W wgCfg empty_device) (\<lambda>device.
         ebind (ParsePeers W wgCfg (dev_Peers device)) (\<lambda>peers.
         let device = device\<lparr>dev_Peers := peers\<rparr> in
         case g_iface g of
           [iface] \<Rightarrow> applyInterfaceOverrides W iface device
         | _ \<Rightarrow> Inr device)))
       else
         (case g_iface g of
            [] \<Rightarrow> Inl (GoPanic ''index out of range'')
          | iface # _ \<Rightarrow>
              ebind (parseInterfaceSection W iface empty_device) (\<lambda>device.
              if g_peers g = [] then Inl (New ''at least one [Peer] is expected'')
              else
                ebind (parsePeerSections W (g_peers g) (dev_Peers device)) (\<lambda>peers.
                Inr (device\<lparr>dev_Peers := peers\<rparr>)))))"

definition connGroup_parse ::
    "world \<Rightarrow> connGroup \<Rightarrow> string \<Rightarrow> ini_section \<Rightarrow> Configuration res" where
  "connGroup_parse W g sourcePath root =
     ebind (case g_resolve g of
              [] \<Rightarrow> Inr \<lparr>ResolveStrategy = ''auto''\<rparr>
            | r # _ \<Rightarrow> parseResolveConfig W r) (\<lambda>resolve.
     let conf = \<lparr>conf_Name = g_name g, conf_Device = None, conf_Tailscale = None,
                 conf_Routines = [], conf_Resolve = Some resolve\<rparr> in
     case g_tailscale g of
       ts # others \<Rightarrow>
         if g_iface g \<noteq> [] \<or> g_peers g \<noteq> [] then
           Inl (New ''[Tailscale] cannot be combined with [Interface] or [Peer] sections in the same connection'')
         else if others \<noteq> [] then
           Inl (New ''at most one [Tailscale] section is expected per connection'')
         else
           ebind (parseTailscaleConfig W ts) (\<lambda>tsConf.
             appendRoutines W g (conf\<lparr>conf_Tailscale := Some tsConf\<rparr>))
     | [] \<Rightarrow>
         ebind (parse_device W g sourcePath root) (\<lambda>device.
           appendRoutines W g (conf\<lparr>conf_Device := Some device\<rparr>)))"

section \<open>Parsing a file\<close>

record ConnectionSpec =
  spec_Name :: string
  spec_Conf :: Configuration

definition parse_spec ::
    "world \<Rightarrow> string \<Rightarrow> ini_section \<Rightarrow> string \<Rightarrow> connGroup \<Rightarrow> ConnectionSpec res" where
  "parse_spec W sourcePath root explicitName g =
     ebind (connGroup_parse W g sourcePath root) (\<lambda>conf.
       let name = (if g_name g = [] then
                     (if explicitName \<noteq> [] then explicitName else defaultNameFromFile W sourcePath)
                   else g_name g)
       in Inr \<lparr>spec_Name = name, spec_Conf = conf\<lparr>conf_Name := name\<rparr>\<rparr>)"

definition explicit_name :: "world \<Rightarrow> ini_section \<Rightarrow> string res" where
  "explicit_name W root =
     (case sec_GetKey root ''Name'' of
        None \<Rightarrow> Inr []
      | Some key \<Rightarrow>
          let n = sanitizeConnectionName W (key_String key) in
          if n = [] then Inl (New ''Name should not be empty'') else Inr n)"

definition parseConfigSource :: "world \<Rightarrow> string \<Rightarrow> string \<Rightarrow> ConnectionSpec list res" where
  "parseConfigSource W source sourcePath =
     ebind (lib (ini_LoadBytes W source)) (\<lambda>cfg.
     ebind (splitIntoGroups W cfg) (\<lambda>(root, groups).
     ebind (explicit_name W root) (\<lambda>explicitName.
     ebind (emap (parse_spec W sourcePath root explicitName) groups) (\<lambda>specs.
     if specs = [] then Inl (New ''no connections defined'') else Inr specs))))"

definition ParseConfigFile :: "world \<Rightarrow> string \<Rightarrow> ConnectionSpec list res" where
  "ParseConfigFile W path =
     ebind (lib (env_ReadFile W path)) (\<lambda>source. parseConfigSource W source path)"

definition ParseConfig :: "world \<Rightarrow> string \<Rightarrow> Configuration res" where
  "ParseConfig W path =
     ebind (ParseConfigFile W path) (\<lambda>specs.
       case specs of [] \<Rightarrow> Inl (GoPanic ''index out of range'') | s # _ \<Rightarrow> Inr (spec_Conf s))"

section \<open>The partition into groups\<close>

text \<open>
  What \<^verbatim>\<open>splitIntoGroups\<close> computes, stated without its two mutable tables: classify every
  section, name the groups in order of first appearance, and give each group its sections in
  file order.
\<close>

definition classify :: "world \<Rightarrow> ini_section \<Rightarrow> (string \<times> string \<times> ini_section) res" where
  "classify W sec = ebind (section_group W (sec_Name sec)) (\<lambda>(g, t). Inr (g, t, sec))"

definition first_occs :: "'a list \<Rightarrow> 'a list" where
  "first_occs xs = rev (remdups (rev xs))"

definition assemble :: "(string \<times> string \<times> ini_section) list \<Rightarrow> string \<Rightarrow> connGroup" where
  "assemble cs n =
     fold (\<lambda>(g, t, sec). add_section t sec) (filter (\<lambda>c. fst c = n) cs) (newConnGroup n)"

definition group_by :: "(string \<times> string \<times> ini_section) list \<Rightarrow> connGroup list" where
  "group_by cs = map (assemble cs) (first_occs (map fst cs))"

definition table_of :: "(string \<times> string \<times> ini_section) list \<Rightarrow> group_table" where
  "table_of cs =
     \<lparr>t_groups = group_by cs,
      t_byName = map_of (zip (first_occs (map fst cs)) [0..<length (first_occs (map fst cs))])\<rparr>"

lemma set_first_occs [simp]: "set (first_occs xs) = set xs"
  by (simp add: first_occs_def)

lemma distinct_first_occs [simp]: "distinct (first_occs xs)"
  by (simp add: first_occs_def)

lemma first_occs_snoc:
  "first_occs (xs @ [x]) = (if x \<in> set xs then first_occs xs else first_occs xs @ [x])"
  by (simp add: first_occs_def)

lemma map_of_index:
  assumes "distinct ns"
  shows "map_of (zip ns [0..<length ns]) n = Some i \<longleftrightarrow> i < length ns \<and> ns ! i = n"
  using assms by (auto simp: map_of_eq_Some_iff in_set_zip)

lemma map_of_index_None: "map_of (zip ns [0..<length ns]) n = None \<longleftrightarrow> n \<notin> set ns"
  by (simp add: map_of_zip_is_None)

lemma assemble_snoc:
  "assemble (cs @ [(g, t, sec)]) n =
     (if g = n then add_section t sec (assemble cs n) else assemble cs n)"
  by (simp add: assemble_def)

lemma assemble_absent:
  assumes "n \<notin> fst ` set cs"
  shows "assemble cs n = newConnGroup n"
proof -
  have "filter (\<lambda>c. fst c = n) cs = []" using assms by (auto simp: filter_empty_conv)
  then show ?thesis by (simp add: assemble_def)
qed

lemma group_by_snoc_old:
  assumes "g \<in> fst ` set cs" and "i < length (first_occs (map fst cs))"
    and "first_occs (map fst cs) ! i = g"
  shows "group_by (cs @ [(g, t, sec)]) = (group_by cs)[i := add_section t sec (group_by cs ! i)]"
proof (rule nth_equalityI)
  let ?ns = "first_occs (map fst cs)"
  have ns: "first_occs (map fst (cs @ [(g, t, sec)])) = ?ns"
    using assms(1) by (simp add: first_occs_snoc)
  show "length (group_by (cs @ [(g, t, sec)])) =
      length ((group_by cs)[i := add_section t sec (group_by cs ! i)])"
    using ns by (simp add: group_by_def)
  fix j assume "j < length (group_by (cs @ [(g, t, sec)]))"
  then have j: "j < length ?ns" unfolding group_by_def ns by simp
  have "?ns ! j = g \<longleftrightarrow> i = j"
    using assms(2,3) j nth_eq_iff_index_eq [of ?ns] by auto
  then show "group_by (cs @ [(g, t, sec)]) ! j =
      (group_by cs)[i := add_section t sec (group_by cs ! i)] ! j"
    using j assms(2,3) unfolding group_by_def ns by (auto simp: assemble_snoc nth_list_update)
qed

lemma group_by_snoc_new:
  assumes "g \<notin> fst ` set cs"
  shows "group_by (cs @ [(g, t, sec)]) = group_by cs @ [add_section t sec (newConnGroup g)]"
proof -
  have "assemble (cs @ [(g, t, sec)]) n = assemble cs n" if "n \<in> fst ` set cs" for n
    using assms that by (auto simp: assemble_snoc)
  then show ?thesis
    using assms by (simp add: group_by_def first_occs_snoc assemble_snoc assemble_absent)
qed

lemma split_section_table:
  assumes "\<not> is_root_section sec"
  shows "split_section W sec (table_of cs) = ebind (classify W sec) (\<lambda>c. Inr (table_of (cs @ [c])))"
proof (cases "section_group W (sec_Name sec)")
  case (Inl e)
  then show ?thesis using assms by (simp add: split_section_def classify_def)
next
  case (Inr gt)
  obtain g t where gt: "gt = (g, t)" by fastforce
  let ?ns = "first_occs (map fst cs)"
  show ?thesis
  proof (cases "t_byName (table_of cs) g")
    case None
    then have look: "map_of (zip ?ns [0..<length ?ns]) g = None" by (simp add: table_of_def)
    then have new: "g \<notin> fst ` set cs" by (simp add: map_of_index_None)
    then have "group_by (cs @ [(g, t, sec)]) = group_by cs @ [add_section t sec (newConnGroup g)]"
      by (rule group_by_snoc_new)
    moreover have "length (group_by cs) = length ?ns" by (simp add: group_by_def)
    moreover have "(map_of (zip ?ns [0..<length ?ns]))(g \<mapsto> length ?ns) =
        map_of (zip (?ns @ [g]) [0..<length (?ns @ [g])])"
      using new
      by (auto simp: fun_eq_iff map_add_def map_of_index_None split: option.splits
               dest: set_zip_leftD)
    ultimately show ?thesis
      using assms Inr gt new
      by (simp add: split_section_def classify_def table_of_def first_occs_snoc look
                    list_update_append nth_append)
  next
    case (Some i)
    then have i: "i < length ?ns" "?ns ! i = g"
      using map_of_index [of ?ns g i] by (simp_all add: table_of_def)
    then have old: "g \<in> fst ` set cs" by (metis nth_mem set_first_occs set_map)
    show ?thesis
      using assms Inr gt Some group_by_snoc_old [OF old i] old
      by (simp add: split_section_def classify_def table_of_def first_occs_snoc)
  qed
qed

lemma efold_split_section:
  "efold (split_section W) secs (table_of cs) =
     ebind (emap (classify W) (filter (\<lambda>s. \<not> is_root_section s) secs))
       (\<lambda>ds. Inr (table_of (cs @ ds)))"
proof (induction secs arbitrary: cs)
  case (Cons sec secs)
  show ?case
  proof (cases "is_root_section sec")
    case True
    then show ?thesis using Cons by (simp add: split_section_def)
  next
    case False
    then show ?thesis
      by (cases "classify W sec") (simp_all add: split_section_table Cons ebind_assoc)
  qed
qed simp

lemma splitIntoGroups_eq:
  "splitIntoGroups W cfg =
     ebind (emap (classify W) (filter (\<lambda>s. \<not> is_root_section s) (file_Sections cfg)))
       (\<lambda>cs. Inr (file_DefaultSection cfg, group_by cs))"
proof -
  have "table_of [] = \<lparr>t_groups = [], t_byName = Map.empty\<rparr>"
    by (simp add: table_of_def group_by_def first_occs_def)
  then show ?thesis
    using efold_split_section [of W "file_Sections cfg" "[]"]
    by (simp add: splitIntoGroups_def ebind_assoc) (simp add: table_of_def)
qed

subsection \<open>The sections of a group\<close>

definition sections_of ::
    "(string \<times> string \<times> ini_section) list \<Rightarrow> string \<Rightarrow> string \<Rightarrow> ini_section list" where
  "sections_of cs n t = map (\<lambda>c. snd (snd c)) (filter (\<lambda>c. fst c = n \<and> fst (snd c) = t) cs)"

definition special_types :: "string set" where
  "special_types = {''interface'', ''peer'', ''tailscale'', ''resolve''}"

lemma sections_of_snoc:
  "sections_of (cs @ [(g, t, sec)]) n u =
     (if g = n \<and> t = u then sections_of cs n u @ [sec] else sections_of cs n u)"
  by (simp add: sections_of_def)

lemma assemble_fields:
  "g_name (assemble cs n) = n \<and>
   g_iface (assemble cs n) = sections_of cs n ''interface'' \<and>
   g_peers (assemble cs n) = sections_of cs n ''peer'' \<and>
   g_tailscale (assemble cs n) = sections_of cs n ''tailscale'' \<and>
   g_resolve (assemble cs n) = sections_of cs n ''resolve''"
proof (induction cs rule: rev_induct)
  case (snoc c cs)
  obtain g t sec where "c = (g, t, sec)" by (cases c) auto
  then show ?case
    using snoc by (simp add: assemble_snoc sections_of_snoc) (simp add: add_section_def)
qed (simp add: assemble_def newConnGroup_def sections_of_def)

lemma assemble_routines:
  "routine_sections (assemble cs n) u = (if u \<in> special_types then [] else sections_of cs n u)"
proof (induction cs rule: rev_induct)
  case (snoc c cs)
  obtain g t sec where c: "c = (g, t, sec)" by (cases c) auto
  have "routine_sections (add_section t' sec h) u =
      (if t' = u \<and> u \<notin> special_types then routine_sections h u @ [sec] else routine_sections h u)" for t' h
    by (auto simp: add_section_def routine_sections_def special_types_def update_conv')
  then show ?case
    using snoc by (simp add: c assemble_snoc sections_of_snoc)
qed (simp add: assemble_def newConnGroup_def sections_of_def routine_sections_def)

lemma assemble_routine_types:
  "set (map fst (g_routines (assemble cs n))) = {t. \<exists>sec. (n, t, sec) \<in> set cs} - special_types"
proof (induction cs rule: rev_induct)
  case (snoc c cs)
  obtain g t sec where c: "c = (g, t, sec)" by (cases c) auto
  have "set (map fst (g_routines (add_section t sec h))) =
      set (map fst (g_routines h)) \<union> ({t} - special_types)" for h
    by (simp add: add_section_def special_types_def dom_update)
  then show ?case
    using snoc by (auto simp: c assemble_snoc)
qed (simp add: assemble_def newConnGroup_def)

section \<open>Absence of panics\<close>

lemma resolveWGConfigPath_not_Nil: "d \<noteq> [] \<Longrightarrow> resolveWGConfigPath p d \<noteq> []"
  by (auto simp: resolveWGConfigPath_def IsAbs_def HasPrefix_def intro!: Join_not_Nil)

lemma external_path_no_iface:
  "external_path g (Dir p) root = Inr [] \<Longrightarrow> g_iface g \<noteq> []"
  by (auto simp: external_path_def resolveWGConfigPath_not_Nil split: option.splits if_splits)

lemma safe_external_path [simp]: "safe (external_path g d root)"
  by (auto simp: external_path_def split: list.splits option.splits)

lemma safe_parse_device [simp]: "safe (parse_device W g p root)"
  unfolding parse_device_def
  by (rule safe_ebind)
     (auto intro!: safe_ebind simp: Let_def dest: external_path_no_iface split: list.splits)

lemma safe_appendRoutines [simp]: "safe (appendRoutines W g conf)"
  unfolding appendRoutines_def
  by (rule safe_ebind)
     (auto intro!: safe_efold safe_ebind safe_routineParsers split: list.splits)

lemma safe_connGroup_parse [simp]: "safe (connGroup_parse W g p root)"
  unfolding connGroup_parse_def
  by (rule safe_ebind) (auto simp: Let_def intro!: safe_ebind split: list.splits)

lemma safe_section_group [simp]: "safe (section_group W n)"
  by (auto simp: section_group_def Let_def split: option.splits)

lemma safe_splitIntoGroups [simp]: "safe (splitIntoGroups W cfg)"
  unfolding splitIntoGroups_eq classify_def by (intro safe_ebind safe_emap) auto

lemma safe_parseConfigSource [simp]: "safe (parseConfigSource W src p)"
  unfolding parseConfigSource_def parse_spec_def explicit_name_def
  by (auto intro!: safe_ebind safe_emap simp: Let_def split: option.splits prod.splits)

lemma parseConfigSource_not_Nil: "parseConfigSource W src p = Inr specs \<Longrightarrow> specs \<noteq> []"
  by (auto simp: parseConfigSource_def ebind_ok split: prod.splits if_splits)

section \<open>Results of parsing\<close>

text \<open>The routine sections of a group in the order of \<^verbatim>\<open>routineParsers\<close>, each with its parser.\<close>

definition routine_jobs ::
    "connGroup \<Rightarrow> ((world \<Rightarrow> ini_section \<Rightarrow> RoutineSpawner res) \<times> ini_section) list" where
  "routine_jobs g =
     concat (map (\<lambda>(t, parse). map (Pair parse) (routine_sections g t)) routineParsers)"

definition known_types :: "connGroup \<Rightarrow> bool" where
  "known_types g = list_all (\<lambda>t. t \<in> set (map fst routineParsers)) (map fst (g_routines g))"

lemma efold_jobs:
  "efold (\<lambda>(sectionType, parse) conf.
      efold (\<lambda>sec conf. ebind (parse W sec) (\<lambda>routine.
               Inr (conf\<lparr>conf_Routines := conf_Routines conf @ [routine]\<rparr>)))
        (routine_sections g sectionType) conf) ps conf =
   ebind (emap (\<lambda>(parse, sec). parse W sec)
            (concat (map (\<lambda>(t, parse). map (Pair parse) (routine_sections g t)) ps)))
     (\<lambda>rs. Inr (conf\<lparr>conf_Routines := conf_Routines conf @ rs\<rparr>))"
proof (induction ps arbitrary: conf)
  case (Cons p ps)
  obtain t parse where p: "p = (t, parse)" by fastforce
  have inner: "efold (\<lambda>sec conf. ebind (parse W sec) (\<lambda>routine.
        Inr (conf\<lparr>conf_Routines := conf_Routines conf @ [routine]\<rparr>))) secs conf =
      ebind (emap (parse W) secs) (\<lambda>rs. Inr (conf\<lparr>conf_Routines := conf_Routines conf @ rs\<rparr>))"
    for secs conf
    by (induction secs arbitrary: conf) (auto simp: ebind_assoc intro!: ebind_cong)
  have mapped: "emap (\<lambda>(parse, sec). parse W sec) (map (Pair parse) secs) = emap (parse W) secs" for secs
    by (induction secs) auto
  show ?case
    by (simp add: p Cons.IH inner emap_append mapped ebind_assoc)
qed simp

lemma appendRoutines_ok [ok_iff]:
  "appendRoutines W g conf = Inr conf' \<longleftrightarrow>
     known_types g \<and>
     (\<exists>rs. emap (\<lambda>(parse, sec). parse W sec) (routine_jobs g) = Inr rs \<and>
           conf' = conf\<lparr>conf_Routines := conf_Routines conf @ rs\<rparr>)"
proof -
  have known: "known_types g \<longleftrightarrow>
      filter (\<lambda>t. t \<notin> set (map fst routineParsers)) (map fst (g_routines g)) = []"
    by (simp add: known_types_def list_all_iff filter_empty_conv)
  show ?thesis
    unfolding known
    by (cases "filter (\<lambda>t. t \<notin> set (map fst routineParsers)) (map fst (g_routines g))")
       (auto simp: appendRoutines_def efold_jobs routine_jobs_def ebind_ok)
qed

lemma parse_device_wf: "parse_device W g p root = Inr d \<Longrightarrow> wf_device d"
proof -
  assume "parse_device W g p root = Inr d"
  then consider
    (ext) wg d1 ps where "ParseInterface W wg empty_device = Inr d1"
      "ParsePeers W wg (dev_Peers d1) = Inr ps"
      "d = d1\<lparr>dev_Peers := ps\<rparr> \<or> (\<exists>i. applyInterfaceOverrides W i (d1\<lparr>dev_Peers := ps\<rparr>) = Inr d)"
  | (inl) i d1 ps where "parseInterfaceSection W i empty_device = Inr d1" "g_peers g \<noteq> []"
      "parsePeerSections W (g_peers g) (dev_Peers d1) = Inr ps" "d = d1\<lparr>dev_Peers := ps\<rparr>"
    by (cases "g_iface g" rule: remdups_adj.cases)
       (auto simp: parse_device_def ebind_ok Let_def split: if_splits)
  then show ?thesis
  proof cases
    case ext
    then obtain secs where "parsePeerSections W secs [] = Inr ps" "secs \<noteq> []"
      "hex_key (dev_SecretKey d1)"
      by (auto simp: ParseInterface_ok ParsePeers_ok empty_device_def dest!: parseInterfaceSection_frame)
    then have "wf_device (d1\<lparr>dev_Peers := ps\<rparr>)"
      using parsePeerSections_wf by (simp add: wf_device_def)
    then show ?thesis
      using ext(3) by (auto simp: wf_device_def dest!: applyInterfaceOverrides_frame)
  next
    case inl
    then show ?thesis
      using parseInterfaceSection_frame [OF inl(1)] parsePeerSections_wf [of W "g_peers g" ps]
      by (simp add: wf_device_def empty_device_def)
  qed
qed

text \<open>Exactly one kind of network, and a well-formed device.\<close>

definition wf_conf :: "Configuration \<Rightarrow> bool" where
  "wf_conf c =
     (case (conf_Device c, conf_Tailscale c) of
        (Some d, None) \<Rightarrow> wf_device d
      | (None, Some t) \<Rightarrow> TrimSpace (ts_Hostname t) \<noteq> []
      | _ \<Rightarrow> False)"

definition wf_spec :: "ConnectionSpec \<Rightarrow> bool" where
  "wf_spec s = (conf_Name (spec_Conf s) = spec_Name s \<and> wf_conf (spec_Conf s) \<and>
                conf_Resolve (spec_Conf s) \<noteq> None)"

lemma connGroup_parse_wf:
  "connGroup_parse W g p root = Inr c \<Longrightarrow> wf_conf c \<and> conf_Resolve c \<noteq> None"
  by (cases "g_tailscale g")
     (auto simp: connGroup_parse_def ebind_ok Let_def appendRoutines_ok wf_conf_def
           dest: parse_device_wf parseTailscaleConfig_hostname split: if_splits)

lemma parse_spec_wf: "parse_spec W p root n g = Inr s \<Longrightarrow> wf_spec s"
  by (auto simp: parse_spec_def ebind_ok Let_def wf_spec_def wf_conf_def
           dest!: connGroup_parse_wf split: option.splits if_splits)

lemma parseConfigSource_wf:
  assumes "parseConfigSource W src p = Inr specs" and "s \<in> set specs"
  shows "wf_spec s"
proof -
  obtain root groups n where "emap (parse_spec W p root n) groups = Inr specs"
    using assms(1) by (auto simp: parseConfigSource_def ebind_ok split: if_splits)
  then show ?thesis using emap_in [OF _ assms(2)] parse_spec_wf by blast
qed

section \<open>A sample configuration\<close>

text \<open>A file with an unprefixed WireGuard connection and a prefixed Tailscale connection, in the
  form the INI library hands it over.\<close>

definition demo_key :: string where
  "demo_key = ''AAAAAAAAAAAAAAAAAAAAAAAAAAAAAAAAAAAAAAAAAAA=''"

definition demo_sections :: "ini_section list" where
  "demo_sections =
     [sample_section ''interface''
        [(''privatekey'', demo_key), (''address'', ''10.0.0.2/32''), (''listenport'', ''51820'')],
      sample_section ''peer'' [(''publickey'', demo_key), (''allowedips'', ''0.0.0.0/0'')],
      sample_section ''socks5'' [(''bindaddress'', ''127.0.0.1:1080'')],
      sample_section ''work.tailscale'' [(''hostname'', ''node'')],
      sample_section ''work.http'' [(''bindaddress'', ''127.0.0.1:8080'')]]"

definition demo_world :: world where
  "demo_world =
     sample_world\<lparr>ini_LoadBytes := (\<lambda>_. Inr (sample_file [] demo_sections)),
                  env_ReadFile := (\<lambda>_. Inr []),
                  env_StatIsDir := (\<lambda>_. Inr False)\<rparr>"

lemma isl_iff: "\<not> isl m \<longleftrightarrow> (\<exists>a. m = Inr a)"
  by (cases m) auto

lemma demo_groups: "\<not> isl (splitIntoGroups demo_world (sample_file [] demo_sections))"
  by code_simp

lemma demo_parses: "\<not> isl (parseConfigSource demo_world [] ''/etc/home.conf'')"
  by code_simp

section \<open>Properties\<close>

text \<open>C1: \<^verbatim>\<open>splitIntoGroups\<close> partitions the sections of a file. Every section but the root keys is
  classified by its name; the groups are named in order of first appearance with no name twice;
  and each group holds, type by type and in file order, exactly the sections classified into it,
  nothing lost, repeated or moved to another group.\<close>

theorem splitIntoGroups_partition:
  assumes "splitIntoGroups W cfg = Inr (root, groups)"
  shows "root = file_DefaultSection cfg \<and>
    (\<exists>cs. emap (classify W) (filter (\<lambda>s. \<not> is_root_section s) (file_Sections cfg)) = Inr cs \<and>
      map g_name groups = first_occs (map fst cs) \<and> distinct (map g_name groups) \<and>
      (\<forall>g \<in> set groups.
         g_iface g = sections_of cs (g_name g) ''interface'' \<and>
         g_peers g = sections_of cs (g_name g) ''peer'' \<and>
         g_tailscale g = sections_of cs (g_name g) ''tailscale'' \<and>
         g_resolve g = sections_of cs (g_name g) ''resolve'' \<and>
         (\<forall>t. routine_sections g t = (if t \<in> special_types then [] else sections_of cs (g_name g) t)) \<and>
         set (map fst (g_routines g)) = {t. \<exists>sec. (g_name g, t, sec) \<in> set cs} - special_types))"
proof -
  obtain cs where cs: "emap (classify W) (filter (\<lambda>s. \<not> is_root_section s) (file_Sections cfg)) = Inr cs"
    and root: "root = file_DefaultSection cfg" and groups: "groups = group_by cs"
    using assms by (auto simp: splitIntoGroups_eq ebind_ok)
  have names: "map g_name groups = first_occs (map fst cs)"
    by (simp add: groups group_by_def comp_def assemble_fields)
  have each: "\<exists>n. g = assemble cs n" if "g \<in> set groups" for g
    using that by (auto simp: groups group_by_def)
  have "distinct (map g_name groups)" unfolding names by simp
  moreover have "g_iface g = sections_of cs (g_name g) ''interface'' \<and>
      g_peers g = sections_of cs (g_name g) ''peer'' \<and>
      g_tailscale g = sections_of cs (g_name g) ''tailscale'' \<and>
      g_resolve g = sections_of cs (g_name g) ''resolve'' \<and>
      (\<forall>t. routine_sections g t = (if t \<in> special_types then [] else sections_of cs (g_name g) t)) \<and>
      set (map fst (g_routines g)) = {t. \<exists>sec. (g_name g, t, sec) \<in> set cs} - special_types"
    if "g \<in> set groups" for g
    using each [OF that]
    by (clarsimp simp only: assemble_fields assemble_routines assemble_routine_types simp_thms)
  ultimately show ?thesis using cs root names by blast
qed

theorem splitIntoGroups_partition_witness:
  "\<exists>root groups. splitIntoGroups demo_world (sample_file [] demo_sections) = Inr (root, groups) \<and>
     distinct (map g_name groups)"
proof -
  obtain root groups where "splitIntoGroups demo_world (sample_file [] demo_sections) = Inr (root, groups)"
    using demo_groups unfolding isl_iff by auto
  with splitIntoGroups_partition [OF this] show ?thesis by blast
qed

text \<open>C12: every file that parses yields at least one connection, and each connection carries its
  name in its configuration, is a WireGuard or a Tailscale connection but not both, has a host
  name that is not blank (Tailscale) or a private key and for at least one peer a public and a
  preshared key of 64 hexadecimal digits (WireGuard), and has a resolve strategy.\<close>

theorem parseConfigSource_well_formed:
  assumes "parseConfigSource W src p = Inr specs"
  shows "specs \<noteq> [] \<and> list_all wf_spec specs"
  using parseConfigSource_not_Nil [OF assms] parseConfigSource_wf [OF assms]
  by (simp add: list_all_iff)

theorem parseConfigSource_well_formed_witness:
  "\<exists>specs. parseConfigSource demo_world [] ''/etc/home.conf'' = Inr specs \<and> list_all wf_spec specs"
proof -
  obtain specs where "parseConfigSource demo_world [] ''/etc/home.conf'' = Inr specs"
    using demo_parses unfolding isl_iff by auto
  with parseConfigSource_well_formed [OF this] show ?thesis by blast
qed

text \<open>Parsing a configuration file never panics. The two indexing expressions of the code,
  \<^verbatim>\<open>g.iface[0]\<close> when no external file is named and \<^verbatim>\<open>specs[0]\<close> in \<^verbatim>\<open>ParseConfig\<close>, are only
  reached when the slice is not empty.\<close>

theorem ParseConfig_no_panic: "safe (ParseConfig W path)"
  unfolding ParseConfig_def ParseConfigFile_def
  by (auto intro!: safe_ebind simp: ebind_ok dest: parseConfigSource_not_Nil split: list.splits)

text \<open>\<^verbatim>\<open>appendRoutines\<close> succeeds exactly when every routine section of the group has a known
  type and parses; the routines it appends are the parsed sections in the order of
  \<^verbatim>\<open>routineParsers\<close>, and within one type in file order. A misspelt section type is an error.\<close>

theorem appendRoutines_canonical:
  "appendRoutines W g conf = Inr conf' \<longleftrightarrow>
     set (map fst (g_routines g)) \<subseteq> set (map fst routineParsers) \<and>
     (\<exists>rs. emap (\<lambda>(parse, sec). parse W sec) (routine_jobs g) = Inr rs \<and>
           conf' = conf\<lparr>conf_Routines := conf_Routines conf @ rs\<rparr>)"
  unfolding appendRoutines_ok known_types_def list_all_iff by (auto simp: subset_iff)

end
