(* ===== verification/Router.thy ===== *)
theory Router
  imports Host_Env
begin

text \<open>The decision between the tunnel and a direct dial (\<^verbatim>\<open>router.go\<close>).\<close>

record DomainRouter =
  patterns :: "regexp list"
  logNames :: bool

definition NewDomainRouter :: "regexp list \<Rightarrow> bool \<Rightarrow> DomainRouter" where
  "NewDomainRouter ps l = \<lparr>patterns = ps, logNames = l\<rparr>"

text \<open>A nil router is \<open>None\<close>.\<close>

definition shouldTunnel :: "world \<Rightarrow> DomainRouter option \<Rightarrow> string \<Rightarrow> bool" where
  "shouldTunnel W r host =
     (case r of
        None \<Rightarrow> True
      | Some d \<Rightarrow>
          if patterns d = [] then True
          else
            let host = lower W (TrimSuffix host ''.'')
            in list_ex (\<lambda>p. re_MatchString W p host) (patterns d))"

text \<open>\<^verbatim>\<open>route\<close> returns the decision and the line it logs, if any.\<close>

definition route :: "world \<Rightarrow> DomainRouter option \<Rightarrow> string \<Rightarrow> bool \<times> string option" where
  "route W r host =
     (let tunnel = shouldTunnel W r host in
      (tunnel,
       case r of
         None \<Rightarrow> None
       | Some d \<Rightarrow>
           if logNames d then
             Some (''route: '' @ host @ '' -> '' @ (if tunnel then ''TUNNEL'' else ''DIRECT''))
           else None))"

definition hostFromAddr :: "string \<Rightarrow> string" where
  "hostFromAddr address =
     (case SplitHostPort address of Inl _ \<Rightarrow> address | Inr (host, _) \<Rightarrow> host)"

section \<open>Lemmas\<close>

lemma shouldTunnel_nil [simp]:
  "shouldTunnel W None host"
  "patterns d = [] \<Longrightarrow> shouldTunnel W (Some d) host"
  by (simp_all add: shouldTunnel_def)

lemma shouldTunnel_iff:
  "shouldTunnel W (Some d) host \<longleftrightarrow>
     patterns d = [] \<or>
     (\<exists>p \<in> set (patterns d). re_MatchString W p (lower W (TrimSuffix host ''.'')))"
  by (auto simp: shouldTunnel_def list_ex_iff)

lemma route_decision [simp]: "fst (route W r host) = shouldTunnel W r host"
  by (simp add: route_def Let_def)

text \<open>Host names differing in the case of ASCII letters and in one trailing dot are routed alike.\<close>

lemma shouldTunnel_fold:
  assumes "list_all is_ascii h" and "list_all is_ascii k"
    and "map ascii_lower (TrimSuffix h ''.'') = map ascii_lower (TrimSuffix k ''.'')"
  shows "shouldTunnel W r h = shouldTunnel W r k"
proof -
  have a: "list_all is_ascii (TrimSuffix s ''.'')" if "list_all is_ascii s" for s
    using that by (auto simp: TrimSuffix_def list_all_iff dest: in_set_takeD)
  have "lower W (TrimSuffix h ''.'') = lower W (TrimSuffix k ''.'')"
    using assms(3) by (simp add: ToLower_ascii a assms(1,2))
  then show ?thesis by (cases r) (simp_all add: shouldTunnel_iff)
qed

lemma hostFromAddr_Join:
  "plain_host h \<Longrightarrow> plain_port p \<Longrightarrow> hostFromAddr (JoinHostPort h p) = h"
  by (simp add: hostFromAddr_def SplitHostPort_Join)

end
