(* ===== verification/Connections.thy ===== *)
theory Connections
  imports Config Router
begin

text \<open>
  Loading and validating several connections (\<^verbatim>\<open>connections.go\<close>). The five tables
  \<^verbatim>\<open>ValidateConnections\<close> fills are a record; each duplicate check is a claim table.
\<close>

record bind =
  bind_kind :: string
  bind_host :: string
  bind_port :: string
  bind_owner :: string

record validation =
  v_names :: "string \<rightharpoonup> bool"
  v_tsHostnames :: "string \<rightharpoonup> string"
  v_tsStateDirs :: "string \<rightharpoonup> string"
  v_wgListenPorts :: "int \<rightharpoonup> string"
  v_binds :: "bind list"

definition normalizePort :: "string \<Rightarrow> string" where
  "normalizePort port = (case Atoi port of Inl _ \<Rightarrow> port | Inr n \<Rightarrow> Itoa n)"

definition isWildcardHost :: "string \<Rightarrow> bool" where
  "isWildcardHost host = (host = [] \<or> host = ''0.0.0.0'' \<or> host = ''::'')"

definition addBind :: "string \<Rightarrow> string \<Rightarrow> string \<Rightarrow> bind list \<Rightarrow> bind list res" where
  "addBind kind addr owner binds =
     ebind (ewrap (Wrapf ''invalid address %q: %w'' [addr]) (SplitHostPort addr)) (\<lambda>(host, port).
       Inr (binds @ [\<lparr>bind_kind = kind, bind_host = host, bind_port = normalizePort port,
                       bind_owner = owner\<rparr>]))"

definition valid_tailscale :: "world \<Rightarrow> ConnectionSpec \<Rightarrow> validation \<Rightarrow> validation res" where
  "valid_tailscale W spec st =
     (case conf_Tailscale (spec_Conf spec) of
        None \<Rightarrow> Inr st
      | Some ts \<Rightarrow>
          let hostname = lower W (ts_Hostname ts) in
          case v_tsHostnames st hostname of
            Some prev \<Rightarrow>
              Inl (Errorf ''connections %q and %q use the same Tailscale Hostname %q''
                     [prev, spec_Name spec, hostname])
          | None \<Rightarrow>
              let st = st\<lparr>v_tsHostnames := (v_tsHostnames st)(hostname \<mapsto> spec_Name spec)\<rparr>;
                  stateDir = EffectiveStateDir W ts (spec_Name spec)
              in if v_tsStateDirs st stateDir \<noteq> None \<and> stateDir \<noteq> [] then
                   Inl (Errorf ''connections %q and %q share the Tailscale StateDir %s''
                          [the (v_tsStateDirs st stateDir), spec_Name spec, stateDir])
                 else
                   let st = st\<lparr>v_tsStateDirs := (v_tsStateDirs st)(stateDir \<mapsto> spec_Name spec)\<rparr> in
                   if conf_Device (spec_Conf spec) \<noteq> None then
                     Inl (Errorf ''connection %q: [Interface] and [Tailscale] are mutually exclusive''
                            [spec_Name spec])
                   else Inr st)"

definition valid_listen_port :: "ConnectionSpec \<Rightarrow> validation \<Rightarrow> validation res" where
  "valid_listen_port spec st =
     (case conf_Device (spec_Conf spec) of
        None \<Rightarrow> Inr st
      | Some d \<Rightarrow>
          (case dev_ListenPort d of
             None \<Rightarrow> Inr st
           | Some port \<Rightarrow>
               (case v_wgListenPorts st port of
                  Some prev \<Rightarrow>
                    Inl (Errorf ''connections %q and %q use the same WireGuard ListenPort %d''
                           [prev, spec_Name spec, Itoa port])
                | None \<Rightarrow>
                    Inr (st\<lparr>v_wgListenPorts := (v_wgListenPorts st)(port \<mapsto> spec_Name spec)\<rparr>))))"

text \<open>The type switch over the routines of one connection; the state is the list of binds and the
  map \<^verbatim>\<open>listenPorts\<close> of the connection.\<close>

definition valid_routine ::
    "ConnectionSpec \<Rightarrow> RoutineSpawner \<Rightarrow> bind list \<times> (int \<rightharpoonup> bool) \<Rightarrow> (bind list \<times> (int \<rightharpoonup> bool)) res" where
  "valid_routine spec r st =
     (let (binds, listenPorts) = st;
          listener = (\<lambda>kind addr.
            ebind (ewrap (Wrapf ''connection %q: %w'' [spec_Name spec])
                     (addBind kind addr (spec_Name spec) binds))
              (\<lambda>binds. Inr (binds, listenPorts)))
      in case r of
           TCPClientTunnel c \<Rightarrow> listener ''tcp'' (TCPAddr_String (tcpc_BindAddress c))
         | Socks5 c \<Rightarrow> listener ''tcp'' (socks_BindAddress c)
         | HTTP c \<Rightarrow> listener ''tcp'' (http_BindAddress c)
         | SNI c \<Rightarrow> listener ''tcp'' (sni_BindAddress c)
         | UDPProxyTunnel c \<Rightarrow>
             if conf_Tailscale (spec_Conf spec) \<noteq> None then
               Inl (Errorf ''connection %q: UDPProxyTunnel is not supported for Tailscale connections''
                      [spec_Name spec])
             else listener ''udp'' (udp_BindAddress c)
         | TCPServerTunnel c \<Rightarrow>
             if listenPorts (tcps_ListenPort c) = Some True then
               Inl (Errorf ''connection %q: TCPServerTunnel ListenPort %d used twice''
                      [spec_Name spec, Itoa (tcps_ListenPort c)])
             else
               ebind (ewrap (Wrapf ''connection %q: TCPServerTunnel target %q: %w''
                               [spec_Name spec, tcps_Target c])
                        (SplitHostPort (tcps_Target c)))
                 (\<lambda>_. Inr (binds, listenPorts(tcps_ListenPort c \<mapsto> True)))
         | STDIOTunnel c \<Rightarrow> Inr st)"

definition valid_spec :: "world \<Rightarrow> ConnectionSpec \<Rightarrow> validation \<Rightarrow> validation res" where
  "valid_spec W spec st =
     (if spec_Name spec = [] \<or> \<not> connectionNamePattern (spec_Name spec) then
        Inl (Errorf ''connection %q: name must match %s'' [spec_Name spec, ''^[a-z0-9][a-z0-9_-]*$''])
      else if v_names st (spec_Name spec) = Some True then
        Inl (Errorf ''duplicate connection name %q'' [spec_Name spec])
      else
        let st = st\<lparr>v_names := (v_names st)(spec_Name spec \<mapsto> True)\<rparr> in
        ebind (valid_tailscale W spec st) (\<lambda>st.
        ebind (valid_listen_port spec st) (\<lambda>st.
        ebind (efold (valid_routine spec) (conf_Routines (spec_Conf spec))
                 (v_binds st, Map.empty)) (\<lambda>(binds, _).
        Inr (st\<lparr>v_binds := binds\<rparr>)))))"

definition conflicts :: "bind \<Rightarrow> bind \<Rightarrow> bool" where
  "conflicts a b =
     (bind_kind a = bind_kind b \<and> bind_port a = bind_port b \<and>
      (bind_host a = bind_host b \<or> isWildcardHost (bind_host a) \<or> isWildcardHost (bind_host b)))"

text \<open>The nested loop over pairs \<^verbatim>\<open>i < j\<close>.\<close>

fun first_conflict :: "bind list \<Rightarrow> (bind \<times> bind) option" where
  "first_conflict [] = None"
| "first_conflict (a # bs) =
     (case List.find (conflicts a) bs of
        Some b \<Rightarrow> Some (a, b)
      | None \<Rightarrow> first_conflict bs)"

definition ValidateConnections :: "world \<Rightarrow> ConnectionSpec list \<Rightarrow> string \<Rightarrow> unit res" where
  "ValidateConnections W specs infoAddr =
     ebind (if infoAddr \<noteq> [] then addBind ''tcp'' infoAddr ''<health endpoint>'' [] else Inr [])
       (\<lambda>binds.
     ebind (efold (valid_spec W) specs
              \<lparr>v_names = Map.empty, v_tsHostnames = Map.empty, v_tsStateDirs = Map.empty,
               v_wgListenPorts = Map.empty, v_binds = binds\<rparr>) (\<lambda>st.
     case first_conflict (v_binds st) of
       None \<Rightarrow> Inr ()
     | Some (a, b) \<Rightarrow>
         Inl (Errorf ''%s listeners %s (%s) and %s (%s) share port %s''
                [bind_kind a, bind_owner a, JoinHostPort (bind_host a) (bind_port a),
                 bind_owner b, JoinHostPort (bind_host b) (bind_port b), bind_port a])))"

definition config_files :: "world \<Rightarrow> string \<Rightarrow> string list res" where
  "config_files W p =
     ebind (lib (env_StatIsDir W p)) (\<lambda>isDir.
       if isDir then
         ebind (lib (env_ReadDir W p)) (\<lambda>entries.
           Inr (map (\<lambda>e. Join [p, entry_Name e])
                  (filter (\<lambda>e. HasSuffix (lower W (entry_Name e)) ''.conf'' \<and> entry_IsRegular e) entries)))
       else Inr [p])"

definition LoadConfigSources :: "world \<Rightarrow> string list \<Rightarrow> string \<Rightarrow> ConnectionSpec list res" where
  "LoadConfigSources W paths infoAddr =
     ebind (emap (config_files W) paths) (\<lambda>fss.
     let files = concat fss in
     if files = [] then Inl (Errorf ''no configuration files found'' [])
     else
       ebind (emap (\<lambda>f. ewrap (Wrapf ''%s: %w'' [f]) (ParseConfigFile W f)) files) (\<lambda>sss.
       let specs = concat sss in
       ebind (ValidateConnections W specs infoAddr) (\<lambda>_. Inr specs)))"

text \<open>The patterns of the routines that split their traffic.\<close>

definition splits_traffic :: "RoutineSpawner \<Rightarrow> bool" where
  "splits_traffic r =
     (case r of
        Socks5 c \<Rightarrow> socks_TunnelDomains c \<noteq> []
      | HTTP c \<Rightarrow> http_TunnelDomains c \<noteq> []
      | SNI c \<Rightarrow> sni_TunnelDomains c \<noteq> []
      | _ \<Rightarrow> False)"

definition NeedsOpenEgress :: "ConnectionSpec list \<Rightarrow> bool" where
  "NeedsOpenEgress specs =
     list_ex (\<lambda>spec. conf_Tailscale (spec_Conf spec) \<noteq> None \<or>
                     list_ex splits_traffic (conf_Routines (spec_Conf spec))) specs"

definition TailscaleStateDirs :: "world \<Rightarrow> ConnectionSpec list \<Rightarrow> string list" where
  "TailscaleStateDirs W specs =
     List.map_filter (\<lambda>spec. map_option (\<lambda>ts. EffectiveStateDir W ts (spec_Name spec))
                                (conf_Tailscale (spec_Conf spec))) specs"

section \<open>Claims of a connection\<close>

text \<open>The maps that remember an owner and the maps that only set a flag are claim tables.\<close>

definition set_owner :: "'k \<Rightarrow> 'o \<Rightarrow> ('k \<rightharpoonup> 'o) \<Rightarrow> ('k \<rightharpoonup> 'o)" where
  "set_owner k ow m = m(k \<mapsto> ow)"

definition owned :: "('k \<rightharpoonup> 'o) \<Rightarrow> 'k \<Rightarrow> bool" where
  "owned m k = (m k \<noteq> None)"

definition set_flag :: "'k \<Rightarrow> unit \<Rightarrow> ('k \<rightharpoonup> bool) \<Rightarrow> ('k \<rightharpoonup> bool)" where
  "set_flag k u m = m(k \<mapsto> True)"

definition flagged :: "('k \<rightharpoonup> bool) \<Rightarrow> 'k \<Rightarrow> bool" where
  "flagged m k = (m k = Some True)"

interpretation owners: claim_table Map.empty set_owner owned
  by unfold_locales (auto simp: set_owner_def owned_def)

interpretation flags: claim_table Map.empty set_flag flagged
  by unfold_locales (auto simp: set_flag_def flagged_def)

lemmas table_defs = set_owner_def owned_def set_flag_def flagged_def

definition hostname_claims :: "world \<Rightarrow> ConnectionSpec \<Rightarrow> (string \<times> string) list" where
  "hostname_claims W s =
     (case conf_Tailscale (spec_Conf s) of
        None \<Rightarrow> [] | Some ts \<Rightarrow> [(lower W (ts_Hostname ts), spec_Name s)])"

definition state_dir_claims :: "world \<Rightarrow> ConnectionSpec \<Rightarrow> (string \<times> string) list" where
  "state_dir_claims W s =
     (case conf_Tailscale (spec_Conf s) of
        None \<Rightarrow> [] | Some ts \<Rightarrow> [(EffectiveStateDir W ts (spec_Name s), spec_Name s)])"

definition listen_port_claims :: "ConnectionSpec \<Rightarrow> (int \<times> string) list" where
  "listen_port_claims s =
     (case conf_Device (spec_Conf s) of
        None \<Rightarrow> []
      | Some d \<Rightarrow> (case dev_ListenPort d of None \<Rightarrow> [] | Some p \<Rightarrow> [(p, spec_Name s)]))"

definition server_port_claims :: "RoutineSpawner \<Rightarrow> (int \<times> unit) list" where
  "server_port_claims r = (case r of TCPServerTunnel c \<Rightarrow> [(tcps_ListenPort c, ())] | _ \<Rightarrow> [])"

text \<open>The network and address a routine listens on at the host.\<close>

definition listeners :: "RoutineSpawner \<Rightarrow> (string \<times> string) list" where
  "listeners r =
     (case r of
        TCPClientTunnel c \<Rightarrow> [(''tcp'', TCPAddr_String (tcpc_BindAddress c))]
      | Socks5 c \<Rightarrow> [(''tcp'', socks_BindAddress c)]
      | HTTP c \<Rightarrow> [(''tcp'', http_BindAddress c)]
      | SNI c \<Rightarrow> [(''tcp'', sni_BindAddress c)]
      | UDPProxyTunnel c \<Rightarrow> [(''udp'', udp_BindAddress c)]
      | _ \<Rightarrow> [])"

definition bind_of :: "string \<Rightarrow> string \<times> string \<Rightarrow> bind res" where
  "bind_of owner ka =
     ebind (SplitHostPort (snd ka)) (\<lambda>(host, port).
       Inr \<lparr>bind_kind = fst ka, bind_host = host, bind_port = normalizePort port,
            bind_owner = owner\<rparr>)"

definition routine_ok :: "ConnectionSpec \<Rightarrow> RoutineSpawner \<Rightarrow> bool" where
  "routine_ok s r =
     (case r of
        UDPProxyTunnel _ \<Rightarrow> conf_Tailscale (spec_Conf s) = None
      | TCPServerTunnel c \<Rightarrow> \<not> isl (SplitHostPort (tcps_Target c))
      | _ \<Rightarrow> True)"

lemma addBind_ok [ok_iff]:
  "addBind k a ow bs = Inr bs' \<longleftrightarrow> (\<exists>d. bind_of ow (k, a) = Inr d \<and> bs' = bs @ [d])"
  by (auto simp: addBind_def bind_of_def ebind_ok ewrap_ok)

lemma EffectiveStateDir_not_Nil [simp]: "EffectiveStateDir W ts n \<noteq> []"
  by (auto simp: EffectiveStateDir_def Let_def intro!: Join_not_Nil split: sum.splits)

lemma valid_tailscale_ok [ok_iff]:
  "valid_tailscale W s st = Inr st' \<longleftrightarrow>
     (conf_Tailscale (spec_Conf s) \<noteq> None \<longrightarrow> conf_Device (spec_Conf s) = None) \<and>
     (\<exists>h d. owners.claim_all (hostname_claims W s) (v_tsHostnames st) = Some h \<and>
            owners.claim_all (state_dir_claims W s) (v_tsStateDirs st) = Some d \<and>
            st' = st\<lparr>v_tsHostnames := h, v_tsStateDirs := d\<rparr>)"
  by (cases "conf_Tailscale (spec_Conf s)")
     (auto simp: valid_tailscale_def hostname_claims_def state_dir_claims_def Let_def table_defs
           split: option.splits)

lemma valid_listen_port_ok [ok_iff]:
  "valid_listen_port s st = Inr st' \<longleftrightarrow>
     (\<exists>p. owners.claim_all (listen_port_claims s) (v_wgListenPorts st) = Some p \<and>
          st' = st\<lparr>v_wgListenPorts := p\<rparr>)"
  by (auto simp: valid_listen_port_def listen_port_claims_def table_defs split: option.splits)

lemma valid_routine_ok [ok_iff]:
  "valid_routine s r (bs, lp) = Inr st' \<longleftrightarrow>
     routine_ok s r \<and>
     (\<exists>ds lp'. emap (bind_of (spec_Name s)) (listeners r) = Inr ds \<and>
               flags.claim_all (server_port_claims r) lp = Some lp' \<and> st' = (bs @ ds, lp'))"
  by (cases r)
     (auto simp: valid_routine_def Let_def routine_ok_def listeners_def server_port_claims_def
                 ebind_ok ewrap_ok addBind_ok isl_iff table_defs)

lemma valid_routines_ok:
  "efold (valid_routine s) rs (bs, lp) = Inr st' \<longleftrightarrow>
     list_all (routine_ok s) rs \<and>
     (\<exists>ds lp'. emap (bind_of (spec_Name s)) (concat (map listeners rs)) = Inr ds \<and>
               flags.claim_all (concat (map server_port_claims rs)) lp = Some lp' \<and>
               st' = (bs @ ds, lp'))"
proof (induction rs arbitrary: bs lp)
  case (Cons r rs)
  show ?case
    by (auto simp: ebind_ok valid_routine_ok Cons emap_append flags.claim_all_append split: option.splits)
qed auto

text \<open>The conditions on one connection that concern no other.\<close>

definition spec_ok :: "ConnectionSpec \<Rightarrow> bool" where
  "spec_ok s =
     (connectionNamePattern (spec_Name s) \<and>
      (conf_Tailscale (spec_Conf s) \<noteq> None \<longrightarrow> conf_Device (spec_Conf s) = None) \<and>
      list_all (routine_ok s) (conf_Routines (spec_Conf s)) \<and>
      distinct (map fst (concat (map server_port_claims (conf_Routines (spec_Conf s))))))"

definition spec_binds :: "ConnectionSpec \<Rightarrow> bind list res" where
  "spec_binds s =
     emap (bind_of (spec_Name s)) (concat (map listeners (conf_Routines (spec_Conf s))))"

lemma valid_spec_ok [ok_iff]:
  "valid_spec W s st = Inr st' \<longleftrightarrow>
     spec_ok s \<and>
     (\<exists>n h d p ds.
        flags.claim_all [(spec_Name s, ())] (v_names st) = Some n \<and>
        owners.claim_all (hostname_claims W s) (v_tsHostnames st) = Some h \<and>
        owners.claim_all (state_dir_claims W s) (v_tsStateDirs st) = Some d \<and>
        owners.claim_all (listen_port_claims s) (v_wgListenPorts st) = Some p \<and>
        spec_binds s = Inr ds \<and>
        st' = \<lparr>v_names = n, v_tsHostnames = h, v_tsStateDirs = d, v_wgListenPorts = p,
               v_binds = v_binds st @ ds\<rparr>)"
proof -
  have fl: "(\<exists>lp'. flags.claim_all cs Map.empty = Some lp') \<longleftrightarrow> distinct (map fst cs)" for cs :: "(int \<times> unit) list"
    by (rule flags.claim_all_empty)
  have nil: "\<not> connectionNamePattern []" by (simp add: connectionNamePattern_def)
  show ?thesis
    unfolding valid_spec_def spec_ok_def spec_binds_def fl [symmetric]
    by (auto simp: Let_def ebind_ok valid_tailscale_ok valid_listen_port_ok valid_routines_ok nil table_defs)
qed

lemma valid_specs_ok:
  "efold (valid_spec W) ss st = Inr st' \<longleftrightarrow>
     list_all spec_ok ss \<and>
     (\<exists>n h d p ds.
        flags.claim_all (map (\<lambda>s. (spec_Name s, ())) ss) (v_names st) = Some n \<and>
        owners.claim_all (concat (map (hostname_claims W) ss)) (v_tsHostnames st) = Some h \<and>
        owners.claim_all (concat (map (state_dir_claims W) ss)) (v_tsStateDirs st) = Some d \<and>
        owners.claim_all (concat (map listen_port_claims ss)) (v_wgListenPorts st) = Some p \<and>
        emap spec_binds ss = Inr ds \<and>
        st' = \<lparr>v_names = n, v_tsHostnames = h, v_tsStateDirs = d, v_wgListenPorts = p,
               v_binds = v_binds st @ concat ds\<rparr>)"
proof (induction ss arbitrary: st)
  case (Cons s ss)
  show ?case
    by (simp add: ebind_ok valid_spec_ok Cons owners.claim_all_append split: option.splits)
       (auto; fastforce)
qed (auto simp: validation.equality)

section \<open>What validation accepts\<close>

text \<open>
  The contract of \<^verbatim>\<open>ValidateConnections\<close>, without its tables: the conditions on single
  connections, the values that must differ, and the listeners that must not overlap: a wildcard host stands
  for every address.
\<close>

definition addresses_of :: "string \<Rightarrow> string set" where
  "addresses_of host = (if host \<in> {[], ''0.0.0.0'', ''::''} then UNIV else {host})"

definition conflict_free :: "bind list \<Rightarrow> bool" where
  "conflict_free bs =
     (\<forall>i j. i < j \<and> j < length bs \<and> bind_kind (bs ! i) = bind_kind (bs ! j) \<and>
        bind_port (bs ! i) = bind_port (bs ! j) \<longrightarrow>
        addresses_of (bind_host (bs ! i)) \<inter> addresses_of (bind_host (bs ! j)) = {})"

definition info_bind :: "string \<Rightarrow> bind list res" where
  "info_bind infoAddr =
     (if infoAddr = [] then Inr []
      else emap (bind_of ''<health endpoint>'') [(''tcp'', infoAddr)])"

definition valid_connections :: "world \<Rightarrow> ConnectionSpec list \<Rightarrow> string \<Rightarrow> bool" where
  "valid_connections W specs infoAddr =
     (list_all spec_ok specs \<and>
      distinct (map spec_Name specs) \<and>
      distinct (map fst (concat (map (hostname_claims W) specs))) \<and>
      distinct (TailscaleStateDirs W specs) \<and>
      distinct (map fst (concat (map listen_port_claims specs))) \<and>
      (case (info_bind infoAddr, emap spec_binds specs) of
         (Inr i, Inr bss) \<Rightarrow> conflict_free (i @ concat bss)
       | _ \<Rightarrow> False))"

lemma TailscaleStateDirs_Nil [simp]: "TailscaleStateDirs W [] = []"
  by (simp add: TailscaleStateDirs_def map_filter_simps)

lemma TailscaleStateDirs_Cons [simp]:
  "TailscaleStateDirs W (s # ss) = map fst (state_dir_claims W s) @ TailscaleStateDirs W ss"
  by (simp add: TailscaleStateDirs_def map_filter_simps state_dir_claims_def split: option.splits)

lemma TailscaleStateDirs_claims:
  "TailscaleStateDirs W specs = map fst (concat (map (state_dir_claims W) specs))"
  by (induction specs) simp_all

lemma conflicts_overlap:
  "conflicts a b \<longleftrightarrow> bind_kind a = bind_kind b \<and> bind_port a = bind_port b \<and>
     addresses_of (bind_host a) \<inter> addresses_of (bind_host b) \<noteq> {}"
  by (auto simp: conflicts_def isWildcardHost_def addresses_of_def)

lemma conflict_free_sorted_wrt: "conflict_free bs \<longleftrightarrow> sorted_wrt (\<lambda>a b. \<not> conflicts a b) bs"
  unfolding conflict_free_def sorted_wrt_iff_nth_less conflicts_overlap by blast

lemma first_conflict_None: "first_conflict bs = None \<longleftrightarrow> conflict_free bs"
  unfolding conflict_free_sorted_wrt
  by (induction bs) (auto simp: find_None_iff find_Some_iff split: option.splits)

lemma report_conflict_ok:
  "(case first_conflict bs of None \<Rightarrow> Inr () | Some (a, b) \<Rightarrow> Inl (e a b)) = Inr () \<longleftrightarrow> conflict_free bs"
  by (auto simp: first_conflict_None [symmetric] split: option.splits)

lemma first_conflict_Some:
  "first_conflict bs = Some (a, b) \<Longrightarrow> a \<in> set bs \<and> b \<in> set bs \<and> conflicts a b"
  by (induction bs) (auto simp: find_Some_iff split: option.splits)

lemma conflicts_sym: "conflicts a b \<longleftrightarrow> conflicts b a"
  by (auto simp: conflicts_def)

lemma ValidateConnections_ok:
  "ValidateConnections W specs infoAddr = Inr () \<longleftrightarrow> valid_connections W specs infoAddr"
proof -
  have info: "(if infoAddr \<noteq> [] then addBind ''tcp'' infoAddr ''<health endpoint>'' [] else Inr []) = Inr bs
      \<longleftrightarrow> info_bind infoAddr = Inr bs" for bs
    by (auto simp: info_bind_def addBind_ok ebind_ok)
  have names: "map fst (map (\<lambda>s. (spec_Name s, ())) specs) = map spec_Name specs"
    by simp
  have tables: "ValidateConnections W specs infoAddr = Inr () \<longleftrightarrow>
      list_all spec_ok specs \<and>
      (\<exists>n. flags.claim_all (map (\<lambda>s. (spec_Name s, ())) specs) Map.empty = Some n) \<and>
      (\<exists>h. owners.claim_all (concat (map (hostname_claims W) specs)) Map.empty = Some h) \<and>
      (\<exists>d. owners.claim_all (concat (map (state_dir_claims W) specs)) Map.empty = Some d) \<and>
      (\<exists>p. owners.claim_all (concat (map listen_port_claims specs)) Map.empty = Some p) \<and>
      (\<exists>i ds. info_bind infoAddr = Inr i \<and> emap spec_binds specs = Inr ds \<and>
              conflict_free (i @ concat ds))"
    unfolding ValidateConnections_def ebind_ok info valid_specs_ok report_conflict_ok
    by auto
  show ?thesis
    unfolding tables flags.claim_all_empty owners.claim_all_empty names valid_connections_def
      TailscaleStateDirs_claims
    by (auto split: sum.splits)
qed

lemma safe_bind_of [simp]: "safe (bind_of ow ka)"
  by (auto simp: bind_of_def intro!: safe_ebind)

lemma safe_addBind [simp]: "safe (addBind k a ow bs)"
  by (auto simp: addBind_def intro!: safe_ebind safe_ewrap)

lemma safe_valid_routine [simp]: "safe (valid_routine s r st)"
  by (cases st; cases r) (auto simp: valid_routine_def intro!: safe_ebind safe_ewrap)

lemma safe_valid_spec [simp]: "safe (valid_spec W s st)"
  by (auto simp: valid_spec_def valid_tailscale_def valid_listen_port_def Let_def
           intro!: safe_ebind safe_efold split: option.splits)

lemma safe_ValidateConnections [simp]: "safe (ValidateConnections W specs infoAddr)"
  by (auto simp: ValidateConnections_def intro!: safe_ebind safe_efold split: option.splits)

lemma safe_LoadConfigSources [simp]: "safe (LoadConfigSources W paths infoAddr)"
  unfolding LoadConfigSources_def config_files_def ParseConfigFile_def
  by (auto intro!: safe_ebind safe_emap safe_ewrap simp: Let_def)

lemma LoadConfigSources_ok:
  assumes "LoadConfigSources W paths infoAddr = Inr specs"
  shows "specs \<noteq> [] \<and> list_all wf_spec specs \<and> valid_connections W specs infoAddr"
proof -
  obtain fss sss where fs: "concat fss \<noteq> []"
    and parsed: "emap (\<lambda>f. ewrap (Wrapf ''%s: %w'' [f]) (ParseConfigFile W f)) (concat fss) = Inr sss"
    and valid: "ValidateConnections W (concat sss) infoAddr = Inr ()" and specs: "specs = concat sss"
    using assms
    by (auto simp: LoadConfigSources_def ebind_ok Let_def simp del: concat_eq_Nil_conv split: if_splits)
  have per_file: "ss \<noteq> [] \<and> list_all wf_spec ss" if "ss \<in> set sss" for ss
    using emap_in [OF parsed that] parseConfigSource_not_Nil parseConfigSource_wf
    by (auto simp: ParseConfigFile_def ebind_ok ewrap_ok list_all_iff)
  have "sss \<noteq> []" using emap_length [OF parsed] fs by auto
  then have "specs \<noteq> []" using per_file specs by (cases sss) auto
  then show ?thesis
    using per_file valid specs by (auto simp: ValidateConnections_ok list_all_iff)
qed

section \<open>Egress\<close>

definition routine_router :: "RoutineSpawner \<Rightarrow> DomainRouter option" where
  "routine_router r =
     (case r of
        Socks5 c \<Rightarrow> Some (NewDomainRouter (socks_TunnelDomains c) (socks_LogDomains c))
      | HTTP c \<Rightarrow> Some (NewDomainRouter (http_TunnelDomains c) (http_LogDomains c))
      | SNI c \<Rightarrow> Some (NewDomainRouter (sni_TunnelDomains c) (sni_LogDomains c))
      | _ \<Rightarrow> None)"

lemma splits_traffic_router: "\<not> splits_traffic r \<Longrightarrow> shouldTunnel W (routine_router r) host"
  by (cases r) (simp_all add: splits_traffic_def routine_router_def NewDomainRouter_def)

section \<open>Properties\<close>

text \<open>C2: \<^verbatim>\<open>ValidateConnections\<close> accepts a list of connections exactly when it satisfies the
  contract \<open>valid_connections\<close>: names well-formed and distinct, Tailscale host names (ignoring
  case) and state directories distinct, WireGuard listen ports distinct, per connection the
  server tunnel ports distinct and their targets well-formed, no UDP tunnel over Tailscale, and no
  two listeners of one network on the same port with equal or wildcard hosts.\<close>

theorem ValidateConnections_iff:
  "ValidateConnections W specs infoAddr = Inr () \<longleftrightarrow> valid_connections W specs infoAddr"
  by (rule ValidateConnections_ok)

text \<open>When \<^verbatim>\<open>LoadConfigSources\<close> succeeds there is at least one connection, every connection
  is well-formed, and the connections of all files together satisfy the contract of
  \<^verbatim>\<open>ValidateConnections\<close>.\<close>

theorem LoadConfigSources_validated:
  assumes "LoadConfigSources W paths infoAddr = Inr specs"
  shows "specs \<noteq> [] \<and> list_all wf_spec specs \<and> valid_connections W specs infoAddr"
  using assms by (rule LoadConfigSources_ok)

lemma demo_loads: "\<not> isl (LoadConfigSources demo_world [''/etc/home.conf''] ''127.0.0.1:9090'')"
  by code_simp

theorem LoadConfigSources_validated_witness:
  "\<exists>specs. LoadConfigSources demo_world [''/etc/home.conf''] ''127.0.0.1:9090'' = Inr specs \<and>
     valid_connections demo_world specs ''127.0.0.1:9090''"
proof -
  obtain specs where "LoadConfigSources demo_world [''/etc/home.conf''] ''127.0.0.1:9090'' = Inr specs"
    using demo_loads unfolding isl_iff by auto
  with LoadConfigSources_validated [OF this] show ?thesis by blast
qed

text \<open>A connection set for which \<^verbatim>\<open>NeedsOpenEgress\<close> is false has no Tailscale connection, and
  none of its proxies ever dials a destination directly: the router of every routine sends every
  host through the tunnel. This is what allows the outbound restriction to be installed.\<close>

theorem NeedsOpenEgress_sound:
  assumes "\<not> NeedsOpenEgress specs" and "s \<in> set specs"
  shows "conf_Tailscale (spec_Conf s) = None \<and>
    (\<forall>r \<in> set (conf_Routines (spec_Conf s)). \<forall>host. shouldTunnel W (routine_router r) host)"
  using assms by (auto simp: NeedsOpenEgress_def list_ex_iff intro: splits_traffic_router)

definition demo_spec :: ConnectionSpec where
  "demo_spec =
     \<lparr>spec_Name = ''home'',
      spec_Conf = \<lparr>conf_Name = ''home'', conf_Device = Some empty_device, conf_Tailscale = None,
        conf_Routines = [SNI \<lparr>sni_BindAddress = '':443'', sni_TunnelDomains = [],
                              sni_LogDomains = True\<rparr>],
        conf_Resolve = None\<rparr>\<rparr>"

theorem NeedsOpenEgress_sound_witness:
  "\<not> NeedsOpenEgress [demo_spec] \<and>
   shouldTunnel sample_world (routine_router (hd (conf_Routines (spec_Conf demo_spec)))) ''a.test''"
proof -
  have n: "\<not> NeedsOpenEgress [demo_spec]" by code_simp
  have "hd (conf_Routines (spec_Conf demo_spec)) \<in> set (conf_Routines (spec_Conf demo_spec))"
    by (simp add: demo_spec_def)
  then show ?thesis using n NeedsOpenEgress_sound [OF n, of demo_spec] by simp
qed

end
