(* ===== verification/Virtual_Tun.thy ===== *)
theory Virtual_Tun
  imports Connections "HOL-Library.Multiset"
begin

text \<open>
  The virtual tunnel every proxy routine works on (\<^verbatim>\<open>network.go\<close>, \<^verbatim>\<open>routine.go\<close> lines 35--209):
  name resolution, target addresses and the routed dialers. Connections are numbers handed out
  by whoever dials or accepts.
\<close>

section \<open>Networks\<close>

type_synonym conn = nat
type_synonym listener = nat

datatype go_context = Background | Request nat

text \<open>The interface \<^verbatim>\<open>Network\<close>; what an implementation answers is data of the model.\<close>

record network =
  net_Dial :: "string \<Rightarrow> string \<Rightarrow> conn ext"
  net_DialContext :: "go_context \<Rightarrow> string \<Rightarrow> string \<Rightarrow> conn ext"
  net_DialTCP :: "tcp_addr option \<Rightarrow> conn ext"
  net_ListenTCP :: "tcp_addr option \<Rightarrow> listener ext"
  net_LookupContextHost :: "go_context \<Rightarrow> string \<Rightarrow> string list ext"

text \<open>The same calls answered by the operating system, and the random numbers
  \<^verbatim>\<open>rand.Shuffle\<close> draws for the two address families.\<close>

record host_net =
  os_Dial :: "string \<Rightarrow> string \<Rightarrow> conn ext"
  os_DialContext :: "go_context \<Rightarrow> string \<Rightarrow> string \<Rightarrow> conn ext"
  os_DialTCP :: "tcp_addr \<Rightarrow> conn ext"
  os_Listen :: "string \<Rightarrow> string \<Rightarrow> listener ext"
  os_ListenTCP :: "tcp_addr option \<Rightarrow> listener ext"
  os_LookupHost :: "go_context \<Rightarrow> string \<Rightarrow> string list ext"
  os_rand4 :: "nat \<Rightarrow> nat"
  os_rand6 :: "nat \<Rightarrow> nat"

text \<open>A WireGuard device, known by its \<^verbatim>\<open>IpcGet\<close>.\<close>

record wg_device =
  ipc_get :: "string ext"

record VirtualTun =
  vt_Name :: string
  vt_Net :: network
  vt_Tnet :: bool
  vt_Dev :: "wg_device option"
  vt_SystemDNS :: bool
  vt_Conf :: DeviceConfig
  vt_ResolveConfig :: "ResolveConfig option"
  vt_PingRecord :: "(string \<times> 64 word) list"

record addressPort =
  ap_address :: string
  ap_port :: "16 word"

section \<open>Name resolution\<close>

definition LookupAddr :: "host_net \<Rightarrow> VirtualTun \<Rightarrow> go_context \<Rightarrow> string \<Rightarrow> string list res" where
  "LookupAddr H d ctx name =
     (if vt_SystemDNS d then lib (os_LookupHost H ctx name)
      else lib (net_LookupContextHost (vt_Net d) ctx name))"

text \<open>\<^verbatim>\<open>rand.Shuffle\<close>: for every index from the last down to 1 a swap with an index at or below
  it; \<open>pick i\<close> is the number drawn for index \<open>i\<close>.\<close>

definition swap :: "'a list \<Rightarrow> nat \<Rightarrow> nat \<Rightarrow> 'a list" where
  "swap xs i j = xs[i := xs ! j, j := xs ! i]"

fun shuffle_down :: "(nat \<Rightarrow> nat) \<Rightarrow> nat \<Rightarrow> 'a list \<Rightarrow> 'a list" where
  "shuffle_down pick 0 xs = xs"
| "shuffle_down pick (Suc i) xs =
     shuffle_down pick i (swap xs (Suc i) (pick (Suc i) mod Suc (Suc i)))"

definition Shuffle :: "(nat \<Rightarrow> nat) \<Rightarrow> 'a list \<Rightarrow> 'a list" where
  "Shuffle pick xs = shuffle_down pick (length xs - 1) xs"

text \<open>The loop that parses the answers and sorts them by family; texts that are no address are
  skipped.\<close>

fun by_family :: "string list \<Rightarrow> netip_addr list \<times> netip_addr list" where
  "by_family [] = ([], [])"
| "by_family (saddr # rest) =
     (let (v4, v6) = by_family rest in
      case ParseAddr saddr of
        Inl _ \<Rightarrow> (v4, v6)
      | Inr addr \<Rightarrow>
          if Is4 addr then (addr # v4, v6) else if Is6 addr then (v4, addr # v6) else (v4, v6))"

definition ResolveAddrWithContext ::
    "host_net \<Rightarrow> VirtualTun \<Rightarrow> go_context \<Rightarrow> string \<Rightarrow> netip_addr res" where
  "ResolveAddrWithContext H d ctx name =
     ebind (LookupAddr H d ctx name) (\<lambda>addrs.
     let (addrs_v4, addrs_v6) = by_family addrs;
         addrs_v4 = Shuffle (os_rand4 H) addrs_v4;
         addrs_v6 = Shuffle (os_rand6 H) addrs_v6
     in case vt_ResolveConfig d of
          None \<Rightarrow> Inl (GoPanic ''nil pointer dereference'')
        | Some rc \<Rightarrow>
            let addrs_all = (if ResolveStrategy rc = ''ipv6'' then addrs_v6 @ addrs_v4
                             else addrs_v4 @ addrs_v6)
            in case addrs_all of
                 [] \<Rightarrow> Inl (New (''no address found for: '' @ name))
               | a # _ \<Rightarrow> Inr a)"

fun AsSlice :: "netip_addr \<Rightarrow> 8 word list" where
  "AsSlice AddrZero = []"
| "AsSlice (Addr4 a b c d) = [a, b, c, d]"
| "AsSlice (Addr6 gs _) = concat (map (\<lambda>g. [word_of_int (uint g div 256), word_of_int (uint g)]) gs)"

definition Resolve ::
    "host_net \<Rightarrow> VirtualTun \<Rightarrow> go_context \<Rightarrow> string \<Rightarrow> (go_context \<times> 8 word list) res" where
  "Resolve H d ctx name =
     ebind (ResolveAddrWithContext H d ctx name) (\<lambda>addr. Inr (ctx, AsSlice addr))"

definition passthroughResolver_Resolve ::
    "go_context \<Rightarrow> string \<Rightarrow> (go_context \<times> 8 word list option) res" where
  "passthroughResolver_Resolve ctx name = Inr (ctx, None)"

section \<open>Target addresses\<close>

definition parseAddressPort :: "string \<Rightarrow> addressPort res" where
  "parseAddressPort endpoint =
     ebind (SplitHostPort endpoint) (\<lambda>(name, sport).
       case Atoi sport of
         Inl _ \<Rightarrow> Inl (Wrapf ''dial'' [] (New ''port must be numeric''))
       | Inr port \<Rightarrow>
           if port < 0 \<or> 65535 < port then Inl (Wrapf ''dial'' [] (New ''port must be numeric''))
           else Inr \<lparr>ap_address = name, ap_port = word_of_int port\<rparr>)"

definition resolveToAddrPort ::
    "host_net \<Rightarrow> VirtualTun \<Rightarrow> addressPort \<Rightarrow> (netip_addr \<times> 16 word) res" where
  "resolveToAddrPort H d endpoint =
     ebind (ResolveAddrWithContext H d Background (ap_address endpoint)) (\<lambda>addr.
       Inr (addr, ap_port endpoint))"

text \<open>\<^verbatim>\<open>net.TCPAddrFromAddrPort\<close>: the bytes of the address, printed the way \<^verbatim>\<open>net.IP\<close> does (an
  IPv4-mapped address in dotted form), the zone apart.\<close>

fun ip_text :: "netip_addr \<Rightarrow> string" where
  "ip_text AddrZero = []"
| "ip_text (Addr4 a b c d) = string4 a b c d"
| "ip_text (Addr6 gs _) = (if is4in6 gs then drop 7 (string4in6 gs) else string6 gs)"

fun addr_zone :: "netip_addr \<Rightarrow> string" where
  "addr_zone (Addr6 _ z) = z"
| "addr_zone _ = []"

definition TCPAddrFromAddrPort :: "netip_addr \<times> 16 word \<Rightarrow> tcp_addr" where
  "TCPAddrFromAddrPort ap =
     \<lparr>tcp_IP = ip_text (fst ap), tcp_Port = uint (snd ap), tcp_Zone = addr_zone (fst ap)\<rparr>"

text \<open>\<^verbatim>\<open>netip.AddrPort.String\<close>, which the error messages print.\<close>

definition AddrPort_String :: "netip_addr \<times> 16 word \<Rightarrow> string" where
  "AddrPort_String ap =
     (case fst ap of
        AddrZero \<Rightarrow> ''invalid AddrPort''
      | Addr4 a b c d \<Rightarrow> string4 a b c d @ '':'' @ Itoa (uint (snd ap))
      | Addr6 gs z \<Rightarrow> ''['' @ Addr_String (fst ap) @ '']:'' @ Itoa (uint (snd ap)))"

section \<open>Routed dialers\<close>

text \<open>Which way a dial went, and what came back.\<close>

datatype via = Tunnel | Direct

definition RoutedDial ::
    "world \<Rightarrow> host_net \<Rightarrow> VirtualTun \<Rightarrow> DomainRouter option \<Rightarrow> string \<Rightarrow> string \<Rightarrow> via \<times> conn res" where
  "RoutedDial W H d router network address =
     (if fst (route W router (hostFromAddr address))
      then (Tunnel, lib (net_Dial (vt_Net d) network address))
      else (Direct, lib (os_Dial H network address)))"

text \<open>\<open>fqdn\<close> is \<^verbatim>\<open>request.DestAddr.FQDN\<close>.\<close>

definition routedSocks5Dial ::
    "world \<Rightarrow> host_net \<Rightarrow> VirtualTun \<Rightarrow> DomainRouter option \<Rightarrow> go_context \<Rightarrow> string \<Rightarrow> string \<Rightarrow> string
      \<Rightarrow> via \<times> conn res" where
  "routedSocks5Dial W H d router ctx network address fqdn =
     (let host = (if fqdn = [] then hostFromAddr address else fqdn) in
      if fst (route W router host)
      then (Tunnel, lib (net_DialContext (vt_Net d) ctx network address))
      else (Direct, lib (os_DialContext H ctx network address)))"

section \<open>Lemmas\<close>

lemma mset_swap: "i < length xs \<Longrightarrow> j < length xs \<Longrightarrow> mset (swap xs i j) = mset xs"
  by (simp add: swap_def mset_swap)

lemma length_swap [simp]: "length (swap xs i j) = length xs"
  by (simp add: swap_def)

lemma mset_shuffle_down: "i < length xs \<Longrightarrow> mset (shuffle_down pick i xs) = mset xs"
proof (induction pick i xs rule: shuffle_down.induct)
  case (2 pick i xs)
  have "pick (Suc i) mod Suc (Suc i) < length xs"
    using 2(2) by (meson le_less_trans less_Suc_eq_le mod_less_divisor zero_less_Suc)
  then show ?case using 2 by (simp add: mset_swap)
qed simp

lemma mset_Shuffle [simp]: "mset (Shuffle pick xs) = mset xs"
  by (cases xs) (simp_all add: Shuffle_def mset_shuffle_down)

lemma set_Shuffle [simp]: "set (Shuffle pick xs) = set xs"
  by (metis mset_Shuffle set_mset_mset)

lemma Shuffle_Nil_iff [simp]: "Shuffle pick xs = [] \<longleftrightarrow> xs = []"
  by (metis mset_Shuffle mset_zero_iff)

text \<open>Every permutation is a shuffle.\<close>

lemma swap_nth:
  "i < length xs \<Longrightarrow> j < length xs \<Longrightarrow>
   swap xs i j ! k = (if k = j then xs ! i else if k = i then xs ! j else xs ! k)"
  by (auto simp: swap_def nth_list_update)

lemma shuffle_down_cong: "(\<And>k. k \<le> i \<Longrightarrow> p k = q k) \<Longrightarrow> shuffle_down p i xs = shuffle_down q i xs"
  by (induction p i xs rule: shuffle_down.induct) simp_all

lemma shuffle_down_surj:
  "i < length xs \<Longrightarrow> mset (take (Suc i) xs) = mset (take (Suc i) ys) \<Longrightarrow> drop (Suc i) xs = drop (Suc i) ys \<Longrightarrow>
   length ys = length xs \<Longrightarrow> \<exists>pick. shuffle_down pick i xs = ys"
proof (induction i arbitrary: xs)
  case 0
  then have "take 1 xs = take 1 ys" by (cases xs; cases ys) auto
  then have "xs = ys" using 0 by (metis One_nat_def append_take_drop_id)
  then show ?case by simp
next
  case (Suc i)
  have "ys ! Suc i \<in># mset (take (Suc (Suc i)) ys)"
    using Suc.prems by (auto simp: in_set_conv_nth)
  then obtain j where j: "j \<le> Suc i" "xs ! j = ys ! Suc i"
    using Suc.prems unfolding Suc.prems(2) [symmetric] by (auto simp: in_set_conv_nth less_Suc_eq_le)
  let ?zs = "swap xs (Suc i) j"
  have z: "?zs ! Suc i = ys ! Suc i" using Suc.prems j by (auto simp: swap_nth)
  have t: "take (Suc (Suc i)) ?zs = swap (take (Suc (Suc i)) xs) (Suc i) j"
    using Suc.prems j by (intro nth_equalityI) (auto simp: swap_nth)
  then have "mset (take (Suc (Suc i)) ?zs) = mset (take (Suc (Suc i)) ys)"
    using Suc.prems j by (simp add: mset_swap)
  then have "mset (take (Suc i) ?zs) = mset (take (Suc i) ys)"
    using Suc.prems z by (simp add: take_Suc_conv_app_nth)
  moreover have "drop (Suc i) ?zs = drop (Suc i) ys"
  proof -
    have "drop (Suc (Suc i)) ?zs = drop (Suc (Suc i)) xs"
      using Suc.prems j by (simp add: swap_def)
    then show ?thesis using Suc.prems z by (simp add: Cons_nth_drop_Suc [symmetric])
  qed
  ultimately obtain p where p: "shuffle_down p i ?zs = ys" using Suc by fastforce
  have "shuffle_down (p(Suc i := j)) i ?zs = shuffle_down p i ?zs"
    by (rule shuffle_down_cong) simp
  then show ?case using p j by (intro exI [of _ "p(Suc i := j)"]) (simp add: fun_upd_def)
qed

lemma Shuffle_surj:
  assumes "mset ys = mset xs"
  obtains pick where "Shuffle pick xs = ys"
proof (cases "xs = []")
  case False
  have l: "length ys = length xs" using assms by (metis size_mset)
  then show ?thesis
    using that shuffle_down_surj [of "length xs - 1" xs ys] False assms by (auto simp: Shuffle_def)
qed (use assms that in \<open>auto simp: Shuffle_def\<close>)

lemma set_by_family:
  "set (fst (by_family as)) = {a. Is4 a \<and> (\<exists>s \<in> set as. ParseAddr s = Inr a)} \<and>
   set (snd (by_family as)) = {a. Is6 a \<and> (\<exists>s \<in> set as. ParseAddr s = Inr a)}"
  by (induction as) (auto simp: Let_def split: prod.splits sum.splits elim: Is4.elims Is6.elims)

definition answers4 :: "string list \<Rightarrow> netip_addr set" where
  "answers4 as = {a. Is4 a \<and> (\<exists>s \<in> set as. ParseAddr s = Inr a)}"

definition answers6 :: "string list \<Rightarrow> netip_addr set" where
  "answers6 as = {a. Is6 a \<and> (\<exists>s \<in> set as. ParseAddr s = Inr a)}"

lemma set_append_pick:
  "(case xs @ ys of [] \<Rightarrow> Inl e | a # _ \<Rightarrow> Inr a) = r \<Longrightarrow>
     (xs = [] \<and> ys = [] \<and> r = Inl e) \<or>
     (\<exists>a. r = Inr a \<and> (a \<in> set xs \<or> xs = [] \<and> a \<in> set ys))"
  by (cases xs; cases ys) auto

lemma ResolveAddr_cases:
  assumes "LookupAddr H d ctx name = Inr as" and "vt_ResolveConfig d = Some rc"
  defines "pref \<equiv> if ResolveStrategy rc = ''ipv6'' then answers6 as else answers4 as"
    and "alt \<equiv> if ResolveStrategy rc = ''ipv6'' then answers4 as else answers6 as"
  shows "pref = {} \<and> alt = {} \<and>
      ResolveAddrWithContext H d ctx name = Inl (New (''no address found for: '' @ name)) \<or>
    (\<exists>a. ResolveAddrWithContext H d ctx name = Inr a \<and> (a \<in> pref \<or> pref = {} \<and> a \<in> alt))"
proof -
  obtain v4 v6 where f: "by_family as = (v4, v6)" by fastforce
  have v: "set v4 = answers4 as" "set v6 = answers6 as"
    using set_by_family [of as] by (simp_all add: f answers4_def answers6_def)
  have nil: "v4 = [] \<longleftrightarrow> answers4 as = {}" "v6 = [] \<longleftrightarrow> answers6 as = {}"
    using v by (metis set_empty)+
  define xs ys where "xs = (if ResolveStrategy rc = ''ipv6'' then Shuffle (os_rand6 H) v6 else Shuffle (os_rand4 H) v4)"
    and "ys = (if ResolveStrategy rc = ''ipv6'' then Shuffle (os_rand4 H) v4 else Shuffle (os_rand6 H) v6)"
  have r: "(case xs @ ys of [] \<Rightarrow> Inl (New (''no address found for: '' @ name)) | a # _ \<Rightarrow> Inr a)
      = ResolveAddrWithContext H d ctx name"
    unfolding ResolveAddrWithContext_def assms(1,2) f xs_def ys_def Let_def ebind_simps
      prod.case option.case
    by (cases "ResolveStrategy rc = ''ipv6''") (simp_all only: if_True if_False simp_thms)
  have "set xs = pref" "set ys = alt" by (simp_all add: xs_def ys_def pref_def alt_def v)
  moreover have "xs = [] \<longleftrightarrow> pref = {}" "ys = [] \<longleftrightarrow> alt = {}"
    by (simp_all add: xs_def ys_def pref_def alt_def nil)
  ultimately show ?thesis using set_append_pick [OF r] by auto
qed

lemma parseAddressPort_ok [ok_iff]:
  "parseAddressPort ep = Inr ap \<longleftrightarrow>
     (\<exists>h s n. SplitHostPort ep = Inr (h, s) \<and> Atoi s = Inr n \<and> 0 \<le> n \<and> n \<le> 65535 \<and>
        ap = \<lparr>ap_address = h, ap_port = word_of_int n\<rparr>)"
proof (cases "SplitHostPort ep")
  case (Inr hs)
  obtain h s where hs: "hs = (h, s)" by fastforce
  show ?thesis by (cases "Atoi s") (auto simp: parseAddressPort_def Inr hs)
qed (simp add: parseAddressPort_def)

lemma uint_port: "0 \<le> n \<Longrightarrow> n \<le> 65535 \<Longrightarrow> uint (word_of_int n :: 16 word) = n"
  by (simp add: uint_word_of_int_eq take_bit_int_eq_self)

lemma plain_port_Itoa: "plain_port (Itoa n)"
  by (auto simp: plain_port_def dest!: Itoa_chars digit_ne_sign)

section \<open>Properties\<close>

text \<open>C25: name resolution follows the configured strategy. Among the addresses the lookup returned,
  one of the preferred family is chosen whenever there is one (IPv6 under strategy \<^verbatim>\<open>ipv6\<close>, IPv4
  otherwise), the other family is used only when the preferred one is empty, and resolution
  fails exactly when the lookup returned no address at all; whatever numbers the shuffles draw.\<close>

theorem ResolveAddr_follows_strategy:
  assumes "LookupAddr H d ctx name = Inr as" and "vt_ResolveConfig d = Some rc"
  shows "((\<exists>a. ResolveAddrWithContext H d ctx name = Inr a) \<longleftrightarrow> answers4 as \<union> answers6 as \<noteq> {}) \<and>
    (\<forall>a. ResolveAddrWithContext H d ctx name = Inr a \<longrightarrow>
       (if ResolveStrategy rc = ''ipv6''
        then a \<in> answers6 as \<or> answers6 as = {} \<and> a \<in> answers4 as
        else a \<in> answers4 as \<or> answers4 as = {} \<and> a \<in> answers6 as))"
  using ResolveAddr_cases [OF assms] by (auto split: if_splits)

definition demo_host :: host_net where
  "demo_host =
     \<lparr>os_Dial = (\<lambda>_ _. Inr 1), os_DialContext = (\<lambda>_ _ _. Inr 2), os_DialTCP = (\<lambda>_. Inr 3),
      os_Listen = (\<lambda>_ _. Inr 4), os_ListenTCP = (\<lambda>_. Inr 5),
      os_LookupHost = (\<lambda>_ _. Inr [''10.0.0.1'', ''fd00::1'']),
      os_rand4 = (\<lambda>i. i), os_rand6 = (\<lambda>i. i)\<rparr>"

definition demo_network :: network where
  "demo_network =
     \<lparr>net_Dial = (\<lambda>_ _. Inr 11), net_DialContext = (\<lambda>_ _ _. Inr 12), net_DialTCP = (\<lambda>_. Inr 13),
      net_ListenTCP = (\<lambda>_. Inr 14), net_LookupContextHost = (\<lambda>_ h. Inl h)\<rparr>"

definition demo_tun :: VirtualTun where
  "demo_tun =
     \<lparr>vt_Name = ''home'', vt_Net = demo_network, vt_Tnet = True, vt_Dev = None, vt_SystemDNS = True,
      vt_Conf = empty_device, vt_ResolveConfig = Some \<lparr>ResolveStrategy = ''ipv6''\<rparr>,
      vt_PingRecord = []\<rparr>"

theorem ResolveAddr_follows_strategy_witness:
  "\<exists>a. ResolveAddrWithContext demo_host demo_tun Background ''a.test'' = Inr a \<and>
     a \<in> answers6 [''10.0.0.1'', ''fd00::1'']"
proof -
  have l: "LookupAddr demo_host demo_tun Background ''a.test'' = Inr [''10.0.0.1'', ''fd00::1'']"
    by (simp add: LookupAddr_def demo_host_def demo_tun_def)
  have rc: "vt_ResolveConfig demo_tun = Some \<lparr>ResolveStrategy = ''ipv6''\<rparr>"
    by (simp add: demo_tun_def)
  have "ParseAddr ''fd00::1'' = Inr (Addr6 [64768, 0, 0, 0, 0, 0, 0, 1] [])" by code_simp
  then have "Addr6 [64768, 0, 0, 0, 0, 0, 0, 1] [] \<in> answers6 [''10.0.0.1'', ''fd00::1'']"
    by (auto simp: answers6_def)
  then show ?thesis using ResolveAddr_follows_strategy [OF l rc] by auto
qed

text \<open>A target address keeps its port. \<^verbatim>\<open>parseAddressPort\<close> accepts exactly the endpoints whose
  port is a decimal number between 0 and 65535, so that narrowing it to 16 bits loses nothing,
  and it reads back every host and port joined by \<^verbatim>\<open>net.JoinHostPort\<close>.\<close>

theorem parseAddressPort_exact:
  "(parseAddressPort ep = Inr ap \<longleftrightarrow>
      (\<exists>s. SplitHostPort ep = Inr (ap_address ap, s) \<and> Atoi s = Inr (uint (ap_port ap)))) \<and>
   (plain_host h \<and> 0 \<le> n \<and> n \<le> 65535 \<longrightarrow>
      parseAddressPort (JoinHostPort h (Itoa n)) = Inr \<lparr>ap_address = h, ap_port = word_of_int n\<rparr>)"
proof
  have "uint (ap_port ap) \<le> 65535" using uint_lt2p [of "ap_port ap"] by simp
  then show "parseAddressPort ep = Inr ap \<longleftrightarrow>
      (\<exists>s. SplitHostPort ep = Inr (ap_address ap, s) \<and> Atoi s = Inr (uint (ap_port ap)))"
    by (auto simp: parseAddressPort_ok uint_port addressPort.equality)
  show "plain_host h \<and> 0 \<le> n \<and> n \<le> 65535 \<longrightarrow>
      parseAddressPort (JoinHostPort h (Itoa n)) = Inr \<lparr>ap_address = h, ap_port = word_of_int n\<rparr>"
    by (auto simp: parseAddressPort_ok SplitHostPort_Join plain_port_Itoa decimal.dec_enc int64_ok_def)
qed

theorem parseAddressPort_exact_witness:
  "parseAddressPort (JoinHostPort ''::1'' (Itoa 8443)) = Inr \<lparr>ap_address = ''::1'', ap_port = 8443\<rparr>"
  using parseAddressPort_exact [of "[]" "\<lparr>ap_address = [], ap_port = 0\<rparr>" "''::1''" 8443]
  by (simp add: plain_host_def)


end
