(* ===== verification/Wireguard.thy ===== *)
theory Wireguard
  imports Virtual_Tun
begin

text \<open>
  The WireGuard back end (\<^verbatim>\<open>wireguard.go\<close>): the IPC request, the netstack adapter and the start
  of a device. The packages \<^verbatim>\<open>netstack\<close>, \<^verbatim>\<open>device\<close> and \<^verbatim>\<open>heredoc\<close> are not part of the repository;
  what they answer is an argument.
\<close>

section \<open>Formatting\<close>

text \<open>\<^verbatim>\<open>fmt.Fprintf\<close> for the verbs the source uses, on arguments already rendered.\<close>

fun Fprintf :: "string \<Rightarrow> string list \<Rightarrow> string" where
  "Fprintf [] as = []"
| "Fprintf [c] as = [c]"
| "Fprintf (c # d # cs) as =
     (if c = CHR ''%'' \<and> (d = CHR ''s'' \<or> d = CHR ''d'') then
        (case as of a # as' \<Rightarrow> a @ Fprintf cs as' | [] \<Rightarrow> ''%!'' @ [d] @ ''(MISSING)'' @ Fprintf cs [])
      else c # Fprintf (d # cs) as)"

abbreviation nl :: char where
  "nl \<equiv> CHR 0x0A"

abbreviation tab :: char where
  "tab \<equiv> CHR 0x09"

section \<open>The IPC request\<close>

record DeviceSetting =
  set_IpcRequest :: string
  set_DNS :: "netip_addr list"
  set_DeviceAddr :: "netip_addr list"
  set_MTU :: int

text \<open>The two raw string literals handed to \<^verbatim>\<open>heredoc.Doc\<close>.\<close>

definition peer_template :: string where
  "peer_template =
     [nl, tab, tab, tab, tab] @ ''public_key=%s'' @
     [nl, tab, tab, tab, tab] @ ''persistent_keepalive_interval=%d'' @
     [nl, tab, tab, tab, tab] @ ''preshared_key=%s'' @ [nl, tab, tab, tab]"

definition default_route_template :: string where
  "default_route_template =
     [nl, tab, tab, tab, tab] @ ''allowed_ip=0.0.0.0/0'' @
     [nl, tab, tab, tab, tab] @ ''allowed_ip=::0/0'' @ [nl, tab, tab, tab]"

text \<open>\<^verbatim>\<open>heredoc.Doc\<close> is documented to remove the common indentation and the first line break.\<close>

definition heredoc_documented :: "(string \<Rightarrow> string) \<Rightarrow> bool" where
  "heredoc_documented doc \<longleftrightarrow>
     doc peer_template =
       ''public_key=%s'' @ [nl] @ ''persistent_keepalive_interval=%d'' @ [nl] @
       ''preshared_key=%s'' @ [nl] \<and>
     doc default_route_template = ''allowed_ip=0.0.0.0/0'' @ [nl] @ ''allowed_ip=::0/0'' @ [nl]"

definition peer_request :: "(string \<Rightarrow> string) \<Rightarrow> PeerConfig \<Rightarrow> string" where
  "peer_request doc peer =
     Fprintf (doc peer_template)
       [peer_PublicKey peer, Itoa (peer_KeepAlive peer), peer_PreSharedKey peer] @
     (case peer_Endpoint peer of
        None \<Rightarrow> []
      | Some e \<Rightarrow> Fprintf (''endpoint=%s'' @ [nl]) [e]) @
     (if peer_AllowedIPs peer \<noteq> [] then
        concat (map (\<lambda>ip. Fprintf (''allowed_ip=%s'' @ [nl]) [Prefix_String ip]) (peer_AllowedIPs peer))
      else doc default_route_template)"

definition CreateIPCRequest :: "(string \<Rightarrow> string) \<Rightarrow> DeviceConfig \<Rightarrow> DeviceSetting res" where
  "CreateIPCRequest doc conf =
     Inr \<lparr>set_IpcRequest =
            Fprintf (''private_key=%s'' @ [nl]) [dev_SecretKey conf] @
            (case dev_ListenPort conf of
               None \<Rightarrow> []
             | Some p \<Rightarrow> Fprintf (''listen_port=%d'' @ [nl]) [Itoa p]) @
            concat (map (peer_request doc) (dev_Peers conf)),
          set_DNS = dev_DNS conf, set_DeviceAddr = dev_Endpoint conf, set_MTU = dev_MTU conf\<rparr>"

section \<open>Starting a device\<close>

text \<open>The answers of the packages: the netstack for addresses, DNS servers and MTU, the results of
  \<^verbatim>\<open>IpcSet\<close> and \<^verbatim>\<open>Up\<close>, and the device.\<close>

record wg_backend =
  wg_CreateNetTUN :: "netip_addr list \<Rightarrow> netip_addr list \<Rightarrow> int \<Rightarrow> network ext"
  wg_IpcSet :: "string \<Rightarrow> unit ext"
  wg_Up :: "unit ext"
  wg_dev :: wg_device

datatype wg_event = NewDevice | IpcSet string | Up | DevClose

text \<open>The adapter \<^verbatim>\<open>netstackNetwork\<close>: every method calls the netstack's of the same name.\<close>

definition netstackNetwork :: "network \<Rightarrow> network" where
  "netstackNetwork tnet =
     \<lparr>net_Dial = (\<lambda>nw address. net_Dial tnet nw address),
      net_DialContext = (\<lambda>ctx nw address. net_DialContext tnet ctx nw address),
      net_DialTCP = (\<lambda>addr. net_DialTCP tnet addr),
      net_ListenTCP = (\<lambda>addr. net_ListenTCP tnet addr),
      net_LookupContextHost = (\<lambda>ctx host. net_LookupContextHost tnet ctx host)\<rparr>"

definition start_strategy :: "netip_addr list \<Rightarrow> string \<Rightarrow> string" where
  "start_strategy addrs strategy =
     (if strategy = ''auto'' then
        (if list_ex Is4 addrs \<and> \<not> list_ex Is6 addrs then ''ipv4'' else ''ipv6'')
      else strategy)"

text \<open>From \<^verbatim>\<open>device.NewDevice\<close> on: the calls made before returning, and the result. The deferred
  function that closes the device unless \<^verbatim>\<open>success\<close> is set comes after them.\<close>

definition configure_device ::
    "wg_backend \<Rightarrow> Configuration \<Rightarrow> DeviceConfig \<Rightarrow> DeviceSetting \<Rightarrow> network \<Rightarrow> wg_event list \<times> VirtualTun res" where
  "configure_device B conf deviceConf setting tnet =
     (case lib (wg_IpcSet B (set_IpcRequest setting)) of
        Inl err \<Rightarrow> ([IpcSet (set_IpcRequest setting)], Inl err)
      | Inr _ \<Rightarrow>
          (case lib (wg_Up B) of
             Inl err \<Rightarrow> ([IpcSet (set_IpcRequest setting), Up], Inl err)
           | Inr _ \<Rightarrow>
               ([IpcSet (set_IpcRequest setting), Up],
                case conf_Resolve conf of
                  None \<Rightarrow> Inl (GoPanic ''nil pointer dereference'')
                | Some resolve \<Rightarrow>
                    Inr \<lparr>vt_Name = conf_Name conf,
                         vt_Net = netstackNetwork tnet,
                         vt_Tnet = True,
                         vt_Dev = Some (wg_dev B),
                         vt_SystemDNS = (set_DNS setting = []),
                         vt_Conf = deviceConf,
                         vt_ResolveConfig =
                           Some (resolve\<lparr>ResolveStrategy :=
                             start_strategy (set_DeviceAddr setting) (ResolveStrategy resolve)\<rparr>),
                         vt_PingRecord = []\<rparr>)))"

definition StartWireguard ::
    "(string \<Rightarrow> string) \<Rightarrow> wg_backend \<Rightarrow> Configuration \<Rightarrow> wg_event list \<times> VirtualTun res" where
  "StartWireguard doc B conf =
     (case conf_Device conf of
        None \<Rightarrow> ([], Inl (GoPanic ''nil pointer dereference''))
      | Some deviceConf \<Rightarrow>
          (case CreateIPCRequest doc deviceConf of
             Inl err \<Rightarrow> ([], Inl err)
           | Inr setting \<Rightarrow>
               (case lib (wg_CreateNetTUN B (set_DeviceAddr setting) (set_DNS setting) (set_MTU setting)) of
                  Inl err \<Rightarrow> ([], Inl err)
                | Inr tnet \<Rightarrow>
                    let (es, r) = configure_device B conf deviceConf setting tnet
                    in (NewDevice # es @ (if isl r then [DevClose] else []), r))))"

section \<open>What the request says\<close>

text \<open>The settings as key and value pairs, in the order of the request.\<close>

definition peer_pairs :: "PeerConfig \<Rightarrow> (string \<times> string) list" where
  "peer_pairs p =
     [(''public_key'', peer_PublicKey p),
      (''persistent_keepalive_interval'', Itoa (peer_KeepAlive p)),
      (''preshared_key'', peer_PreSharedKey p)] @
     (case peer_Endpoint p of None \<Rightarrow> [] | Some e \<Rightarrow> [(''endpoint'', e)]) @
     (if peer_AllowedIPs p = [] then [(''allowed_ip'', ''0.0.0.0/0''), (''allowed_ip'', ''::0/0'')]
      else map (\<lambda>ip. (''allowed_ip'', Prefix_String ip)) (peer_AllowedIPs p))"

definition ipc_pairs :: "DeviceConfig \<Rightarrow> (string \<times> string) list" where
  "ipc_pairs c =
     (''private_key'', dev_SecretKey c) #
     (case dev_ListenPort c of None \<Rightarrow> [] | Some p \<Rightarrow> [(''listen_port'', Itoa p)]) @
     concat (map peer_pairs (dev_Peers c))"

definition ipc_line :: "string \<times> string \<Rightarrow> string" where
  "ipc_line kv = fst kv @ CHR ''='' # snd kv @ [nl]"

text \<open>A reader of such texts: lines at line breaks, key and value at the first equals sign.\<close>

definition ipc_read :: "string \<Rightarrow> string list list" where
  "ipc_read txt = map (\<lambda>l. SplitN2 l (CHR ''='')) (Split txt nl)"

lemma Fprintf_literal:
  "CHR ''%'' \<notin> set p \<Longrightarrow>
   Fprintf (p @ CHR ''%'' # CHR ''s'' # q) (a # as) = p @ a @ Fprintf q as \<and>
   Fprintf (p @ CHR ''%'' # CHR ''d'' # q) (a # as) = p @ a @ Fprintf q as"
proof (induction p)
  case (Cons c p)
  then show ?case by (cases p) auto
qed simp

lemma peer_request_pairs:
  assumes "heredoc_documented doc"
  shows "peer_request doc p = concat (map ipc_line (peer_pairs p))"
proof -
  have f: "concat (map (\<lambda>ip. Fprintf (''allowed_ip=%s'' @ [nl]) [Prefix_String ip]) ips) =
      concat (map ipc_line (map (\<lambda>ip. (''allowed_ip'', Prefix_String ip)) ips))" for ips
    by (induction ips) (simp_all add: ipc_line_def)
  show ?thesis
    using assms f [of "peer_AllowedIPs p"]
    by (simp add: peer_request_def peer_pairs_def heredoc_documented_def ipc_line_def split: option.splits)
qed

lemma CreateIPCRequest_pairs:
  assumes "heredoc_documented doc"
  shows "CreateIPCRequest doc c =
    Inr \<lparr>set_IpcRequest = concat (map ipc_line (ipc_pairs c)),
         set_DNS = dev_DNS c, set_DeviceAddr = dev_Endpoint c, set_MTU = dev_MTU c\<rparr>"
proof -
  have "concat (map (peer_request doc) ps) = concat (map ipc_line (concat (map peer_pairs ps)))" for ps
    by (induction ps) (simp_all add: peer_request_pairs [OF assms])
  then show ?thesis
    by (simp add: CreateIPCRequest_def ipc_pairs_def ipc_line_def split: option.splits)
qed

lemma Split_lines:
  "list_all (\<lambda>l. nl \<notin> set l) ls \<Longrightarrow> Split (concat (map (\<lambda>l. l @ [nl]) ls)) nl = ls @ [[]]"
proof (induction ls)
  case Nil
  show ?case by (simp add: Split_none)
next
  case (Cons l ls)
  then show ?case by (simp add: Split_append)
qed

lemma ipc_read_pairs:
  assumes "list_all (\<lambda>(k, v). CHR ''='' \<notin> set k \<and> nl \<notin> set k \<and> nl \<notin> set v) kvs"
  shows "ipc_read (concat (map ipc_line kvs)) = map (\<lambda>(k, v). [k, v]) kvs @ [[[]]]"
proof -
  have "concat (map ipc_line kvs) = concat (map (\<lambda>l. l @ [nl]) (map (\<lambda>(k, v). k @ CHR ''='' # v) kvs))"
    by (induction kvs) (auto simp: ipc_line_def)
  moreover have "list_all (\<lambda>l. nl \<notin> set l) (map (\<lambda>(k, v). k @ CHR ''='' # v) kvs)"
    using assms by (induction kvs) auto
  ultimately have "ipc_read (concat (map ipc_line kvs)) =
      map (\<lambda>l. SplitN2 l (CHR ''='')) (map (\<lambda>(k, v). k @ CHR ''='' # v) kvs @ [[]])"
    by (simp only: ipc_read_def Split_lines)
  also have "\<dots> = map (\<lambda>(k, v). [k, v]) kvs @ [[[]]]"
    using assms by (induction kvs) (auto simp: SplitN2_pair SplitN2_none)
  finally show ?thesis .
qed

subsection \<open>Values without line breaks\<close>

definition addr_char :: "char \<Rightarrow> bool" where
  "addr_char c = (is_hex_digit c \<or> c \<in> set ''invalid IP'' \<or> c \<in> set ''.:-/'')"

lemma nl_not_addr_char [simp]: "\<not> addr_char nl"
  by (simp add: addr_char_def is_hex_digit_def is_digit_def byte_def)

lemma hex_key_no_nl: "hex_key k \<Longrightarrow> nl \<notin> set k"
  by (auto simp: hex_key_def list_all_iff is_hex_digit_def is_digit_def byte_def)

lemma addr_char_seps [simp]:
  "addr_char (CHR ''.'')" "addr_char (CHR '':'')" "addr_char (CHR ''-'')" "addr_char (CHR ''/'')"
  by (simp_all add: addr_char_def)

lemma digit_addr_char: "is_digit c \<Longrightarrow> addr_char c"
  by (simp add: addr_char_def is_hex_digit_def)

lemma Itoa_addr_chars: "list_all addr_char (Itoa n)"
  using Itoa_chars digit_addr_char addr_char_seps(3) unfolding list_all_iff by blast

lemma join_with_chars: "P c \<Longrightarrow> list_all (list_all P) es \<Longrightarrow> list_all P (join_with c es)"
  by (induction c es rule: join_with.induct) auto

lemma hex_of_chars: "0 \<le> n \<Longrightarrow> list_all addr_char acc \<Longrightarrow> list_all addr_char (hex_of n acc)"
proof (induction n acc rule: hex_of.induct)
  case (1 n acc)
  have d: "addr_char (hex_digit v)" if "0 \<le> v" "v < 16" for v
    using that by (simp add: addr_char_def)
  show ?case
    using 1 d [of n] d [of "n mod 16"] by (subst hex_of.simps) auto
qed

lemma string4_addr_chars: "list_all addr_char (string4 a b c d)"
  unfolding string4_def by (rule join_with_chars) (simp_all add: Itoa_addr_chars)

lemma groups_chars: "list_all addr_char (groups_string gs)"
  unfolding groups_string_def
  by (rule join_with_chars) (simp_all add: list_all_length hex_of_chars [unfolded list_all_length])

lemma Prefix_String_no_nl:
  assumes "\<not> has_zone (prefix_Addr p)"
  shows "nl \<notin> set (Prefix_String p)"
proof -
  have l: "list_all addr_char ''::ffff:''" "list_all addr_char ''invalid IP''"
    "list_all addr_char ''::''" "list_all addr_char ''/''"
    by (simp_all add: addr_char_def is_hex_digit_def is_digit_def byte_def)
  have "list_all addr_char (Addr_String (prefix_Addr p))"
    using assms l
    by (cases "prefix_Addr p")
       (auto simp: string4_addr_chars string4in6_def string6_def groups_chars split: prod.splits)
  then have "list_all addr_char (Prefix_String p)"
    using l by (simp add: Prefix_String_def Itoa_addr_chars)
  then show ?thesis by (auto simp: list_all_iff)
qed

definition ipc_clean :: "DeviceConfig \<Rightarrow> bool" where
  "ipc_clean c =
     list_all (\<lambda>p. (case peer_Endpoint p of None \<Rightarrow> True | Some e \<Rightarrow> nl \<notin> set e) \<and>
                   list_all (\<lambda>ip. \<not> has_zone (prefix_Addr ip)) (peer_AllowedIPs p)) (dev_Peers c)"

lemma Itoa_no_nl: "nl \<notin> set (Itoa n)"
  using Itoa_addr_chars [of n] by (auto simp: list_all_iff)

lemma peer_pairs_clean:
  assumes "wf_peer p" and "case peer_Endpoint p of None \<Rightarrow> True | Some e \<Rightarrow> nl \<notin> set e"
    and "list_all (\<lambda>ip. \<not> has_zone (prefix_Addr ip)) (peer_AllowedIPs p)"
  shows "list_all (\<lambda>(k, v). CHR ''='' \<notin> set k \<and> nl \<notin> set k \<and> nl \<notin> set v) (peer_pairs p)"
  using assms
  by (auto simp: peer_pairs_def wf_peer_def hex_key_no_nl Itoa_no_nl Prefix_String_no_nl list_all_iff
           split: option.splits)

lemma ipc_pairs_clean:
  assumes "wf_device c" and "ipc_clean c"
  shows "list_all (\<lambda>(k, v). CHR ''='' \<notin> set k \<and> nl \<notin> set k \<and> nl \<notin> set v) (ipc_pairs c)"
proof -
  have "list_all (\<lambda>(k, v). CHR ''='' \<notin> set k \<and> nl \<notin> set k \<and> nl \<notin> set v)
      (concat (map peer_pairs (dev_Peers c)))"
    using assms peer_pairs_clean by (fastforce simp: wf_device_def ipc_clean_def list_all_iff)
  then show ?thesis
    using assms(1)
    by (simp add: ipc_pairs_def wf_device_def hex_key_no_nl Itoa_no_nl split: option.splits)
qed

section \<open>Properties\<close>

text \<open>C22: the IPC request says what the configuration says. Read back line by line, it yields exactly
  the settings in order: private key, listen port if any, and for every peer its public key,
  keepalive, preshared key, endpoint if any and allowed addresses, with the two default routes
  when none is configured. The addresses, DNS servers and MTU are passed on unchanged.\<close>

theorem CreateIPCRequest_read_back:
  assumes "heredoc_documented doc" and "wf_device c" and "ipc_clean c"
  shows "\<exists>s. CreateIPCRequest doc c = Inr s \<and>
    ipc_read (set_IpcRequest s) = map (\<lambda>(k, v). [k, v]) (ipc_pairs c) @ [[[]]] \<and>
    set_DeviceAddr s = dev_Endpoint c \<and> set_DNS s = dev_DNS c \<and> set_MTU s = dev_MTU c"
  by (simp add: CreateIPCRequest_pairs [OF assms(1)] ipc_read_pairs [OF ipc_pairs_clean [OF assms(2,3)]])

text \<open>A function that removes the first line break and the tabs after every line break.\<close>

fun untab :: "bool \<Rightarrow> string \<Rightarrow> string" where
  "untab start [] = []"
| "untab start (c # cs) =
     (if start \<and> c = tab then untab True cs else c # untab (c = nl) cs)"

definition demo_doc :: "string \<Rightarrow> string" where
  "demo_doc s = (case s of c # cs \<Rightarrow> if c = nl then untab True cs else untab False s | [] \<Rightarrow> [])"

lemma demo_doc_documented: "heredoc_documented demo_doc"
  by (simp add: heredoc_documented_def demo_doc_def peer_template_def default_route_template_def)

definition demo_device :: DeviceConfig where
  "demo_device =
     empty_device\<lparr>dev_SecretKey := zero_psk, dev_ListenPort := Some 51820,
       dev_Endpoint := [Addr4 10 0 0 2],
       dev_Peers := [\<lparr>peer_PublicKey = zero_psk, peer_PreSharedKey = zero_psk,
                      peer_Endpoint = Some ''192.0.2.1:51820'', peer_KeepAlive = 25,
                      peer_AllowedIPs = []\<rparr>]\<rparr>"

lemma demo_device_wf: "wf_device demo_device"
  by (simp add: demo_device_def empty_device_def wf_device_def wf_peer_def)

lemma demo_device_clean: "ipc_clean demo_device"
  by (simp add: demo_device_def empty_device_def ipc_clean_def)

theorem CreateIPCRequest_read_back_witness:
  "\<exists>s. CreateIPCRequest demo_doc demo_device = Inr s \<and>
     ipc_read (set_IpcRequest s) = map (\<lambda>(k, v). [k, v]) (ipc_pairs demo_device) @ [[[]]]"
  using CreateIPCRequest_read_back [OF demo_doc_documented demo_device_wf demo_device_clean] by blast


text \<open>A started WireGuard tunnel reflects its configuration: its name, device configuration and
  device, the system resolver exactly when no DNS server is configured, an empty ping record,
  and a resolve strategy in which \<^verbatim>\<open>auto\<close> has been replaced: by \<^verbatim>\<open>ipv4\<close> when the tunnel has IPv4
  but no IPv6 addresses, by \<^verbatim>\<open>ipv6\<close> otherwise.\<close>

theorem StartWireguard_tunnel:
  assumes "snd (StartWireguard doc B conf) = Inr vt"
  shows "\<exists>d rc. conf_Device conf = Some d \<and> conf_Resolve conf = Some rc \<and>
    vt_Name vt = conf_Name conf \<and> vt_Conf vt = d \<and> vt_Dev vt = Some (wg_dev B) \<and> vt_Tnet vt \<and>
    (vt_SystemDNS vt \<longleftrightarrow> dev_DNS d = []) \<and> vt_PingRecord vt = [] \<and>
    map_option ResolveStrategy (vt_ResolveConfig vt) =
      Some (if ResolveStrategy rc \<noteq> ''auto'' then ResolveStrategy rc
            else if list_ex Is4 (dev_Endpoint d) \<and> \<not> list_ex Is6 (dev_Endpoint d) then ''ipv4'' else ''ipv6'')"
proof -
  obtain d where d: "conf_Device conf = Some d"
    using assms by (auto simp: StartWireguard_def split: option.splits)
  obtain rc where rc: "conf_Resolve conf = Some rc"
    using assms d
    by (auto simp: StartWireguard_def configure_device_def CreateIPCRequest_def Let_def
             split: option.splits sum.splits prod.splits)
  show ?thesis
    using assms d rc
    by (intro exI [of _ d] exI [of _ rc])
       (auto simp: StartWireguard_def configure_device_def CreateIPCRequest_def start_strategy_def Let_def
             split: sum.splits prod.splits)
qed

definition demo_backend :: wg_backend where
  "demo_backend =
     \<lparr>wg_CreateNetTUN = (\<lambda>_ _ _. Inr demo_network), wg_IpcSet = (\<lambda>_. Inr ()), wg_Up = Inr (),
      wg_dev = \<lparr>ipc_get = Inr []\<rparr>\<rparr>"

definition demo_conf :: Configuration where
  "demo_conf =
     \<lparr>conf_Name = ''home'', conf_Device = Some demo_device, conf_Tailscale = None,
      conf_Routines = [], conf_Resolve = Some \<lparr>ResolveStrategy = ''auto''\<rparr>\<rparr>"

theorem StartWireguard_tunnel_witness:
  "\<exists>vt. snd (StartWireguard demo_doc demo_backend demo_conf) = Inr vt \<and> vt_Name vt = ''home'' \<and>
     vt_SystemDNS vt"
proof -
  obtain vt where vt: "snd (StartWireguard demo_doc demo_backend demo_conf) = Inr vt"
    by (simp add: StartWireguard_def configure_device_def CreateIPCRequest_def demo_backend_def demo_conf_def)
  show ?thesis
    using StartWireguard_tunnel [OF vt] vt by (auto simp: demo_conf_def demo_device_def empty_device_def)
qed

end
