(* ===== verification/Tailscale.thy ===== *)
theory Tailscale
  imports Wireguard
begin

text \<open>
  The Tailscale back end (\<^verbatim>\<open>tailscale.go\<close>, and \<^verbatim>\<open>tailscale_stub.go\<close> for binaries built without
  it) and \<^verbatim>\<open>StartConnection\<close> (\<^verbatim>\<open>connections.go\<close>), which picks the back end. The package \<^verbatim>\<open>tsnet\<close>
  is not part of the repository: a node is known by the answers of its methods.
\<close>

record peer_status =
  ps_DNSName :: string
  ps_HostName :: string
  ps_TailscaleIPs :: "netip_addr list"

text \<open>The peers of a status in the order the range over the Go map visits them; a nil peer is
  \<open>None\<close>.\<close>

record ts_status =
  st_BackendState :: string
  st_Peer :: "peer_status option list"

record tsnet_node =
  node_Dial :: "go_context \<Rightarrow> string \<Rightarrow> string \<Rightarrow> conn ext"
  node_Listen :: "string \<Rightarrow> string \<Rightarrow> listener ext"
  node_LocalClient :: "unit ext"
  node_Status :: "go_context \<Rightarrow> ts_status option ext"

section \<open>The adapter\<close>

definition tsnet_Dial :: "tsnet_node \<Rightarrow> string \<Rightarrow> string \<Rightarrow> conn ext" where
  "tsnet_Dial s network address = node_Dial s Background network address"

definition tsnet_DialContext :: "tsnet_node \<Rightarrow> go_context \<Rightarrow> string \<Rightarrow> string \<Rightarrow> conn ext" where
  "tsnet_DialContext s ctx network address = node_Dial s ctx network address"

definition tsnet_DialTCP :: "tsnet_node \<Rightarrow> tcp_addr option \<Rightarrow> conn ext" where
  "tsnet_DialTCP s addr =
     (case addr of
        None \<Rightarrow> Inl ''dial target is nil''
      | Some a \<Rightarrow> node_Dial s Background ''tcp'' (JoinHostPort (tcp_IP a) (Itoa (tcp_Port a))))"

definition tsnet_ListenTCP :: "tsnet_node \<Rightarrow> tcp_addr option \<Rightarrow> listener ext" where
  "tsnet_ListenTCP s addr =
     (let (host, port) = (case addr of None \<Rightarrow> ([], 0) | Some a \<Rightarrow> (tcp_IP a, tcp_Port a))
      in node_Listen s ''tcp'' (JoinHostPort host (Itoa port)))"

text \<open>The test that decides whether a peer answers to a name.\<close>

definition peer_matches :: "world \<Rightarrow> string \<Rightarrow> peer_status \<Rightarrow> bool" where
  "peer_matches W host p =
     (let dnsName = TrimSuffix (lower W (ps_DNSName p)) ''.'';
          hostname = lower W (ps_HostName p)
      in \<not> (dnsName = [] \<and> hostname = []) \<and>
         (host = dnsName \<or> host = hostname \<or> dnsName \<noteq> [] \<and> HasSuffix dnsName (''.'' @ host)))"

definition lookup_name :: "world \<Rightarrow> string \<Rightarrow> string" where
  "lookup_name W host = TrimSuffix (lower W (TrimSpace host)) ''.''"

definition peer_addrs :: "world \<Rightarrow> string \<Rightarrow> ts_status \<Rightarrow> string list" where
  "peer_addrs W host st =
     concat (map (\<lambda>p. case p of
                         None \<Rightarrow> []
                       | Some p \<Rightarrow>
                           if peer_matches W host p then map Addr_String (ps_TailscaleIPs p) else [])
              (st_Peer st))"

definition tsnet_LookupContextHost ::
    "world \<Rightarrow> host_net \<Rightarrow> tsnet_node \<Rightarrow> go_context \<Rightarrow> string \<Rightarrow> string list ext" where
  "tsnet_LookupContextHost W H s ctx host0 =
     (let host = lookup_name W host0;
          tailnet = (case node_LocalClient s of
                       Inl _ \<Rightarrow> []
                     | Inr _ \<Rightarrow>
                         (case node_Status s ctx of
                            Inr (Some st) \<Rightarrow> peer_addrs W host st
                          | _ \<Rightarrow> []))
      in if tailnet \<noteq> [] then Inr tailnet else os_LookupHost H ctx host)"

definition tsnetNetwork :: "world \<Rightarrow> host_net \<Rightarrow> tsnet_node \<Rightarrow> network" where
  "tsnetNetwork W H s =
     \<lparr>net_Dial = tsnet_Dial s,
      net_DialContext = tsnet_DialContext s,
      net_DialTCP = tsnet_DialTCP s,
      net_ListenTCP = tsnet_ListenTCP s,
      net_LookupContextHost = tsnet_LookupContextHost W H s\<rparr>"

section \<open>Starting a node\<close>

text \<open>What the operating system and the package answer while a node starts: the directory, the
  node, \<^verbatim>\<open>Start\<close>, and one observation per round of the gate loop: the status, and whether the
  time limit was reached in the wait that follows.\<close>

record ts_backend =
  ts_MkdirAll :: "string \<Rightarrow> unit ext"
  ts_node :: tsnet_node
  ts_Start :: "unit ext"
  ts_rounds :: "(string ext \<times> bool) list"

datatype ts_event = MkdirAll string | NewNode string | NodeStart | NodeClose | NodeLog string

text \<open>The loop that waits for the node: the lines it logs, or \<open>None\<close> while no round has ended it.\<close>

fun gate :: "(string ext \<times> bool) list \<Rightarrow> ts_event list option" where
  "gate [] = None"
| "gate ((status, timedOut) # rounds) =
     (case status of
        Inl _ \<Rightarrow> Some []
      | Inr state \<Rightarrow>
          if state = ''Running'' then Some [NodeLog ''tsnet node running'']
          else if state = ''NeedsLogin'' then
            Some [NodeLog ''waiting for Tailscale login; authorize via the printed URL'']
          else if timedOut then Some []
          else gate rounds)"

text \<open>The limit of the context and the pause between two rounds, in milliseconds. Round \<open>k\<close> asks for
  the status after \<open>k\<close> pauses, and \<^verbatim>\<open>Status\<close> fails once the limit of its context has passed.\<close>

definition gate_limit :: nat where
  "gate_limit = 15 * 1000"

definition gate_pause :: nat where
  "gate_pause = 250"

definition within_context :: "(string ext \<times> bool) list \<Rightarrow> bool" where
  "within_context rounds =
     list_all (\<lambda>k. gate_limit \<le> k * gate_pause \<longrightarrow> isl (fst (rounds ! k))) [0..<length rounds]"

definition zero_device :: DeviceConfig where
  "zero_device = empty_device\<lparr>dev_MTU := 0\<rparr>"

definition startTsnet ::
    "world \<Rightarrow> host_net \<Rightarrow> ts_backend \<Rightarrow> string \<Rightarrow> TailscaleConfig \<Rightarrow> (ts_event list \<times> VirtualTun res) option" where
  "startTsnet W H B name conf =
     (let stateDir = EffectiveStateDir W conf name in
      case lib (ts_MkdirAll B stateDir) of
        Inl err \<Rightarrow> Some ([MkdirAll stateDir], Inl (Wrapf ''creating state dir %s: %w'' [stateDir] err))
      | Inr _ \<Rightarrow>
          (case lib (ts_Start B) of
             Inl err \<Rightarrow>
               Some ([MkdirAll stateDir, NewNode stateDir, NodeStart, NodeClose],
                     Inl (Wrapf ''starting tsnet node %q: %w'' [ts_Hostname conf] err))
           | Inr _ \<Rightarrow>
               (case lib (node_LocalClient (ts_node B)) of
                  Inl err \<Rightarrow>
                    Some ([MkdirAll stateDir, NewNode stateDir, NodeStart, NodeClose],
                          Inl (Wrapf ''local api: %w'' [] err))
                | Inr _ \<Rightarrow>
                    (case gate (ts_rounds B) of
                       None \<Rightarrow> None
                     | Some logs \<Rightarrow>
                         Some ([MkdirAll stateDir, NewNode stateDir, NodeStart] @ logs,
                           Inr \<lparr>vt_Name = name, vt_Net = tsnetNetwork W H (ts_node B),
                                vt_Tnet = False, vt_Dev = None, vt_SystemDNS = False,
                                vt_Conf = zero_device,
                                vt_ResolveConfig = Some \<lparr>ResolveStrategy = ''ipv4''\<rparr>,
                                vt_PingRecord = []\<rparr>)))))"

text \<open>The stub of a binary built without the \<^verbatim>\<open>tsnet\<close> tag.\<close>

definition startTsnet_stub :: "string \<Rightarrow> TailscaleConfig \<Rightarrow> (ts_event list \<times> VirtualTun res) option" where
  "startTsnet_stub name conf =
     Some ([], Inl (New (''this binary was built without Tailscale support; rebuild with '' @
       ''`-tags tsnet` (or `make wireproxy-tsnet`)'')))"

text \<open>\<^verbatim>\<open>TailscaleConfig.start\<close> and \<^verbatim>\<open>StartConnection\<close>; \<open>start_ts\<close> is the \<^verbatim>\<open>startTsnet\<close> the build
  selected. The two back ends log different events.\<close>

definition TailscaleConfig_start ::
    "(string \<Rightarrow> TailscaleConfig \<Rightarrow> (ts_event list \<times> VirtualTun res) option) \<Rightarrow> TailscaleConfig \<Rightarrow> string
      \<Rightarrow> (ts_event list \<times> VirtualTun res) option" where
  "TailscaleConfig_start start_ts c name = start_ts name c"

definition StartConnection ::
    "(string \<Rightarrow> TailscaleConfig \<Rightarrow> (ts_event list \<times> VirtualTun res) option) \<Rightarrow>
     (string \<Rightarrow> string) \<Rightarrow> wg_backend \<Rightarrow> ConnectionSpec \<Rightarrow>
     ((ts_event + wg_event) list \<times> VirtualTun res) option" where
  "StartConnection start_ts doc B spec =
     (case conf_Tailscale (spec_Conf spec) of
        Some ts \<Rightarrow>
          map_option (\<lambda>(es, r). (map Inl es, r)) (TailscaleConfig_start start_ts ts (spec_Name spec))
      | None \<Rightarrow>
          (let (es, r) = StartWireguard doc B (spec_Conf spec) in Some (map Inr es, r)))"

section \<open>Networks whose dial functions agree\<close>

text \<open>
  What the routed dialers rely on when they treat \<^verbatim>\<open>Dial\<close> and \<^verbatim>\<open>DialContext\<close> as the same
  operation.
\<close>

locale dialing_network =
  fixes net :: network
  assumes dial_background: "net_Dial net nw a = net_DialContext net Background nw a"
begin

lemma socks5_dial_like_http:
  assumes "vt_Net d = net"
  shows "routedSocks5Dial W H d router Background nw a (hostFromAddr a) =
    (if fst (route W router (hostFromAddr a)) then RoutedDial W H d router nw a
     else (Direct, lib (os_DialContext H Background nw a)))"
  using assms by (simp add: routedSocks5Dial_def RoutedDial_def dial_background)

end

interpretation tsnet: dialing_network "tsnetNetwork W H s" for W H s
  by unfold_locales (simp add: tsnetNetwork_def tsnet_Dial_def tsnet_DialContext_def)

lemma netstackNetwork_id: "netstackNetwork tnet = tnet"
  by (simp add: netstackNetwork_def)

section \<open>Lemmas\<close>

lemma gate_terminates:
  "(\<exists>r \<in> set rounds. isl (fst r) \<or> snd r \<or> fst r \<in> {Inr ''Running'', Inr ''NeedsLogin''}) \<longleftrightarrow>
   gate rounds \<noteq> None"
  by (induction rounds rule: gate.induct) (auto split: sum.splits)

lemma gate_take: "gate (take n rounds) \<noteq> None \<Longrightarrow> gate rounds = gate (take n rounds)"
  by (induction rounds arbitrary: n rule: gate.induct) (auto simp: take_Cons' split: sum.splits if_splits)

lemma gate_in_time:
  assumes "within_context rounds" and "60 < length rounds"
  shows "gate (take 61 rounds) \<noteq> None \<and> gate rounds = gate (take 61 rounds)"
proof -
  have "isl (fst (rounds ! 60))"
    using assms by (simp add: within_context_def list_all_iff gate_limit_def gate_pause_def)
  moreover have "rounds ! 60 \<in> set (take 61 rounds)"
    using assms(2) nth_mem [of 60 "take 61 rounds"] by simp
  ultimately have "gate (take 61 rounds) \<noteq> None" unfolding gate_terminates [symmetric] by blast
  then show ?thesis using gate_take by blast
qed

lemma gate_no_close: "gate rounds = Some logs \<Longrightarrow> NodeClose \<notin> set logs \<and> NewNode d \<notin> set logs"
  by (induction rounds rule: gate.induct) (auto split: sum.splits if_splits)

lemma startTsnet_tunnel:
  "startTsnet W H B name conf = Some (es, Inr vt) \<Longrightarrow>
     vt_Name vt = name \<and> vt_ResolveConfig vt \<noteq> None \<and> vt_Dev vt = None"
  by (auto simp: startTsnet_def Let_def split: sum.splits option.splits)

lemma StartWireguard_resolve:
  "snd (StartWireguard doc B conf) = Inr vt \<Longrightarrow> vt_Name vt = conf_Name conf \<and> vt_ResolveConfig vt \<noteq> None"
  by (auto simp: StartWireguard_def configure_device_def Let_def split: option.splits sum.splits prod.splits)

lemma StartConnection_tunnel:
  assumes "StartConnection (startTsnet W H T) doc B spec = Some (es, Inr vt)" and "wf_spec spec"
  shows "vt_Name vt = spec_Name spec \<and> vt_ResolveConfig vt \<noteq> None"
proof (cases "conf_Tailscale (spec_Conf spec)")
  case None
  then have "snd (StartWireguard doc B (spec_Conf spec)) = Inr vt"
    using assms(1) by (auto simp: StartConnection_def split: prod.splits)
  then show ?thesis
    using StartWireguard_resolve assms(2) by (fastforce simp: wf_spec_def)
next
  case (Some ts)
  then obtain es' where "startTsnet W H T (spec_Name spec) ts = Some (es', Inr vt)"
    using assms(1) by (auto simp: StartConnection_def TailscaleConfig_start_def map_option_Some_iff)
  then show ?thesis by (simp add: startTsnet_tunnel)
qed

lemma safe_ResolveAddr: "vt_ResolveConfig d \<noteq> None \<Longrightarrow> safe (ResolveAddrWithContext H d ctx name)"
  by (auto simp: ResolveAddrWithContext_def LookupAddr_def Let_def
           intro!: safe_ebind split: prod.splits list.splits)

lemma startTsnet_returns:
  "within_context (ts_rounds B) \<Longrightarrow> 60 < length (ts_rounds B) \<Longrightarrow> startTsnet W H B name conf \<noteq> None"
  using gate_in_time [of "ts_rounds B"] by (auto simp: startTsnet_def Let_def split: sum.splits option.splits)

section \<open>Properties\<close>

text \<open>C33: starting a Tailscale node waits only for the gate: \<^verbatim>\<open>startTsnet\<close> returns unless the
  directory, the start and the local client all succeed and no round of the loop sees an error,
  the state \<^verbatim>\<open>Running\<close> or \<^verbatim>\<open>NeedsLogin\<close>, or the time limit. When it returns, the node it created is
  closed exactly when no tunnel is returned.\<close>

theorem startTsnet_releases_node:
  "(startTsnet W H B name conf = None \<longleftrightarrow>
      \<not> isl (ts_MkdirAll B (EffectiveStateDir W conf name)) \<and> \<not> isl (ts_Start B) \<and>
      \<not> isl (node_LocalClient (ts_node B)) \<and>
      \<not> (\<exists>r \<in> set (ts_rounds B). isl (fst r) \<or> snd r \<or> fst r \<in> {Inr ''Running'', Inr ''NeedsLogin''})) \<and>
   (case startTsnet W H B name conf of
      None \<Rightarrow> True
    | Some (es, r) \<Rightarrow>
        count_list es NodeClose =
          (if isl r then count_list es (NewNode (EffectiveStateDir W conf name)) else 0))"
  unfolding gate_terminates
  by (auto simp: startTsnet_def Let_def lib_def count_list_0_iff dest: gate_no_close
           split: sum.splits option.splits)

text \<open>The time limit bounds the start of a Tailscale node. When \<^verbatim>\<open>Status\<close> respects the limit of 15
  seconds of its context, \<^verbatim>\<open>startTsnet\<close> returns after at most 61 rounds of the gate, 250 milliseconds
  apart, whatever the node answers.\<close>

theorem startTsnet_in_time:
  assumes "within_context (ts_rounds B)" and "60 < length (ts_rounds B)"
  shows "startTsnet W H B name conf \<noteq> None \<and>
    startTsnet W H B name conf = startTsnet W H (B\<lparr>ts_rounds := take 61 (ts_rounds B)\<rparr>) name conf"
  using gate_in_time [OF assms] startTsnet_returns [OF assms]
  by (auto simp: startTsnet_def Let_def split: sum.splits option.splits)

definition demo_node :: tsnet_node where
  "demo_node =
     \<lparr>node_Dial = (\<lambda>_ _ _. Inr 21), node_Listen = (\<lambda>_ _. Inr 22), node_LocalClient = Inr (),
      node_Status = (\<lambda>_. Inr (Some \<lparr>st_BackendState = ''Running'',
        st_Peer = [Some \<lparr>ps_DNSName = ''web.tail.ts.net.'', ps_HostName = ''web'',
                         ps_TailscaleIPs = [Addr4 100 64 0 1]\<rparr>]\<rparr>))\<rparr>"

definition slow_backend :: ts_backend where
  "slow_backend =
     \<lparr>ts_MkdirAll = (\<lambda>_. Inr ()), ts_node = demo_node, ts_Start = Inr (),
      ts_rounds = replicate 60 (Inr ''Starting'', False) @ replicate 10 (Inl ''context deadline exceeded'', True)\<rparr>"

theorem startTsnet_in_time_witness:
  "startTsnet sample_world demo_host slow_backend ''ts'' demo_ts_conf \<noteq> None"
proof -
  have "within_context (ts_rounds slow_backend)"
    by (simp add: within_context_def slow_backend_def list_all_iff gate_limit_def gate_pause_def nth_append)
  moreover have "60 < length (ts_rounds slow_backend)" by (simp add: slow_backend_def)
  ultimately show ?thesis using startTsnet_in_time by blast
qed

text \<open>Every tunnel \<^verbatim>\<open>StartConnection\<close> hands to the routines carries the name of its connection,
  and resolving a name through it never dereferences a missing resolve configuration.\<close>

theorem StartConnection_named_and_resolvable:
  assumes "StartConnection (startTsnet W H T) doc B spec = Some (es, Inr vt)" and "wf_spec spec"
  shows "vt_Name vt = spec_Name spec \<and> safe (ResolveAddrWithContext H' vt ctx name)"
  using StartConnection_tunnel [OF assms] by (simp add: safe_ResolveAddr)

definition demo_ts_backend :: ts_backend where
  "demo_ts_backend =
     \<lparr>ts_MkdirAll = (\<lambda>_. Inr ()), ts_node = demo_node, ts_Start = Inr (),
      ts_rounds = [(Inr ''Starting'', False), (Inr ''Running'', False)]\<rparr>"

definition demo_wg_spec :: ConnectionSpec where
  "demo_wg_spec = \<lparr>spec_Name = ''home'', spec_Conf = demo_conf\<rparr>"

theorem StartConnection_named_and_resolvable_witness:
  "\<exists>es vt. StartConnection (startTsnet sample_world demo_host demo_ts_backend) demo_doc demo_backend
      demo_wg_spec = Some (es, Inr vt) \<and> vt_Name vt = ''home''"
proof -
  obtain es vt where r: "StartConnection (startTsnet sample_world demo_host demo_ts_backend) demo_doc
      demo_backend demo_wg_spec = Some (es, Inr vt)"
    by (simp add: StartConnection_def demo_wg_spec_def demo_conf_def StartWireguard_def
                  configure_device_def CreateIPCRequest_def demo_backend_def)
  have "wf_spec demo_wg_spec"
    by (simp add: wf_spec_def demo_wg_spec_def demo_conf_def wf_conf_def demo_device_wf)
  from StartConnection_named_and_resolvable [OF r this] r show ?thesis
    by (auto simp: demo_wg_spec_def)
qed

text \<open>C40: the tailnet answers for parent domains. A name equal to everything after some dot in the
  DNS name of a peer resolves to (among others) that peer's addresses, although it is neither
  the peer's full name nor its host name.\<close>

theorem tailnet_answers_parent_domain:
  assumes "node_LocalClient s = Inr u" and "node_Status s ctx = Inr (Some st)"
    and "Some p \<in> set (st_Peer st)" and "ip \<in> set (ps_TailscaleIPs p)"
    and "TrimSuffix (lower W (ps_DNSName p)) ''.'' = label @ ''.'' @ lookup_name W host"
  shows "\<exists>as. tsnet_LookupContextHost W H s ctx host = Inr as \<and> Addr_String ip \<in> set as"
proof -
  have "HasSuffix (label @ ''.'' @ lookup_name W host) (''.'' @ lookup_name W host)"
    by (auto simp: HasSuffix_iff)
  then have "peer_matches W (lookup_name W host) p"
    by (simp add: peer_matches_def Let_def assms(5))
  then have "Addr_String ip \<in> set (peer_addrs W (lookup_name W host) st)"
    using assms(3,4) by (force simp: peer_addrs_def split: option.splits)
  then show ?thesis
    using assms(1,2) by (auto simp: tsnet_LookupContextHost_def Let_def)
qed

theorem tailnet_answers_parent_domain_witness:
  "\<exists>as. tsnet_LookupContextHost sample_world demo_host demo_node Background ''ts.net'' = Inr as \<and>
     ''100.64.0.1'' \<in> set as"
proof -
  have t: "TrimSuffix (lower sample_world ''web.tail.ts.net.'') ''.'' =
      ''web.tail'' @ ''.'' @ lookup_name sample_world ''ts.net''" by code_simp
  have a: "Addr_String (Addr4 100 64 0 1) = ''100.64.0.1''" by code_simp
  show ?thesis
    using tailnet_answers_parent_domain [of demo_node "()" Background
        "\<lparr>st_BackendState = ''Running'',
          st_Peer = [Some \<lparr>ps_DNSName = ''web.tail.ts.net.'', ps_HostName = ''web'',
                           ps_TailscaleIPs = [Addr4 100 64 0 1]\<rparr>]\<rparr>"
        "\<lparr>ps_DNSName = ''web.tail.ts.net.'', ps_HostName = ''web'',
          ps_TailscaleIPs = [Addr4 100 64 0 1]\<rparr>"
        "Addr4 100 64 0 1" sample_world "''web.tail''" "''ts.net''" demo_host] t a
    by (simp add: demo_node_def)
qed

end
