(* ===== verification/Forwarding.thy ===== *)
theory Forwarding
  imports Tailscale
begin

text \<open>
  The tunnels that plumb one connection to another (\<^verbatim>\<open>routine.go\<close> lines 211--247 and 278--421) and
  the contract every connection handler of the program meets. A handler is described by the
  events it causes; a goroutine it starts is an event, and goroutines started for different
  connections share no state.
\<close>

section \<open>Events\<close>

text \<open>The ends of a copy: a connection, the process' own standard streams behind \<^verbatim>\<open>nopFile\<close>, or a
  connection whose first bytes have been read already and are replayed.\<close>

datatype endpoint = Net conn | Stdin | Stdout | Replay string conn

datatype net_event =
    Dialed conn
  | Wrote endpoint string
  | CloseConn conn
  | Go endpoint endpoint
  | ErrLog string "string list" go_error
  | Listening listener
  | CloseListener listener
  | Accepted conn
  | Dialing string string
  | Responded conn int "(string \<times> string) list" string
  | SentRequest conn "(string \<times> string) list"

text \<open>The last three are used by the HTTP and SNI proxies: a call of the dial callback, a response
  (status, header, body) and a request (header) that was written out.\<close>

fun close_of :: "endpoint \<Rightarrow> net_event list" where
  "close_of (Net c) = [CloseConn c]"
| "close_of (Replay _ c) = [CloseConn c]"
| "close_of _ = []"

text \<open>The bytes an end yields when the connection under it yields \<open>rest\<close>.\<close>

fun bytes_of :: "endpoint \<Rightarrow> string \<Rightarrow> string" where
  "bytes_of (Replay peeked _) rest = peeked @ rest"
| "bytes_of _ rest = rest"

text \<open>\<^verbatim>\<open>connForward\<close>: \<open>rest\<close> is what the source yields before its end or before the error \<open>err\<close>. The
  deferred calls run in reverse order.\<close>

definition connForward :: "endpoint \<Rightarrow> endpoint \<Rightarrow> string \<Rightarrow> string option \<Rightarrow> net_event list" where
  "connForward src dst rest err =
     Wrote dst (bytes_of src rest) #
     (case err of None \<Rightarrow> [] | Some e \<Rightarrow> [ErrLog ''Cannot forward traffic: %s'' [] (External e)]) @
     close_of dst @ close_of src"

section \<open>Handlers\<close>

text \<open>\<^verbatim>\<open>VirtualTun.Errorf\<close> puts the name of the connection in front of a message.\<close>

definition VirtualTun_Errorf :: "VirtualTun \<Rightarrow> string \<Rightarrow> string list \<Rightarrow> go_error \<Rightarrow> net_event" where
  "VirtualTun_Errorf d format args err = ErrLog (''[%s] '' @ format) (vt_Name d # args) err"

declare VirtualTun_Errorf_def [simp]

definition tcpClientForward :: "host_net \<Rightarrow> VirtualTun \<Rightarrow> addressPort \<Rightarrow> conn \<Rightarrow> net_event list" where
  "tcpClientForward H vt raddr c =
     (case resolveToAddrPort H vt raddr of
        Inl err \<Rightarrow> [VirtualTun_Errorf vt ''TCP client tunnel to %s: %s'' [ap_address raddr] err, CloseConn c]
      | Inr target \<Rightarrow>
          (case lib (net_DialTCP (vt_Net vt) (Some (TCPAddrFromAddrPort target))) of
             Inl err \<Rightarrow> [VirtualTun_Errorf vt ''TCP client tunnel to %s: %s'' [AddrPort_String target] err, CloseConn c]
           | Inr sconn \<Rightarrow> [Dialed sconn, Go (Net sconn) (Net c), Go (Net c) (Net sconn)]))"

definition STDIOTcpForward :: "host_net \<Rightarrow> VirtualTun \<Rightarrow> addressPort \<Rightarrow> net_event list" where
  "STDIOTcpForward H vt raddr =
     (case resolveToAddrPort H vt raddr of
        Inl err \<Rightarrow> [VirtualTun_Errorf vt ''name resolution error for %s: %s'' [ap_address raddr] err]
      | Inr target \<Rightarrow>
          (case lib (net_DialTCP (vt_Net vt) (Some (TCPAddrFromAddrPort target))) of
             Inl err \<Rightarrow> [VirtualTun_Errorf vt ''TCP client tunnel to %s (%s): %s''
                        [AddrPort_String target, TCPAddr_String (Some (TCPAddrFromAddrPort target))] err]
           | Inr sconn \<Rightarrow> [Dialed sconn, Go Stdin (Net sconn), Go (Net sconn) Stdout]))"

definition tcpServerForward :: "host_net \<Rightarrow> VirtualTun \<Rightarrow> addressPort \<Rightarrow> conn \<Rightarrow> net_event list" where
  "tcpServerForward H vt raddr c =
     (case resolveToAddrPort H vt raddr of
        Inl err \<Rightarrow> [VirtualTun_Errorf vt ''TCP server tunnel to %s: %s'' [ap_address raddr] err, CloseConn c]
      | Inr target \<Rightarrow>
          (case lib (os_DialTCP H (TCPAddrFromAddrPort target)) of
             Inl err \<Rightarrow> [VirtualTun_Errorf vt ''TCP server tunnel to %s: %s'' [AddrPort_String target] err, CloseConn c]
           | Inr sconn \<Rightarrow> [Dialed sconn, Go (Net sconn) (Net c), Go (Net c) (Net sconn)]))"

section \<open>Accept loops\<close>

text \<open>The loop of every listener: \<open>accepts\<close> are the results of \<^verbatim>\<open>Accept\<close> so far. Each accepted
  connection is handed to a goroutine; the first error ends the loop.\<close>

fun accept_loop :: "VirtualTun \<Rightarrow> (conn \<Rightarrow> net_event list) \<Rightarrow> string \<Rightarrow> conn ext list \<Rightarrow> net_event list" where
  "accept_loop vt serve what [] = []"
| "accept_loop vt serve what (r # rs) =
     (case r of
        Inl e \<Rightarrow> [VirtualTun_Errorf vt (what @ '' accept: %s'') [] (External e)]
      | Inr c \<Rightarrow> Accepted c # serve c @ accept_loop vt serve what rs)"

definition TCPClientTunnel_SpawnRoutine ::
    "host_net \<Rightarrow> VirtualTun \<Rightarrow> TCPClientTunnelConfig \<Rightarrow> conn ext list \<Rightarrow> net_event list" where
  "TCPClientTunnel_SpawnRoutine H vt conf accepts =
     (case parseAddressPort (tcpc_Target conf) of
        Inl err \<Rightarrow> [VirtualTun_Errorf vt ''TCP client tunnel: %s'' [] err]
      | Inr raddr \<Rightarrow>
          (case lib (os_ListenTCP H (tcpc_BindAddress conf)) of
             Inl err \<Rightarrow>
               [VirtualTun_Errorf vt ''TCP client tunnel on %s: %s'' [TCPAddr_String (tcpc_BindAddress conf)] err]
           | Inr server \<Rightarrow>
               Listening server #
               accept_loop vt (tcpClientForward H vt raddr) ''TCP client tunnel'' accepts))"

definition STDIOTunnel_SpawnRoutine :: "host_net \<Rightarrow> VirtualTun \<Rightarrow> STDIOTunnelConfig \<Rightarrow> net_event list" where
  "STDIOTunnel_SpawnRoutine H vt conf =
     (case parseAddressPort (stdio_Target conf) of
        Inl err \<Rightarrow> [VirtualTun_Errorf vt ''STDIO tunnel: %s'' [] err]
      | Inr raddr \<Rightarrow> STDIOTcpForward H vt raddr)"

definition TCPServerTunnel_SpawnRoutine ::
    "host_net \<Rightarrow> VirtualTun \<Rightarrow> TCPServerTunnelConfig \<Rightarrow> conn ext list \<Rightarrow> net_event list" where
  "TCPServerTunnel_SpawnRoutine H vt conf accepts =
     (case parseAddressPort (tcps_Target conf) of
        Inl err \<Rightarrow> [VirtualTun_Errorf vt ''TCP server tunnel: %s'' [] err]
      | Inr raddr \<Rightarrow>
          (case lib (net_ListenTCP (vt_Net vt)
                      (Some \<lparr>tcp_IP = [], tcp_Port = tcps_ListenPort conf, tcp_Zone = []\<rparr>)) of
             Inl err \<Rightarrow>
               [VirtualTun_Errorf vt ''TCP server tunnel on port %d: %s'' [Itoa (tcps_ListenPort conf)] err]
           | Inr server \<Rightarrow>
               Listening server #
               accept_loop vt (tcpServerForward H vt raddr) ''TCP server tunnel'' accepts))"

section \<open>The SOCKS5 server\<close>

text \<open>The options \<^verbatim>\<open>Socks5Config.SpawnRoutine\<close> hands to the SOCKS5 package.\<close>

datatype socks5_auth = NoAuthAuthenticator | UserPassAuthenticator string string

datatype socks5_mode = Legacy | SplitRouting DomainRouter

definition Socks5_auth :: "Socks5Config \<Rightarrow> socks5_auth" where
  "Socks5_auth config =
     (if socks_Username config \<noteq> [] then
        UserPassAuthenticator (socks_Username config) (socks_Password config)
      else NoAuthAuthenticator)"

definition Socks5_mode :: "Socks5Config \<Rightarrow> socks5_mode" where
  "Socks5_mode config =
     (if socks_TunnelDomains config = [] \<and> \<not> socks_LogDomains config then Legacy
      else SplitRouting (NewDomainRouter (socks_TunnelDomains config) (socks_LogDomains config)))"

text \<open>The dial and resolve callbacks the two modes install.\<close>

definition socks5_dial ::
    "world \<Rightarrow> host_net \<Rightarrow> VirtualTun \<Rightarrow> socks5_mode \<Rightarrow> go_context \<Rightarrow> string \<Rightarrow> string \<Rightarrow> string
      \<Rightarrow> via \<times> conn res" where
  "socks5_dial W H vt m ctx network address fqdn =
     (case m of
        Legacy \<Rightarrow> (Tunnel, lib (net_DialContext (vt_Net vt) ctx network address))
      | SplitRouting router \<Rightarrow> routedSocks5Dial W H vt (Some router) ctx network address fqdn)"

definition socks5_resolve ::
    "host_net \<Rightarrow> VirtualTun \<Rightarrow> socks5_mode \<Rightarrow> go_context \<Rightarrow> string \<Rightarrow> (go_context \<times> 8 word list option) res" where
  "socks5_resolve H vt m ctx name =
     (case m of
        Legacy \<Rightarrow> ebind (Resolve H vt ctx name) (\<lambda>(ctx', ip). Inr (ctx', Some ip))
      | SplitRouting _ \<Rightarrow> passthroughResolver_Resolve ctx name)"

definition Socks5_SpawnRoutine ::
    "VirtualTun \<Rightarrow> Socks5Config \<Rightarrow> (socks5_auth \<Rightarrow> socks5_mode \<Rightarrow> string \<Rightarrow> unit ext) \<Rightarrow> net_event list" where
  "Socks5_SpawnRoutine vt config listenAndServe =
     (case listenAndServe (Socks5_auth config) (Socks5_mode config) (socks_BindAddress config) of
        Inl e \<Rightarrow> [VirtualTun_Errorf vt ''socks5 proxy: %s'' [] (External e)]
      | Inr _ \<Rightarrow> [])"

section \<open>The contract of connection handlers\<close>

fun goroutine :: "net_event \<Rightarrow> (endpoint \<times> endpoint) option" where
  "goroutine (Go a b) = Some (a, b)"
| "goroutine _ = None"

definition goroutines :: "net_event list \<Rightarrow> (endpoint \<times> endpoint) list" where
  "goroutines es = List.map_filter goroutine es"

text \<open>
  A handler disposes of its connection: either it closes it, starts nothing and has closed every
  connection it dialled, or it leaves it to exactly two goroutines that copy in both directions
  between it and one dialled connection, and closes nothing itself.
\<close>

definition disposes :: "conn \<Rightarrow> net_event list \<Rightarrow> bool" where
  "disposes c es =
     (CloseConn c \<in> set es \<and> goroutines es = [] \<and>
        (\<forall>p. Dialed p \<in> set es \<longrightarrow> CloseConn p \<in> set es) \<or>
      (\<exists>p client. client \<in> {Net c} \<union> range (\<lambda>pk. Replay pk c) \<and>
         (\<forall>q. Dialed q \<in> set es \<longleftrightarrow> q = p) \<and>
         (\<forall>q. CloseConn q \<notin> set es) \<and>
         set (goroutines es) = {(Net p, client), (client, Net p)} \<and> length (goroutines es) = 2))"

text \<open>The connections an accept loop obtains before its first error.\<close>

definition accepted :: "conn ext list \<Rightarrow> conn list" where
  "accepted rs = map projr (takeWhile (\<lambda>r. \<not> isl r) rs)"

locale conn_handler =
  fixes serve :: "conn \<Rightarrow> net_event list"
  assumes serve_disposes: "disposes c (serve c)"
begin

text \<open>An accept loop serves every accepted connection, in order, up to the first error, and every
  service disposes of its connection.\<close>

lemma accept_loop_disposes:
  "\<exists>tail. accept_loop vt serve what rs = concat (map (\<lambda>c. Accepted c # serve c) (accepted rs)) @ tail \<and>
     list_all (\<lambda>e. \<exists>s. e = VirtualTun_Errorf vt (what @ '' accept: %s'') [] (External s)) tail \<and>
     list_all (\<lambda>c. disposes c (serve c)) (accepted rs)"
proof (induction rs)
  case (Cons r rs)
  then show ?case by (cases r) (auto simp: accepted_def serve_disposes)
qed (simp add: accepted_def)

end

lemma goroutines_simps [simp]:
  "goroutines [] = []"
  "goroutines (e # es) = (case goroutine e of None \<Rightarrow> goroutines es | Some g \<Rightarrow> g # goroutines es)"
  by (simp_all add: goroutines_def map_filter_simps split: option.split)

lemma goroutines_append [simp]: "goroutines (xs @ ys) = goroutines xs @ goroutines ys"
  by (induction xs) (auto split: option.split)

interpretation client_forward: conn_handler "tcpClientForward H vt raddr" for H vt raddr
  by unfold_locales (auto simp: disposes_def tcpClientForward_def split: sum.splits)

interpretation server_forward: conn_handler "tcpServerForward H vt raddr" for H vt raddr
  by unfold_locales (auto simp: disposes_def tcpServerForward_def split: sum.splits)

section \<open>Properties\<close>

text \<open>A TCP client tunnel that listens serves every connection it accepts until accepting fails,
  and disposes of each: a connection whose target cannot be resolved or dialled is closed and
  nothing else is started; otherwise exactly two goroutines copy between it and the dialled
  connection.\<close>

theorem TCPClientTunnel_disposes:
  assumes "parseAddressPort (tcpc_Target conf) = Inr raddr"
    and "os_ListenTCP H (tcpc_BindAddress conf) = Inr server"
  shows "\<exists>tail. TCPClientTunnel_SpawnRoutine H vt conf accepts =
      Listening server #
      concat (map (\<lambda>c. Accepted c # tcpClientForward H vt raddr c) (accepted accepts)) @ tail \<and>
    list_all (\<lambda>e. \<exists>s. e = VirtualTun_Errorf vt ''TCP client tunnel accept: %s'' [] (External s)) tail \<and>
    list_all (\<lambda>c. disposes c (tcpClientForward H vt raddr c)) (accepted accepts)"
  using client_forward.accept_loop_disposes [of vt H vt raddr "''TCP client tunnel''" accepts] assms
  by (simp add: TCPClientTunnel_SpawnRoutine_def)

theorem TCPClientTunnel_disposes_witness:
  "disposes 7 (tcpClientForward demo_host demo_tun \<lparr>ap_address = ''a.test'', ap_port = 80\<rparr> 7)"
proof -
  let ?conf = "\<lparr>tcpc_BindAddress = None, tcpc_Target = ''a.test:80''\<rparr>"
  have "parseAddressPort (tcpc_Target ?conf) = Inr \<lparr>ap_address = ''a.test'', ap_port = 80\<rparr>"
    by code_simp
  moreover have "os_ListenTCP demo_host (tcpc_BindAddress ?conf) = Inr 5"
    by (simp add: demo_host_def)
  ultimately have "list_all (\<lambda>c. disposes c
      (tcpClientForward demo_host demo_tun \<lparr>ap_address = ''a.test'', ap_port = 80\<rparr> c)) (accepted [Inr 7])"
    using TCPClientTunnel_disposes [of ?conf _ demo_host 5 demo_tun "[Inr 7]"] by blast
  then show ?thesis by (simp add: accepted_def)
qed

text \<open>The same for a TCP server tunnel, whose listener is inside the network and whose targets
  are dialled from the host.\<close>

theorem TCPServerTunnel_disposes:
  assumes "parseAddressPort (tcps_Target conf) = Inr raddr"
    and "net_ListenTCP (vt_Net vt)
           (Some \<lparr>tcp_IP = [], tcp_Port = tcps_ListenPort conf, tcp_Zone = []\<rparr>) = Inr server"
  shows "\<exists>tail. TCPServerTunnel_SpawnRoutine H vt conf accepts =
      Listening server #
      concat (map (\<lambda>c. Accepted c # tcpServerForward H vt raddr c) (accepted accepts)) @ tail \<and>
    list_all (\<lambda>e. \<exists>s. e = VirtualTun_Errorf vt ''TCP server tunnel accept: %s'' [] (External s)) tail \<and>
    list_all (\<lambda>c. disposes c (tcpServerForward H vt raddr c)) (accepted accepts)"
  using server_forward.accept_loop_disposes [of vt H vt raddr "''TCP server tunnel''" accepts] assms
  by (simp add: TCPServerTunnel_SpawnRoutine_def)

theorem TCPServerTunnel_disposes_witness:
  "disposes 7 (tcpServerForward demo_host demo_tun \<lparr>ap_address = ''a.test'', ap_port = 80\<rparr> 7)"
proof -
  let ?conf = "\<lparr>tcps_ListenPort = 8080, tcps_Target = ''a.test:80''\<rparr>"
  have "parseAddressPort (tcps_Target ?conf) = Inr \<lparr>ap_address = ''a.test'', ap_port = 80\<rparr>"
    by code_simp
  moreover have "net_ListenTCP (vt_Net demo_tun)
      (Some \<lparr>tcp_IP = [], tcp_Port = tcps_ListenPort ?conf, tcp_Zone = []\<rparr>) = Inr 14"
    by (simp add: demo_tun_def demo_network_def)
  ultimately have "list_all (\<lambda>c. disposes c
      (tcpServerForward demo_host demo_tun \<lparr>ap_address = ''a.test'', ap_port = 80\<rparr> c)) (accepted [Inr 7])"
    using TCPServerTunnel_disposes [of ?conf _ demo_tun 14 demo_host "[Inr 7]"] by blast
  then show ?thesis by (simp add: accepted_def)
qed

text \<open>In its legacy mode the SOCKS5 proxy dials every destination through the tunnel; in
  split mode with no pattern (only logging) it does the same, so that turning on logging never
  changes where traffic goes.\<close>

theorem Socks5_logging_keeps_routes:
  assumes "socks_TunnelDomains config = []"
  shows "socks5_dial W H vt (Socks5_mode config) ctx nw address fqdn =
    (Tunnel, lib (net_DialContext (vt_Net vt) ctx nw address))"
  using assms
  by (simp add: Socks5_mode_def socks5_dial_def routedSocks5Dial_def NewDomainRouter_def Let_def)

theorem Socks5_logging_keeps_routes_witness:
  "socks5_dial sample_world demo_host demo_tun
     (Socks5_mode \<lparr>socks_BindAddress = '':1080'', socks_Username = [], socks_Password = [],
                   socks_TunnelDomains = [], socks_LogDomains = True\<rparr>)
     Background ''tcp'' ''a.test:80'' ''a.test'' = (Tunnel, Inr 12)"
  by (subst Socks5_logging_keeps_routes) (simp_all add: demo_tun_def demo_network_def)

end
