(* ===== verification/Ping.thy ===== *)
theory Ping
  imports Forwarding
begin

text \<open>
  The liveness probes (\<^verbatim>\<open>routine.go\<close> lines 452--558). The Go map \<^verbatim>\<open>PingRecord\<close> is an association
  list from the text of an address to a time in seconds. Sockets, random bytes and the ICMP
  package are arguments.
\<close>

section \<open>Durations\<close>

text \<open>Arithmetic on \<^verbatim>\<open>time.Duration\<close> wraps around at 64 bits.\<close>

definition wrap64 :: "int \<Rightarrow> int" where
  "wrap64 x = (x + 2 ^ 63) mod 2 ^ 64 - 2 ^ 63"

definition second :: int where
  "second = 1000000000"

lemma wrap64_id: "- (2 ^ 63) \<le> x \<Longrightarrow> x < 2 ^ 63 \<Longrightarrow> wrap64 x = x"
  by (simp add: wrap64_def)

section \<open>One probe\<close>

datatype icmp_body = Echo int string | OtherBody string

record ping_env =
  pg_Dial :: "string \<Rightarrow> unit ext"
  pg_random :: "string \<Rightarrow> string ext"
  pg_seq :: "string \<Rightarrow> int"
  pg_Write :: "string \<Rightarrow> unit ext"
  pg_Read :: "string \<Rightarrow> string ext"
  pg_ParseMessage :: "int \<Rightarrow> string \<Rightarrow> icmp_body ext"
  pg_now :: "string \<Rightarrow> 64 word"

definition ping_data :: "ping_env \<Rightarrow> string \<Rightarrow> string" where
  "ping_data E a = (case pg_random E a of Inl _ \<Rightarrow> replicate 16 (CHR 0x00) | Inr data \<Rightarrow> data)"

definition ping_proto :: "netip_addr \<Rightarrow> int option" where
  "ping_proto addr = (if Is4 addr then Some 1 else if Is6 addr then Some 58 else None)"

text \<open>The read deadline of a probe.\<close>

definition ping_deadline :: "VirtualTun \<Rightarrow> int" where
  "ping_deadline d = wrap64 (dev_CheckAliveInterval (vt_Conf d) * second)"

datatype ping_event =
    SocketDial string
  | SocketDeadline string int
  | SocketClose string
  | PingLog net_event

text \<open>What the goroutine of a probe logs, and the time it stores, if any: the time of a reply that
  carries the data and sequence number of the request. The last argument of a log line stands where
  an error stands in the others; a reply is represented there by its data.\<close>

definition ping_reply :: "ping_env \<Rightarrow> VirtualTun \<Rightarrow> string \<Rightarrow> int \<Rightarrow> ping_event list \<times> 64 word option" where
  "ping_reply E d a proto =
     (case lib (pg_Write E a) of
        Inl err \<Rightarrow> ([PingLog (VirtualTun_Errorf d ''failed to ping %s: %s'' [a] err)], None)
      | Inr _ \<Rightarrow>
          (case pg_Read E a of
             Inl _ \<Rightarrow> ([], None)
           | Inr reply \<Rightarrow>
               (case lib (pg_ParseMessage E proto reply) of
                  Inl err \<Rightarrow>
                    ([PingLog (VirtualTun_Errorf d ''failed to parse ping response from %s: %s'' [a] err)], None)
                | Inr (OtherBody t) \<Rightarrow>
                    ([PingLog (VirtualTun_Errorf d ''failed to parse ping response from %s: invalid reply type: %s''
                         [a] (New t))], None)
                | Inr (Echo seq data) \<Rightarrow>
                    if data \<noteq> ping_data E a \<or> seq \<noteq> pg_seq E a then
                      ([PingLog (VirtualTun_Errorf d ''failed to parse ping response from %s: invalid ping reply: %v''
                           [a] (New data))], None)
                    else ([], Some (pg_now E a)))))"

text \<open>One probe, with the socket it opens.\<close>

definition ping_probe :: "ping_env \<Rightarrow> VirtualTun \<Rightarrow> netip_addr \<Rightarrow> ping_event list \<times> 64 word option" where
  "ping_probe E d addr =
     (let a = Addr_String addr in
      case lib (pg_Dial E a) of
        Inl err \<Rightarrow> ([PingLog (VirtualTun_Errorf d ''failed to ping %s: %s'' [a] err)], None)
      | Inr _ \<Rightarrow>
          (case ping_proto addr of
             None \<Rightarrow>
               ([SocketDial a,
                 PingLog (VirtualTun_Errorf d ''failed to ping %s: invalid address: %s'' [a] (New a)),
                 SocketClose a], None)
           | Some proto \<Rightarrow>
               (let (es, stored) = ping_reply E d a proto in
                ([SocketDial a, SocketDeadline a (ping_deadline d)] @ es @ [SocketClose a], stored))))"

text \<open>The critical section at the end of a probe.\<close>

definition ping_store :: "netip_addr \<Rightarrow> 64 word \<Rightarrow> VirtualTun \<Rightarrow> VirtualTun" where
  "ping_store addr t d = d\<lparr>vt_PingRecord := AList.update (Addr_String addr) t (vt_PingRecord d)\<rparr>"

text \<open>One round, when its probes end in the order of the addresses.\<close>

definition pingIPs :: "ping_env \<Rightarrow> VirtualTun \<Rightarrow> VirtualTun" where
  "pingIPs E d =
     fold (\<lambda>addr d'. case snd (ping_probe E d addr) of None \<Rightarrow> d' | Some t \<Rightarrow> ping_store addr t d')
       (dev_CheckAlive (vt_Conf d)) d"

section \<open>The loop\<close>

text \<open>The seeding \<^verbatim>\<open>StartPingIPs\<close> does before its goroutine, if it starts one at all.\<close>

definition StartPingIPs :: "64 word \<Rightarrow> VirtualTun \<Rightarrow> VirtualTun \<times> bool" where
  "StartPingIPs now d =
     (if \<not> vt_Tnet d \<or> dev_CheckAlive (vt_Conf d) = [] then (d, False)
      else
        (d\<lparr>vt_PingRecord :=
             fold (\<lambda>addr m. AList.update (Addr_String addr) now m)
               (dev_CheckAlive (vt_Conf d)) (vt_PingRecord d)\<rparr>, True))"

text \<open>How long the goroutine sleeps between rounds.\<close>

definition ping_sleep :: "VirtualTun \<Rightarrow> int" where
  "ping_sleep d =
     (let interval = dev_CheckAliveInterval (vt_Conf d);
          interval = (if interval < 1 then 1 else interval)
      in wrap64 (interval * second))"

text \<open>The states of the ping record: seeded, then updated by the probe goroutines. Probes of one
  round run concurrently and may still be waiting when the next round starts, so any probe of any
  \<^verbatim>\<open>CheckAlive\<close> address may store its time next.\<close>

inductive ping_step :: "VirtualTun \<Rightarrow> VirtualTun \<Rightarrow> bool" where
  probe: "addr \<in> set (dev_CheckAlive (vt_Conf d)) \<Longrightarrow> snd (ping_probe E d addr) = Some t \<Longrightarrow>
    ping_step d (ping_store addr t d)"

inductive_cases ping_stepE [elim]: "ping_step d d'"

definition ping_seeded :: "VirtualTun \<Rightarrow> bool" where
  "ping_seeded d =
     (\<exists>now d0. vt_PingRecord d0 = [] \<and> StartPingIPs now d0 = (d, True))"

definition ping_inv :: "VirtualTun \<Rightarrow> bool" where
  "ping_inv d =
     (fst ` set (vt_PingRecord d) = Addr_String ` set (dev_CheckAlive (vt_Conf d)) \<and>
      distinct (map fst (vt_PingRecord d)))"

lemma fold_update_keys:
  "fst ` set (fold (\<lambda>a m. AList.update (g a) t m) as m) = fst ` set m \<union> g ` set as"
  by (induction as arbitrary: m) (auto simp: dom_update)

lemma fold_update_distinct:
  "distinct (map fst m) \<Longrightarrow> distinct (map fst (fold (\<lambda>a m. AList.update (g a) t m) as m))"
  by (induction as arbitrary: m) (auto simp: distinct_update)

lemma ping_store_conf [simp]: "vt_Conf (ping_store addr t d) = vt_Conf d"
  by (simp add: ping_store_def)

text \<open>A round is a sequence of steps.\<close>

lemma ping_probe_stores: "snd (ping_probe E d addr) = snd (ping_probe E d' addr)"
  by (simp add: ping_probe_def ping_reply_def Let_def split: sum.split option.split icmp_body.split)

lemma round_steps:
  "set as \<subseteq> set (dev_CheckAlive (vt_Conf d)) \<Longrightarrow>
   rtranclp ping_step d
     (fold (\<lambda>addr d'. case snd (ping_probe E d0 addr) of None \<Rightarrow> d' | Some t \<Rightarrow> ping_store addr t d') as d)"
proof (induction as arbitrary: d)
  case (Cons a as)
  show ?case
  proof (cases "snd (ping_probe E d0 a)")
    case (Some t)
    then have "ping_step d (ping_store a t d)"
      using Cons.prems ping_probe_stores [of E d a d0] by (auto intro: ping_step.probe)
    moreover have "rtranclp ping_step (ping_store a t d)
        (fold (\<lambda>addr d'. case snd (ping_probe E d0 addr) of None \<Rightarrow> d' | Some t \<Rightarrow> ping_store addr t d') as (ping_store a t d))"
      using Cons by simp
    ultimately show ?thesis by (simp add: Some converse_rtranclp_into_rtranclp)
  qed (use Cons in simp)
qed simp

lemma pingIPs_steps: "rtranclp ping_step d (pingIPs E d)"
  unfolding pingIPs_def by (rule round_steps) simp

lemma seed_inv: "ping_seeded d \<Longrightarrow> ping_inv d"
proof -
  assume "ping_seeded d"
  then obtain now d0 where d0: "vt_PingRecord d0 = []" "StartPingIPs now d0 = (d, True)"
    by (auto simp: ping_seeded_def)
  then have d: "d = d0\<lparr>vt_PingRecord :=
      fold (\<lambda>a m. AList.update (Addr_String a) now m) (dev_CheckAlive (vt_Conf d0)) []\<rparr>"
    by (auto simp: StartPingIPs_def split: if_splits)
  then show ?thesis
    by (simp add: ping_inv_def fold_update_keys fold_update_distinct)
qed

lemma ping_store_inv:
  "ping_inv d \<Longrightarrow> addr \<in> set (dev_CheckAlive (vt_Conf d)) \<Longrightarrow> ping_inv (ping_store addr t d)"
  by (auto simp: ping_inv_def ping_store_def dom_update distinct_update)

interpretation ping: invariant_system ping_seeded ping_step ping_inv
  by unfold_locales (auto intro: seed_inv ping_store_inv)

lemma wrap64_overflow: "wrap64 (10 ^ 10 * second) < 0"
  by (simp add: wrap64_def second_def)

section \<open>Properties\<close>

text \<open>After \<^verbatim>\<open>StartPingIPs\<close> and any number of probes, ending in any order and with any replies,
  the ping record holds exactly one entry for every \<^verbatim>\<open>CheckAlive\<close> address and none for anything
  else; and the same after one more whole round.\<close>

theorem ping_record_domain:
  assumes "StartPingIPs now d0 = (d, True)" and "vt_PingRecord d0 = []" and "rtranclp ping_step d d'"
  shows "\<forall>d'' \<in> {d', pingIPs E d'}.
    fst ` set (vt_PingRecord d'') = Addr_String ` set (dev_CheckAlive (vt_Conf d'')) \<and>
    distinct (map fst (vt_PingRecord d''))"
proof -
  have s: "ping_seeded d" using assms(1,2) by (auto simp: ping_seeded_def)
  have "rtranclp ping_step d (pingIPs E d')" using assms(3) pingIPs_steps by (rule rtranclp_trans)
  then have "ping_inv d' \<and> ping_inv (pingIPs E d')" using ping.inv_reachable [OF s] assms(3) by blast
  then show ?thesis by (simp add: ping_inv_def)
qed

definition demo_alive :: VirtualTun where
  "demo_alive = demo_tun\<lparr>vt_Conf := empty_device\<lparr>dev_CheckAlive := [Addr4 10 0 0 1], dev_CheckAliveInterval := 5\<rparr>\<rparr>"

theorem ping_record_domain_witness:
  "fst ` set (vt_PingRecord (fst (StartPingIPs 100 demo_alive))) = {Addr_String (Addr4 10 0 0 1)}"
proof -
  have s: "StartPingIPs 100 demo_alive = (fst (StartPingIPs 100 demo_alive), True)"
    by (simp add: StartPingIPs_def demo_alive_def demo_tun_def)
  have e: "vt_PingRecord demo_alive = []" by (simp add: demo_alive_def demo_tun_def)
  have c: "dev_CheckAlive (vt_Conf (fst (StartPingIPs 100 demo_alive))) = [Addr4 10 0 0 1]"
    by (simp add: StartPingIPs_def demo_alive_def)
  show ?thesis using ping_record_domain [OF s e rtranclp.rtrancl_refl] by (auto simp: c)
qed

text \<open>C31: a probe owns its socket. Every socket a probe opens is closed exactly once, as its last
  action, on every path; a probe that opens none only logs. It stores a time only for a reply with
  the data and the sequence number of its request, received over the protocol of the address's
  family.\<close>

theorem ping_probe_releases:
  "(case fst (ping_probe E d addr) of
      SocketDial a # es \<Rightarrow>
        a = Addr_String addr \<and> last es = SocketClose a \<and> count_list es (SocketClose a) = 1 \<and> SocketDial a \<notin> set es
    | es \<Rightarrow> list_all (\<lambda>e. \<exists>l. e = PingLog l) es \<and> snd (ping_probe E d addr) = None) \<and>
   (snd (ping_probe E d addr) = Some t \<longleftrightarrow>
     (\<exists>proto reply. pg_Dial E (Addr_String addr) = Inr () \<and> ping_proto addr = Some proto \<and>
        pg_Write E (Addr_String addr) = Inr () \<and> pg_Read E (Addr_String addr) = Inr reply \<and>
        pg_ParseMessage E proto reply =
          Inr (Echo (pg_seq E (Addr_String addr)) (ping_data E (Addr_String addr))) \<and>
        t = pg_now E (Addr_String addr)))"
proof -
  have reply: "\<forall>e \<in> set (fst (ping_reply E d a proto)). \<exists>l. e = PingLog l" for a proto
    by (auto simp: ping_reply_def split: sum.split icmp_body.split)
  have "SocketClose a \<notin> set (fst (ping_reply E d a proto)) \<and> SocketDial a \<notin> set (fst (ping_reply E d a proto))" for a proto
    using reply by blast
  then show ?thesis
    by (auto simp: ping_probe_def Let_def case_prod_beta count_list_0_iff split: sum.split option.split)
       (auto simp: ping_reply_def lib_def split: sum.splits icmp_body.splits if_splits)
qed

text \<open>C32: with an interval as \<^verbatim>\<open>parseInterfaceSection\<close> accepts it, the pause between probe rounds is
  that many seconds, so the loop never spins. The pause is not bounded below in general: an
  interval that only passed \<^verbatim>\<open>applyInterfaceOverrides\<close>, which does not check it, can overflow to
  a negative duration.\<close>

theorem ping_sleep_bounds:
  "(parseInterfaceSection W sec dev = Inr (vt_Conf d) \<longrightarrow>
      ping_sleep d = dev_CheckAliveInterval (vt_Conf d) * second \<and> second \<le> ping_sleep d) \<and>
   (dev_CheckAliveInterval (vt_Conf d') = 10 ^ 10 \<longrightarrow> ping_sleep d' < 0)"
proof (intro conjI impI)
  assume "parseInterfaceSection W sec dev = Inr (vt_Conf d)"
  then have i: "1 \<le> dev_CheckAliveInterval (vt_Conf d)" "dev_CheckAliveInterval (vt_Conf d) \<le> 86400"
    using parseInterfaceSection_interval by blast+
  then show "ping_sleep d = dev_CheckAliveInterval (vt_Conf d) * second" "second \<le> ping_sleep d"
    by (simp_all add: ping_sleep_def second_def wrap64_id)
next
  assume "dev_CheckAliveInterval (vt_Conf d') = 10 ^ 10"
  then show "ping_sleep d' < 0" using wrap64_overflow by (simp add: ping_sleep_def Let_def)
qed

theorem ping_sleep_bounds_witness:
  "(\<exists>c. parseInterfaceSection demo_world (hd demo_sections) empty_device = Inr c \<and>
      second \<le> ping_sleep (demo_tun\<lparr>vt_Conf := c\<rparr>)) \<and>
   ping_sleep (demo_tun\<lparr>vt_Conf := empty_device\<lparr>dev_CheckAliveInterval := 10 ^ 10\<rparr>\<rparr>) < 0"
proof -
  have "\<not> isl (parseInterfaceSection demo_world (hd demo_sections) empty_device)" by code_simp
  then obtain c where c: "parseInterfaceSection demo_world (hd demo_sections) empty_device = Inr c"
    unfolding isl_iff by auto
  show ?thesis
    using c ping_sleep_bounds [of demo_world "hd demo_sections" empty_device "demo_tun\<lparr>vt_Conf := c\<rparr>"
        "demo_tun\<lparr>vt_Conf := empty_device\<lparr>dev_CheckAliveInterval := 10 ^ 10\<rparr>\<rparr>"]
    by auto
qed

end
