(* ===== verification/Health.thy ===== *)
theory Health
  imports Ping "HOL-Library.List_Lexorder" "HOL-Library.Char_ord"
begin

text \<open>
  The health endpoint (\<^verbatim>\<open>health.go\<close>, \<^verbatim>\<open>routine.go\<close> lines 444--450). Every method holds the
  registry's mutex while it touches the list of connections, so each is one atomic step. Go
  compares strings byte by byte, which is the lexicographic order on lists of characters.
\<close>

section \<open>The registry\<close>

record HealthRegistry =
  conns :: "VirtualTun list"

definition NewHealthRegistry :: HealthRegistry where
  "NewHealthRegistry = \<lparr>conns = []\<rparr>"

definition HealthRegistry_Add :: "VirtualTun \<Rightarrow> HealthRegistry \<Rightarrow> HealthRegistry" where
  "HealthRegistry_Add vt h = h\<lparr>conns := conns h @ [vt]\<rparr>"

definition HealthRegistry_Count :: "HealthRegistry \<Rightarrow> nat" where
  "HealthRegistry_Count h = length (conns h)"

section \<open>Snapshots\<close>

record pingSnapshot =
  snap_name :: string
  snap_checkAlive :: bool
  snap_interval :: int
  snap_records :: "(string \<times> 64 word) list"

text \<open>\<^verbatim>\<open>time.Since\<close> of a record: the difference in nanoseconds, saturated at the ends of
  \<^verbatim>\<open>time.Duration\<close>; \<open>now\<close> is the clock in nanoseconds.\<close>

definition since :: "int \<Rightarrow> 64 word \<Rightarrow> int" where
  "since now rec_time = max (- (2 ^ 63)) (min (2 ^ 63 - 1) (now - sint rec_time * second))"

definition stale :: "int \<Rightarrow> pingSnapshot \<Rightarrow> bool" where
  "stale now s =
     (snap_checkAlive s \<and>
      list_ex (\<lambda>(_, rec_time). since now rec_time > wrap64 (wrap64 (snap_interval s + 2) * second))
        (snap_records s))"

definition snapshot_of :: "VirtualTun \<Rightarrow> pingSnapshot" where
  "snapshot_of vt =
     \<lparr>snap_name = vt_Name vt,
      snap_checkAlive = (dev_CheckAlive (vt_Conf vt) \<noteq> [] \<and> vt_Dev vt \<noteq> None),
      snap_interval = dev_CheckAliveInterval (vt_Conf vt),
      snap_records = vt_PingRecord vt\<rparr>"

text \<open>\<^verbatim>\<open>sort.Slice\<close> by name; names of registered connections differ, so the order among equal
  names, which Go leaves open, does not matter.\<close>

definition snapshot :: "HealthRegistry \<Rightarrow> pingSnapshot list" where
  "snapshot h = sort_key snap_name (map snapshot_of (conns h))"

definition snapshotConns :: "HealthRegistry \<Rightarrow> VirtualTun list" where
  "snapshotConns h = sort_key vt_Name (conns h)"

section \<open>Reports\<close>

text \<open>\<^verbatim>\<open>encoding/json\<close> on a map from names to maps from strings to numbers: keys in order, strings
  escaped.\<close>

definition json_escape :: "int \<times> string \<Rightarrow> string" where
  "json_escape rb =
     (let r = fst rb;
          u = (\<lambda>n. CHR 0x5C # ''u00'' @ [hex_digit (n div 16), hex_digit (n mod 16)]) in
      if r = 34 then [CHR 0x5C, CHR 0x22]
      else if r = 92 then [CHR 0x5C, CHR 0x5C]
      else if r = 8 then [CHR 0x5C, CHR ''b'']
      else if r = 12 then [CHR 0x5C, CHR ''f'']
      else if r = 10 then [CHR 0x5C, CHR ''n'']
      else if r = 13 then [CHR 0x5C, CHR ''r'']
      else if r = 9 then [CHR 0x5C, CHR ''t'']
      else if r < 32 \<or> r = 60 \<or> r = 62 \<or> r = 38 then u r
      else if r = 8232 then CHR 0x5C # ''u2028''
      else if r = 8233 then CHR 0x5C # ''u2029''
      else if r = 65533 \<and> length (snd rb) = 1 then CHR 0x5C # ''ufffd''
      else snd rb)"

definition json_string :: "string \<Rightarrow> string" where
  "json_string s = CHR 0x22 # concat (map json_escape (runes s)) @ [CHR 0x22]"

definition json_object :: "(string \<times> string) list \<Rightarrow> string" where
  "json_object kvs =
     CHR 0x7B # join_with (CHR '','') (map (\<lambda>(k, v). json_string k @ CHR '':'' # v) (sort_key fst kvs)) @
     [CHR 0x7D]"

definition json_Marshal :: "(string \<times> (string \<times> 64 word) list) list \<Rightarrow> string res" where
  "json_Marshal report =
     Inr (json_object (map (\<lambda>(n, rs). (n, json_object (map (\<lambda>(k, w). (k, utoa (uint w) [])) rs))) report))"

text \<open>\<^verbatim>\<open>writeRedactedIpc\<close>: what it appends to the buffer. A line without an equals sign is written
  without its line break.\<close>

definition secret_keys :: "string list" where
  "secret_keys = [''private_key'', ''preshared_key'']"

definition redact_line :: "string \<Rightarrow> string" where
  "redact_line peer =
     (case SplitN2 peer (CHR ''='') of
        [k, v] \<Rightarrow> k @ ''='' @ (if k \<in> set secret_keys then ''REDACTED'' else v) @ [nl]
      | _ \<Rightarrow> peer)"

definition writeRedactedIpc :: "string \<Rightarrow> string" where
  "writeRedactedIpc ipc = concat (map redact_line (Split ipc nl))"

definition metrics_of :: "VirtualTun \<Rightarrow> string" where
  "metrics_of vt =
     ''# connection: '' @ vt_Name vt @ [nl] @
     (case vt_Dev vt of
        None \<Rightarrow> ''# metrics unavailable for this connection type'' @ [nl]
      | Some dev \<Rightarrow> (case ipc_get dev of Inl _ \<Rightarrow> [] | Inr get \<Rightarrow> writeRedactedIpc get))"

text \<open>The status and body \<^verbatim>\<open>ServeHTTP\<close> answers with for a request path.\<close>

definition readyz :: "int \<Rightarrow> HealthRegistry \<Rightarrow> int \<times> string" where
  "readyz now h =
     (let snaps = snapshot h;
          report = fold (\<lambda>snap m. AList.update (snap_name snap) (snap_records snap) m) snaps [];
          status = (if list_ex (stale now) snaps then 503 else 200)
      in case json_Marshal report of
           Inl _ \<Rightarrow> (500, [])
         | Inr body \<Rightarrow> (status, body @ [nl]))"

definition HealthRegistry_ServeHTTP :: "int \<Rightarrow> HealthRegistry \<Rightarrow> string \<Rightarrow> int \<times> string" where
  "HealthRegistry_ServeHTTP now h url =
     (let p = Clean url in
      if p = ''/readyz'' then readyz now h
      else if p = ''/metrics'' then (200, concat (map metrics_of (snapshotConns h)))
      else (404, []))"

definition VirtualTun_ServeHTTP :: "int \<Rightarrow> VirtualTun \<Rightarrow> string \<Rightarrow> int \<times> string" where
  "VirtualTun_ServeHTTP now d url =
     HealthRegistry_ServeHTTP now (HealthRegistry_Add d NewHealthRegistry) url"

section \<open>Lemmas\<close>

lemma sort_key_unique:
  assumes "mset xs = mset ys" and "distinct (map f xs)"
  shows "sort_key f xs = sort_key f ys"
proof -
  have s: "set xs = set ys" using assms(1) by (metis set_mset_mset)
  have "mset (map f xs) = mset (map f ys)" using assms(1) by simp
  then have d: "distinct (map f ys)" using assms(2) mset_eq_imp_distinct_iff by blast
  have m: "mset (map f (sort_key f zs)) = mset (map f zs)" for zs
    by (metis mset_map mset_sort)
  show ?thesis
  proof (rule map_sorted_distinct_set_unique [where f = f])
    show "inj_on f (set (sort_key f xs) \<union> set (sort_key f ys))"
      using assms(2) s by (simp add: distinct_map)
    show "distinct (map f (sort_key f xs))" using m [of xs] assms(2) mset_eq_imp_distinct_iff by blast
    show "distinct (map f (sort_key f ys))" using m [of ys] d mset_eq_imp_distinct_iff by blast
  qed (simp_all add: s)
qed

lemma snapshot_names: "map snap_name (map snapshot_of vts) = map vt_Name vts"
  by (simp add: snapshot_of_def)

lemma ServeHTTP_order_independent:
  assumes "mset (conns h) = mset (conns h')" and "distinct (map vt_Name (conns h))"
  shows "HealthRegistry_ServeHTTP now h url = HealthRegistry_ServeHTTP now h' url"
proof -
  have "mset (map snapshot_of (conns h)) = mset (map snapshot_of (conns h'))"
    using assms(1) by simp
  then have "snapshot h = snapshot h'"
    unfolding snapshot_def by (rule sort_key_unique) (simp only: snapshot_names assms(2))
  moreover have "snapshotConns h = snapshotConns h'"
    unfolding snapshotConns_def using assms by (rule sort_key_unique)
  ultimately show ?thesis by (simp add: HealthRegistry_ServeHTTP_def readyz_def Let_def)
qed

lemma list_ex_sort_key [simp]: "list_ex P (sort_key f xs) \<longleftrightarrow> list_ex P xs"
  by (simp add: list_ex_iff)

lemma redact_line_secret:
  "k \<in> set secret_keys \<Longrightarrow> redact_line (k @ ''='' @ v) = k @ ''=REDACTED'' @ [nl]"
proof -
  assume k: "k \<in> set secret_keys"
  then have "CHR ''='' \<notin> set k" by (auto simp: secret_keys_def)
  then show ?thesis using k by (simp add: redact_line_def SplitN2_pair)
qed

text \<open>Two lines that differ at most in the value of a secret.\<close>

definition same_but_secret :: "string \<Rightarrow> string \<Rightarrow> bool" where
  "same_but_secret l l' \<longleftrightarrow>
     l = l' \<or> (\<exists>k v v'. k \<in> {''private_key'', ''preshared_key''} \<and> l = k @ ''='' @ v \<and> l' = k @ ''='' @ v')"

lemma redact_same: "same_but_secret l l' \<Longrightarrow> redact_line l = redact_line l'"
proof -
  have "set secret_keys = {''private_key'', ''preshared_key''}" by (auto simp: secret_keys_def)
  then show "same_but_secret l l' \<Longrightarrow> ?thesis"
    unfolding same_but_secret_def using redact_line_secret by metis
qed

lemma Split_pairs:
  assumes "list_all (\<lambda>(k, v). CHR ''='' \<notin> set k \<and> nl \<notin> set k \<and> nl \<notin> set v) kvs"
  shows "Split (concat (map ipc_line kvs)) nl = map (\<lambda>(k, v). k @ CHR ''='' # v) kvs @ [[]]"
proof -
  have "concat (map ipc_line kvs) = concat (map (\<lambda>l. l @ [nl]) (map (\<lambda>(k, v). k @ CHR ''='' # v) kvs))"
    by (induction kvs) (auto simp: ipc_line_def)
  moreover have "list_all (\<lambda>l. nl \<notin> set l) (map (\<lambda>(k, v). k @ CHR ''='' # v) kvs)"
    using assms by (induction kvs) auto
  ultimately show ?thesis by (simp only: Split_lines)
qed

lemma redact_pairs:
  assumes "list_all (\<lambda>(k, v). CHR ''='' \<notin> set k \<and> nl \<notin> set k \<and> nl \<notin> set v) kvs"
  shows "writeRedactedIpc (concat (map ipc_line kvs)) =
    concat (map (\<lambda>(k, v). ipc_line (k, if k \<in> set secret_keys then ''REDACTED'' else v)) kvs)"
proof -
  have "redact_line [] = []" by (simp add: redact_line_def SplitN2_none)
  moreover have "concat (map redact_line (map (\<lambda>(k, v). k @ CHR ''='' # v) kvs)) =
      concat (map (\<lambda>(k, v). ipc_line (k, if k \<in> set secret_keys then ''REDACTED'' else v)) kvs)"
    using assms by (induction kvs) (auto simp: redact_line_def SplitN2_pair ipc_line_def)
  ultimately show ?thesis by (simp add: writeRedactedIpc_def Split_pairs [OF assms])
qed

section \<open>Properties\<close>

text \<open>C23: metrics reveal no key. Two device dumps that agree line by line except in the values of
  \<^verbatim>\<open>private_key\<close> and \<^verbatim>\<open>preshared_key\<close> are redacted to the same text.\<close>

theorem redaction_hides_secrets:
  assumes "list_all2 same_but_secret (Split ipc nl) (Split ipc' nl)"
  shows "writeRedactedIpc ipc = writeRedactedIpc ipc'"
  unfolding writeRedactedIpc_def
  using assms by (induction rule: list_all2_induct) (auto dest: redact_same)

theorem redaction_hides_secrets_witness:
  "writeRedactedIpc (''private_key=aa'' @ [nl] @ ''mtu=1'') = writeRedactedIpc (''private_key=bb'' @ [nl] @ ''mtu=1'')"
proof -
  have "same_but_secret ''private_key=aa'' ''private_key=bb''"
    unfolding same_but_secret_def
    by (rule disjI2, rule exI [of _ "''private_key''"], rule exI [of _ "''aa''"], rule exI [of _ "''bb''"])
       simp
  moreover have "Split (''private_key=aa'' @ [nl] @ ''mtu=1'') nl = [''private_key=aa'', ''mtu=1'']"
    "Split (''private_key=bb'' @ [nl] @ ''mtu=1'') nl = [''private_key=bb'', ''mtu=1'']" by code_simp+
  ultimately show ?thesis
    using redaction_hides_secrets [of "''private_key=aa'' @ [nl] @ ''mtu=1''" "''private_key=bb'' @ [nl] @ ''mtu=1''"]
    by (simp add: same_but_secret_def)
qed

text \<open>The metrics of a configuration are its settings with the secrets replaced. Applied to the
  IPC text of a well-formed device, redaction keeps every key, line and non-secret value.\<close>

theorem redaction_keeps_settings:
  assumes "wf_device c" and "ipc_clean c"
  shows "writeRedactedIpc (concat (map ipc_line (ipc_pairs c))) =
    concat (map (\<lambda>(k, v). ipc_line (k, if k \<in> {''private_key'', ''preshared_key''} then ''REDACTED'' else v))
      (ipc_pairs c))"
  using redact_pairs [OF ipc_pairs_clean [OF assms]] by (simp add: secret_keys_def)

theorem redaction_keeps_settings_witness:
  "writeRedactedIpc (concat (map ipc_line (ipc_pairs demo_device))) =
    concat (map (\<lambda>(k, v). ipc_line (k, if k \<in> {''private_key'', ''preshared_key''} then ''REDACTED'' else v))
      (ipc_pairs demo_device))"
  using redaction_keeps_settings [OF demo_device_wf demo_device_clean] .

text \<open>C24: \<^verbatim>\<open>/readyz\<close> answers 503 exactly when some WireGuard connection with \<^verbatim>\<open>CheckAlive\<close> addresses
  has a record older than its interval plus two seconds, and 200 otherwise; Tailscale connections
  (no device) never fail it.\<close>

theorem readyz_status:
  "fst (HealthRegistry_ServeHTTP now h ''/readyz'') =
     (if \<exists>vt \<in> set (conns h). dev_CheckAlive (vt_Conf vt) \<noteq> [] \<and> vt_Dev vt \<noteq> None \<and>
           (\<exists>(a, t) \<in> set (vt_PingRecord vt).
              since now t > wrap64 (wrap64 (dev_CheckAliveInterval (vt_Conf vt) + 2) * second))
      then 503 else 200)"
proof -
  have "Clean ''/readyz'' = ''/readyz''" by code_simp
  then show ?thesis
    by (auto simp: HealthRegistry_ServeHTTP_def readyz_def json_Marshal_def snapshot_def list_ex_iff
                   stale_def snapshot_of_def Let_def)
qed

text \<open>The answers of the health endpoint do not depend on the order in which connections were
  started, as long as their names differ.\<close>

theorem health_order_independent:
  assumes "mset vts = mset vts'" and "distinct (map vt_Name vts)"
  shows "HealthRegistry_ServeHTTP now (fold HealthRegistry_Add vts NewHealthRegistry) url =
    HealthRegistry_ServeHTTP now (fold HealthRegistry_Add vts' NewHealthRegistry) url"
proof -
  have c: "conns (fold HealthRegistry_Add ws h) = conns h @ ws" for ws h
    by (induction ws arbitrary: h) (simp_all add: HealthRegistry_Add_def)
  show ?thesis
    by (rule ServeHTTP_order_independent) (simp_all add: c NewHealthRegistry_def assms)
qed

theorem health_order_independent_witness:
  "HealthRegistry_ServeHTTP 0 (fold HealthRegistry_Add [demo_tun, demo_alive\<lparr>vt_Name := ''work''\<rparr>] NewHealthRegistry) ''/metrics'' =
   HealthRegistry_ServeHTTP 0 (fold HealthRegistry_Add [demo_alive\<lparr>vt_Name := ''work''\<rparr>, demo_tun] NewHealthRegistry) ''/metrics''"
  by (rule health_order_independent) (simp_all add: demo_tun_def)

end
