(* ===== verification/Http_Proxy.thy ===== *)
theory Http_Proxy
  imports Forwarding
begin

unbundle bit_operations_syntax

text \<open>
  The HTTP proxy (\<^verbatim>\<open>http.go\<close>, \<^verbatim>\<open>util.go\<close>, \<^verbatim>\<open>routine.go\<close> lines 35--39 and 249--276). Requests come
  parsed from \<^verbatim>\<open>net/http\<close>; the results of writes to the client and to the destination are
  arguments.
\<close>

section \<open>Credentials\<close>

record CredentialValidator =
  cv_username :: string
  cv_password :: string

text \<open>\<^verbatim>\<open>subtle.ConstantTimeCompare\<close>: the bytes are compared by accumulating their differences.\<close>

definition ConstantTimeCompare :: "string \<Rightarrow> string \<Rightarrow> int" where
  "ConstantTimeCompare x y =
     (if length x \<noteq> length y then 0
      else if fold (\<lambda>(a, b) v. v OR (byte a XOR byte b)) (zip x y) 0 = 0 then 1 else 0)"

definition Valid :: "CredentialValidator \<Rightarrow> string \<Rightarrow> string \<Rightarrow> bool" where
  "Valid c username password =
     (let u = ConstantTimeCompare (cv_username c) username;
          p = ConstantTimeCompare (cv_password c) password
      in u AND p = 1)"

section \<open>Requests and responses\<close>

text \<open>Header keys are in the canonical form \<^verbatim>\<open>net/http\<close> stores them in.\<close>

record http_request =
  req_Method :: string
  req_Host :: string
  req_Proto :: string
  req_ProtoMajor :: int
  req_ProtoMinor :: int
  req_Header :: "(string \<times> string) list"

record http_response =
  resp_StatusCode :: int
  resp_Status :: string
  resp_Proto :: string
  resp_ProtoMajor :: int
  resp_ProtoMinor :: int
  resp_Header :: "(string \<times> string) list"
  resp_Body :: string

definition Header_Get :: "(string \<times> string) list \<Rightarrow> string \<Rightarrow> string" where
  "Header_Get h k = (case map_of h k of None \<Rightarrow> [] | Some v \<Rightarrow> v)"

definition proxyAuthHeaderKey :: string where
  "proxyAuthHeaderKey = ''Proxy-Authorization''"

text \<open>\<^verbatim>\<open>http.StatusText\<close> for the codes the proxy uses.\<close>

definition StatusText :: "int \<Rightarrow> string" where
  "StatusText code =
     (if code = 401 then ''Unauthorized''
      else if code = 405 then ''Method Not Allowed''
      else if code = 406 then ''Not Acceptable''
      else if code = 407 then ''Proxy Authentication Required''
      else if code = 411 then ''Length Required''
      else [])"

definition responseWith :: "http_request \<Rightarrow> int \<Rightarrow> http_response" where
  "responseWith req statusCode =
     \<lparr>resp_StatusCode = statusCode,
      resp_Status = StatusText statusCode,
      resp_Proto = req_Proto req,
      resp_ProtoMajor = req_ProtoMajor req,
      resp_ProtoMinor = req_ProtoMinor req,
      resp_Header = [],
      resp_Body = ''wireproxy: '' @ req_Proto req @ '' '' @ Itoa statusCode @ '' '' @
                  StatusText statusCode @ [CHR 0x0D, CHR 0x0A]\<rparr>"

section \<open>The server\<close>

record HTTPServer =
  hs_config :: HTTPConfig
  hs_auth :: CredentialValidator
  hs_authRequired :: bool
  hs_tlsRequired :: bool

text \<open>The status code and error of \<^verbatim>\<open>authenticate\<close>.\<close>

definition authenticate :: "HTTPServer \<Rightarrow> http_request \<Rightarrow> int \<times> go_error option" where
  "authenticate s req =
     (if \<not> hs_authRequired s then (0, None)
      else
        let auth = Header_Get (req_Header req) proxyAuthHeaderKey in
        if auth = [] then (407, Some (Errorf ''%s'' [StatusText 407]))
        else
          (case b64_DecodeString (TrimPrefix auth ''Basic '') of
             Inl err \<Rightarrow> (406, Some (Wrapf ''decode username and password failed: %w'' [] err))
           | Inr str \<Rightarrow>
               (case SplitN2 str (CHR '':'') of
                  [u, p] \<Rightarrow>
                    if Valid (hs_auth s) u p then (0, None)
                    else (401, Some (Errorf ''username and password not matching'' []))
                | _ \<Rightarrow> (411, Some (Errorf ''username and password format invalid'' [])))))"

text \<open>The dial callback, the request read from a connection, and the results of writing to the client
  and of writing the request to the destination. \<open>he_input\<close> is everything the client sends, and
  \<open>he_framing\<close> how many bytes of it the request takes and how many the buffered reader took from the
  connection to read it.\<close>

record http_env =
  he_dial :: "string \<Rightarrow> string \<Rightarrow> conn res"
  he_read :: "conn \<Rightarrow> http_request ext"
  he_conn_write :: "conn \<Rightarrow> unit ext"
  he_req_write :: "conn \<Rightarrow> unit ext"
  he_input :: "conn \<Rightarrow> string"
  he_framing :: "conn \<Rightarrow> nat \<times> nat"

definition dial_target :: "http_request \<Rightarrow> string \<Rightarrow> string" where
  "dial_target req port =
     (if \<not> Contains (req_Host req) '':'' then JoinHostPort (req_Host req) port else req_Host req)"

definition handleConn :: "http_env \<Rightarrow> http_request \<Rightarrow> conn \<Rightarrow> net_event list \<times> conn option \<times> go_error option" where
  "handleConn E req c =
     (let addr = dial_target req ''443'' in
      case he_dial E ''tcp'' addr of
        Inl err \<Rightarrow> ([Dialing ''tcp'' addr], None, Some (Wrapf ''tun tcp dial failed: %w'' [] err))
      | Inr peer \<Rightarrow>
          (case lib (he_conn_write E c) of
             Inl err \<Rightarrow> ([Dialing ''tcp'' addr, Dialed peer, CloseConn peer], None, Some err)
           | Inr _ \<Rightarrow>
               ([Dialing ''tcp'' addr, Dialed peer,
                 Wrote (Net c) (''HTTP/1.1 200 Connection established'' @
                                [CHR 0x0D, CHR 0x0A, CHR 0x0D, CHR 0x0A])],
                Some peer, None)))"

text \<open>\<^verbatim>\<open>Request.Write\<close> writes the header except for the fields it renders itself.\<close>

definition written_header :: "http_request \<Rightarrow> (string \<times> string) list" where
  "written_header req =
     filter (\<lambda>(k, _). k \<notin> {''Host'', ''User-Agent'', ''Content-Length'', ''Transfer-Encoding'', ''Trailer''})
       (req_Header req)"

definition handle :: "http_env \<Rightarrow> http_request \<Rightarrow> net_event list \<times> conn option \<times> go_error option" where
  "handle E req =
     (let addr = dial_target req ''80'' in
      case he_dial E ''tcp'' addr of
        Inl err \<Rightarrow> ([Dialing ''tcp'' addr], None, Some (Wrapf ''tun tcp dial failed: %w'' [] err))
      | Inr peer \<Rightarrow>
          (case lib (he_req_write E peer) of
             Inl err \<Rightarrow>
               ([Dialing ''tcp'' addr, Dialed peer, CloseConn peer], None,
                Some (Wrapf ''conn write failed: %w'' [] err))
           | Inr _ \<Rightarrow>
               ([Dialing ''tcp'' addr, Dialed peer, SentRequest peer (written_header req)], Some peer, None)))"

definition respond :: "conn \<Rightarrow> http_response \<Rightarrow> net_event" where
  "respond c r = Responded c (resp_StatusCode r) (resp_Header r) (resp_Body r)"

definition HTTPServer_serve :: "http_env \<Rightarrow> HTTPServer \<Rightarrow> conn \<Rightarrow> net_event list" where
  "HTTPServer_serve E s c =
     (case lib (he_read E c) of
        Inl err \<Rightarrow> [ErrLog ''read request failed: %s'' [] err, CloseConn c]
      | Inr req \<Rightarrow>
          (case authenticate s req of
             (code, Some err) \<Rightarrow>
               let resp = responseWith req code;
                   resp = (if code = 407
                           then resp\<lparr>resp_Header := [(''Proxy-Authenticate'', ''Basic realm=\"Proxy\"'')]\<rparr>
                           else resp)
               in [respond c resp, ErrLog ''%s'' [] err, CloseConn c]
           | (_, None) \<Rightarrow>
               if req_Method req = ''CONNECT'' \<or> req_Method req = ''GET'' then
                 let (es, peer, err) = (if req_Method req = ''CONNECT'' then handleConn E req c else handle E req)
                 in case (peer, err) of
                      (Some p, None) \<Rightarrow> es @ [Go (Net p) (Net c), Go (Net c) (Net p)]
                    | (_, Some e) \<Rightarrow> es @ [ErrLog ''dial proxy failed: %s'' [] e, CloseConn c]
                    | (None, None) \<Rightarrow>
                        es @ [ErrLog ''dial proxy failed: %s'' [] (Errorf ''dial proxy failed: peer nil'' []),
                              CloseConn c]
               else
                 [respond c (responseWith req 405),
                  ErrLog ''unsupported protocol: %s'' [req_Method req] (New []), CloseConn c]))"

text \<open>The two goroutines at the end of \<^verbatim>\<open>serve\<close>, once what their source yields has been copied: both
  close the destination first. The one towards the destination copies from the connection, not
  from the buffered reader.\<close>

definition http_copy :: "conn \<Rightarrow> conn \<Rightarrow> endpoint \<Rightarrow> string \<Rightarrow> net_event list" where
  "http_copy c p dst rest = [Wrote dst rest, CloseConn p, CloseConn c]"

definition left_on_conn :: "http_env \<Rightarrow> conn \<Rightarrow> string" where
  "left_on_conn E c = drop (snd (he_framing E c)) (he_input E c)"

definition sent_after_request :: "http_env \<Rightarrow> conn \<Rightarrow> string" where
  "sent_after_request E c = drop (fst (he_framing E c)) (he_input E c)"

text \<open>Listening, with or without TLS. The results of loading the key pair and of listening are
  arguments.\<close>

record http_listen_env =
  hl_LoadX509KeyPair :: "string \<Rightarrow> string \<Rightarrow> unit ext"
  hl_tls_Listen :: "string \<Rightarrow> string \<Rightarrow> listener ext"
  hl_net_Listen :: "string \<Rightarrow> string \<Rightarrow> listener ext"

definition HTTPServer_listen :: "http_listen_env \<Rightarrow> HTTPServer \<Rightarrow> string \<Rightarrow> string \<Rightarrow> listener res" where
  "HTTPServer_listen L s network addr =
     (if hs_tlsRequired s then
        ebind (lib (hl_LoadX509KeyPair L (http_CertFile (hs_config s)) (http_KeyFile (hs_config s))))
          (\<lambda>_. lib (hl_tls_Listen L network addr))
      else lib (hl_net_Listen L network addr))"

fun serve_all :: "(conn \<Rightarrow> net_event list) \<Rightarrow> conn ext list \<Rightarrow> net_event list \<times> go_error option" where
  "serve_all serve [] = ([], None)"
| "serve_all serve (r # rs) =
     (case r of
        Inl e \<Rightarrow> ([], Some (Wrapf ''accept request failed: %w'' [] (External e)))
      | Inr c \<Rightarrow> (let (es, err) = serve_all serve rs in (Accepted c # serve c @ es, err)))"

definition HTTPServer_ListenAndServe ::
    "http_listen_env \<Rightarrow> http_env \<Rightarrow> HTTPServer \<Rightarrow> string \<Rightarrow> string \<Rightarrow> conn ext list
      \<Rightarrow> net_event list \<times> go_error option" where
  "HTTPServer_ListenAndServe L E s network addr accepts =
     (case HTTPServer_listen L s network addr of
        Inl err \<Rightarrow> ([], Some (Wrapf ''listen tcp failed: %w'' [] err))
      | Inr server \<Rightarrow>
          (let (es, err) = serve_all (HTTPServer_serve E s) accepts
           in (Listening server # es @ (case err of None \<Rightarrow> [] | Some _ \<Rightarrow> [CloseListener server]), err)))"

definition new_HTTPServer :: "HTTPConfig \<Rightarrow> HTTPServer" where
  "new_HTTPServer config =
     \<lparr>hs_config = config,
      hs_auth = \<lparr>cv_username = http_Username config, cv_password = http_Password config\<rparr>,
      hs_authRequired = (http_Username config \<noteq> [] \<or> http_Password config \<noteq> []),
      hs_tlsRequired = (http_CertFile config \<noteq> [] \<and> http_KeyFile config \<noteq> [])\<rparr>"

definition HTTP_SpawnRoutine ::
    "world \<Rightarrow> host_net \<Rightarrow> VirtualTun \<Rightarrow> HTTPConfig \<Rightarrow> http_listen_env \<Rightarrow> http_env \<Rightarrow> conn ext list \<Rightarrow> net_event list" where
  "HTTP_SpawnRoutine W H vt config L E accepts =
     (let router = NewDomainRouter (http_TunnelDomains config) (http_LogDomains config);
          E = E\<lparr>he_dial := (\<lambda>nw a. snd (RoutedDial W H vt (Some router) nw a))\<rparr>;
          (es, err) = HTTPServer_ListenAndServe L E (new_HTTPServer config) ''tcp'' (http_BindAddress config) accepts
      in es @ (case err of None \<Rightarrow> [] | Some e \<Rightarrow> [VirtualTun_Errorf vt ''http proxy: %s'' [] e]))"

section \<open>Lemmas\<close>

lemma xor_zero_iff: "(a :: int) XOR b = 0 \<longleftrightarrow> a = b"
proof
  assume h: "a XOR b = 0"
  have "a = (a XOR b) XOR b" by (simp add: ac_simps)
  then show "a = b" by (simp add: h)
qed simp

lemma or_zero_iff: "(a :: int) OR b = 0 \<longleftrightarrow> a = 0 \<and> b = 0"
  by (simp add: or_eq_0_iff)

lemma fold_differences:
  "fold (\<lambda>(a, b) v. v OR (byte a XOR byte b)) ps v = 0 \<longleftrightarrow> v = 0 \<and> (\<forall>(a, b) \<in> set ps. a = b)"
  by (induction ps arbitrary: v) (auto simp: or_zero_iff xor_zero_iff)

lemma ConstantTimeCompare_eq: "ConstantTimeCompare x y = (if x = y then 1 else 0)"
proof (cases "length x = length y")
  case True
  then have "(\<forall>(a, b) \<in> set (zip x y). a = b) \<longleftrightarrow> x = y"
    by (induction x y rule: list_induct2) auto
  then show ?thesis using True by (auto simp: ConstantTimeCompare_def fold_differences)
qed (auto simp: ConstantTimeCompare_def)

lemma Valid_iff: "Valid c u p \<longleftrightarrow> cv_username c = u \<and> cv_password c = p"
  by (auto simp: Valid_def ConstantTimeCompare_eq Let_def)

lemma SplitN2_two: "SplitN2 s c = [u, p] \<longleftrightarrow> c \<notin> set u \<and> s = u @ c # p"
proof
  assume h: "SplitN2 s c = [u, p]"
  then obtain i where i: "IndexByte s c = Some i" and u: "u = take i s" and p: "p = drop (Suc i) s"
    by (auto simp: SplitN2_def split: option.splits)
  then show "c \<notin> set u \<and> s = u @ c # p" by (auto simp: IndexByte_Some)
qed (simp add: SplitN2_pair)

lemma SplitN2_cases: "(\<exists>u p. SplitN2 s c = [u, p]) \<or> (\<exists>u. SplitN2 s c = [u])"
  by (auto simp: SplitN2_def split: option.splits)

lemma authenticate_err_none: "snd (authenticate s req) = None \<Longrightarrow> fst (authenticate s req) = 0"
  by (auto simp: authenticate_def Let_def split: if_splits sum.splits list.splits)

lemma authenticate_ok:
  "snd (authenticate s req) = None \<longleftrightarrow>
     \<not> hs_authRequired s \<or>
     (CHR '':'' \<notin> set (cv_username (hs_auth s)) \<and>
      Header_Get (req_Header req) proxyAuthHeaderKey \<noteq> [] \<and>
      b64_DecodeString (TrimPrefix (Header_Get (req_Header req) proxyAuthHeaderKey) ''Basic '') =
        Inr (cv_username (hs_auth s) @ CHR '':'' # cv_password (hs_auth s)))"
proof (cases "hs_authRequired s \<and> Header_Get (req_Header req) proxyAuthHeaderKey \<noteq> []")
  case True
  let ?m = "b64_DecodeString (TrimPrefix (Header_Get (req_Header req) proxyAuthHeaderKey) ''Basic '')"
  show ?thesis
  proof (cases ?m)
    case (Inr str)
    consider u p where "SplitN2 str (CHR '':'') = [u, p]" | u where "SplitN2 str (CHR '':'') = [u]"
      using SplitN2_cases by blast
    then show ?thesis
    proof cases
      case 1
      then have "CHR '':'' \<notin> set u \<and> str = u @ CHR '':'' # p" by (simp add: SplitN2_two)
      moreover have "CHR '':'' \<notin> set v \<Longrightarrow> str = v @ CHR '':'' # q \<Longrightarrow> v = u \<and> q = p" for v q
        using 1 SplitN2_pair by fastforce
      ultimately show ?thesis
        using True Inr 1 by (auto simp: authenticate_def Valid_iff Let_def)
    next
      case 2
      then have "str \<noteq> v @ CHR '':'' # q \<or> CHR '':'' \<in> set v" for v q
        using SplitN2_pair by fastforce
      then show ?thesis
        using True Inr 2 by (auto simp: authenticate_def Let_def)
    qed
  qed (simp add: authenticate_def True Let_def)
qed (auto simp: authenticate_def Let_def)

lemma serve_all_err: "snd (serve_all serve rs) \<noteq> None \<longleftrightarrow> list_ex isl rs"
  by (induction rs) (auto split: sum.splits prod.splits)

lemma serve_all_events: "fst (serve_all serve rs) = concat (map (\<lambda>c. Accepted c # serve c) (accepted rs))"
proof (induction rs)
  case (Cons r rs)
  then show ?case by (cases r) (auto simp: accepted_def split: prod.splits)
qed (simp add: accepted_def)

text \<open>The proxy's handler meets the contract of connection handlers.\<close>

interpretation http_serve: conn_handler "HTTPServer_serve E s" for E s
proof
  show "disposes c (HTTPServer_serve E s c)" for c
  proof (cases "he_read E c")
    case (Inr req)
    then show ?thesis
      by (cases "authenticate s req"; cases "snd (authenticate s req)"; cases "req_Method req = ''CONNECT''")
         (auto simp: HTTPServer_serve_def handleConn_def handle_def respond_def disposes_def Let_def
               split: sum.splits)
  qed (simp add: HTTPServer_serve_def disposes_def)
qed

section \<open>Properties\<close>

text \<open>C15: proxy authentication succeeds exactly when it is not required or the client presents, in
  \<^verbatim>\<open>Proxy-Authorization\<close>, the base64 form of the configured user name, a colon and the configured
  password; and then the user name has no colon. The client's own encoding of such credentials
  is accepted.\<close>

theorem authenticate_exact:
  "(snd (authenticate s req) = None \<longleftrightarrow>
     \<not> hs_authRequired s \<or>
     (CHR '':'' \<notin> set (cv_username (hs_auth s)) \<and>
      Header_Get (req_Header req) proxyAuthHeaderKey \<noteq> [] \<and>
      b64_DecodeString (TrimPrefix (Header_Get (req_Header req) proxyAuthHeaderKey) ''Basic '') =
        Inr (cv_username (hs_auth s) @ CHR '':'' # cv_password (hs_auth s)))) \<and>
   (CHR '':'' \<notin> set (cv_username (hs_auth s)) \<and>
    Header_Get (req_Header req) proxyAuthHeaderKey =
      ''Basic '' @ b64_EncodeToString (cv_username (hs_auth s) @ CHR '':'' # cv_password (hs_auth s))
    \<longrightarrow> snd (authenticate s req) = None)"
  unfolding authenticate_ok by (auto simp: base64.dec_enc TrimPrefix_def HasPrefix_def)

definition demo_http :: HTTPServer where
  "demo_http = new_HTTPServer
     \<lparr>http_BindAddress = '':8080'', http_Username = ''u'', http_Password = ''p'', http_CertFile = [],
      http_KeyFile = [], http_TunnelDomains = [], http_LogDomains = False\<rparr>"

definition demo_request :: http_request where
  "demo_request =
     \<lparr>req_Method = ''GET'', req_Host = ''a.test'', req_Proto = ''HTTP/1.1'', req_ProtoMajor = 1,
      req_ProtoMinor = 1, req_Header = [(''Proxy-Authorization'', ''Basic dTpw'')]\<rparr>"

theorem authenticate_exact_witness: "snd (authenticate demo_http demo_request) = None"
proof -
  have "Header_Get (req_Header demo_request) proxyAuthHeaderKey =
      ''Basic '' @ b64_EncodeToString (cv_username (hs_auth demo_http) @ CHR '':'' # cv_password (hs_auth demo_http))"
    by code_simp
  moreover have "CHR '':'' \<notin> set (cv_username (hs_auth demo_http))" by code_simp
  ultimately show ?thesis using authenticate_exact [of demo_http demo_request] by blast
qed

text \<open>C16: a request that fails authentication reaches nothing: the client gets one response with the
  status of the failure (407 with a challenge, 406, 411 or 401), its connection is closed, and no
  dial is attempted. Authenticated requests dial only for \<^verbatim>\<open>CONNECT\<close> and \<^verbatim>\<open>GET\<close>.\<close>

theorem unauthenticated_reaches_nothing:
  assumes "he_read E c = Inr req" and "snd (authenticate s req) = Some err"
  shows "\<exists>hdr body. HTTPServer_serve E s c =
      [Responded c (fst (authenticate s req)) hdr body, ErrLog ''%s'' [] err, CloseConn c] \<and>
    fst (authenticate s req) \<in> {401, 406, 407, 411} \<and>
    (hdr \<noteq> [] \<longleftrightarrow> fst (authenticate s req) = 407)"
proof -
  obtain code where a: "authenticate s req = (code, Some err)"
    using assms(2) by (cases "authenticate s req") auto
  have "code \<in> {401, 406, 407, 411}"
    using a by (auto simp: authenticate_def Let_def split: if_splits sum.splits list.splits)
  then show ?thesis
    using assms(1) a by (auto simp: HTTPServer_serve_def respond_def responseWith_def Let_def)
qed

definition demo_env :: http_env where
  "demo_env =
     \<lparr>he_dial = (\<lambda>_ _. Inr 9), he_read = (\<lambda>_. Inr (demo_request\<lparr>req_Header := []\<rparr>)),
      he_conn_write = (\<lambda>_. Inr ()), he_req_write = (\<lambda>_. Inr ()),
      he_input = (\<lambda>_. ''REQUESThello''), he_framing = (\<lambda>_. (7, 10))\<rparr>"

theorem unauthenticated_reaches_nothing_witness:
  "\<forall>p. Dialed p \<notin> set (HTTPServer_serve demo_env demo_http 3)"
proof -
  have r: "he_read demo_env 3 = Inr (demo_request\<lparr>req_Header := []\<rparr>)" by (simp add: demo_env_def)
  have a: "snd (authenticate demo_http (demo_request\<lparr>req_Header := []\<rparr>)) =
      Some (Errorf ''%s'' [''Proxy Authentication Required''])" by code_simp
  show ?thesis using unauthenticated_reaches_nothing [OF r a] by auto
qed

text \<open>C17: the HTTP proxy disposes of every connection it accepts, on every path: responses to bad
  requests, failed dials and failed writes close it (and a destination dialled for it), and
  otherwise exactly two goroutines copy between client and destination. The listener is closed when
  accepting fails, and only then.\<close>

theorem HTTP_disposes:
  assumes "HTTPServer_listen L s nw addr = Inr server"
  shows "fst (HTTPServer_ListenAndServe L E s nw addr accepts) =
      Listening server # concat (map (\<lambda>c. Accepted c # HTTPServer_serve E s c) (accepted accepts)) @
      (if list_ex isl accepts then [CloseListener server] else []) \<and>
    list_all (\<lambda>c. disposes c (HTTPServer_serve E s c)) (accepted accepts)"
  using assms serve_all_events [of "HTTPServer_serve E s" accepts] serve_all_err [of "HTTPServer_serve E s" accepts]
    http_serve.serve_disposes
  by (auto simp: HTTPServer_ListenAndServe_def list_all_iff split: prod.splits option.splits if_splits)

definition demo_listen :: http_listen_env where
  "demo_listen = \<lparr>hl_LoadX509KeyPair = (\<lambda>_ _. Inr ()), hl_tls_Listen = (\<lambda>_ _. Inr 5),
                  hl_net_Listen = (\<lambda>_ _. Inr 6)\<rparr>"

theorem HTTP_disposes_witness:
  "list_all (\<lambda>c. disposes c (HTTPServer_serve demo_env demo_http c)) (accepted [Inr 3, Inl ''closed'', Inr 4])"
proof -
  have l: "HTTPServer_listen demo_listen demo_http ''tcp'' '':8080'' = Inr 6" by code_simp
  show ?thesis using HTTP_disposes [OF l] by blast
qed

text \<open>C39: the proxy credentials leave the proxy. A \<^verbatim>\<open>GET\<close> that is forwarded carries every
  \<^verbatim>\<open>Proxy-Authorization\<close> field of the client on to the destination.\<close>

theorem GET_forwards_proxy_credentials:
  assumes "he_read E c = Inr req" and "snd (authenticate s req) = None" and "req_Method req = ''GET''"
    and "he_dial E ''tcp'' (dial_target req ''80'') = Inr p" and "he_req_write E p = Inr ()"
    and "(''Proxy-Authorization'', v) \<in> set (req_Header req)"
  shows "\<exists>hdr. SentRequest p hdr \<in> set (HTTPServer_serve E s c) \<and> (''Proxy-Authorization'', v) \<in> set hdr"
proof -
  have a: "authenticate s req = (0, None)"
    using assms(2) authenticate_err_none by (metis prod.collapse)
  have "(''Proxy-Authorization'', v) \<in> set (written_header req)"
    using assms(6) by (simp add: written_header_def)
  then show ?thesis
    using assms by (auto simp: HTTPServer_serve_def a handle_def Let_def)
qed

theorem GET_forwards_proxy_credentials_witness:
  "\<exists>hdr. SentRequest 9 hdr \<in> set (HTTPServer_serve (demo_env\<lparr>he_read := (\<lambda>_. Inr demo_request)\<rparr>) demo_http 3) \<and>
     (''Proxy-Authorization'', ''Basic dTpw'') \<in> set hdr"
proof -
  let ?E = "demo_env\<lparr>he_read := (\<lambda>_. Inr demo_request)\<rparr>"
  have "snd (authenticate demo_http demo_request) = None" by code_simp
  then show ?thesis
    using GET_forwards_proxy_credentials [of ?E 3 demo_request demo_http 9 "''Basic dTpw''"]
    by (simp add: demo_env_def demo_request_def)
qed

text \<open>C37: a tunnel opened by \<^verbatim>\<open>CONNECT\<close> loses what the buffered reader read ahead. Of the bytes the client
  sent after its request, the destination gets all but those the reader had already taken from the
  connection; it gets the whole stream exactly when the reader had taken nothing beyond the
  request, or nothing more was sent.\<close>

theorem CONNECT_loses_read_ahead:
  assumes "he_read E c = Inr req" and "snd (authenticate s req) = None" and "req_Method req = ''CONNECT''"
    and "he_dial E ''tcp'' (dial_target req ''443'') = Inr p" and "he_conn_write E c = Inr ()"
    and "he_framing E c = (n, m)" and "n \<le> m"
  shows "Go (Net c) (Net p) \<in> set (HTTPServer_serve E s c) \<and>
    http_copy c p (Net p) (left_on_conn E c) =
      [Wrote (Net p) (drop (m - n) (sent_after_request E c)), CloseConn p, CloseConn c] \<and>
    (left_on_conn E c = sent_after_request E c \<longleftrightarrow> n = m \<or> sent_after_request E c = [])"
proof -
  have a: "authenticate s req = (0, None)"
    using assms(2) authenticate_err_none by (metis prod.collapse)
  have l: "left_on_conn E c = drop (m - n) (sent_after_request E c)"
    using assms(6,7) by (simp add: left_on_conn_def sent_after_request_def)
  have "drop k xs = xs \<longleftrightarrow> k = 0 \<or> xs = []" for k and xs :: string
    by (metis drop0 drop_Nil length_drop diff_diff_cancel diff_is_0_eq' diff_self_eq_0 length_0_conv nat_le_linear)
  then show ?thesis
    using assms l by (auto simp: HTTPServer_serve_def a handleConn_def http_copy_def Let_def)
qed

theorem CONNECT_loses_read_ahead_witness:
  "http_copy 3 9 (Net 9) (left_on_conn (demo_env\<lparr>he_read := (\<lambda>_. Inr (demo_request\<lparr>req_Method := ''CONNECT''\<rparr>))\<rparr>) 3) =
     [Wrote (Net 9) ''lo'', CloseConn 9, CloseConn 3]"
proof -
  let ?req = "demo_request\<lparr>req_Method := ''CONNECT''\<rparr>"
  let ?E = "demo_env\<lparr>he_read := (\<lambda>_. Inr ?req)\<rparr>"
  have a: "snd (authenticate demo_http ?req) = None" by code_simp
  have "drop (10 - 7) (sent_after_request ?E 3) = ''lo''" by code_simp
  then show ?thesis
    using CONNECT_loses_read_ahead [of ?E 3 ?req demo_http 9 7 10] a by (simp add: demo_env_def)
qed

end
