(* ===== verification/Sni.thy ===== *)
theory Sni
  imports Http_Proxy
begin

text \<open>
  The SNI proxy (\<^verbatim>\<open>sni.go\<close>, \<^verbatim>\<open>routine.go\<close> lines 423--442). The TLS server that reads the client
  hello belongs to the standard library; the model takes from it how much it read, the server
  name it reported, if any, and the error of the handshake.
\<close>

record sni_env =
  se_input :: "conn \<Rightarrow> string"
  se_handshake :: "string \<Rightarrow> nat \<times> string option \<times> string option"
  se_SetReadDeadline :: "conn \<Rightarrow> unit ext"
  se_ClearReadDeadline :: "conn \<Rightarrow> unit ext"
  se_dial :: "string \<Rightarrow> string \<Rightarrow> conn res"

text \<open>The connection the TLS server sees: reads come from the client, writes always fail, closing
  does nothing.\<close>

definition readOnlyConn_Read :: "string \<Rightarrow> nat \<Rightarrow> string \<times> string" where
  "readOnlyConn_Read stream n = (take n stream, drop n stream)"

definition readOnlyConn_Write :: "string \<Rightarrow> nat \<times> go_error option" where
  "readOnlyConn_Write p = (0, Some (Std ''io: read/write on closed pipe'' []))"

text \<open>\<^verbatim>\<open>peekClientHello\<close>: the tee reader keeps what the TLS server read, and the wrapped connection
  replays it. A captured hello clears the handshake error.\<close>

definition peekClientHello :: "sni_env \<Rightarrow> conn \<Rightarrow> string \<times> endpoint \<times> go_error option" where
  "peekClientHello E c =
     (let (n, hello, err) = se_handshake E (se_input E c);
          (peekedBytes, _) = readOnlyConn_Read (se_input E c) n;
          wrappedConn = Replay peekedBytes c
      in case hello of
           Some name \<Rightarrow> (name, wrappedConn, None)
         | None \<Rightarrow> ([], wrappedConn, map_option External err))"

text \<open>What the connection still yields after the peek.\<close>

definition unread :: "sni_env \<Rightarrow> conn \<Rightarrow> string" where
  "unread E c = drop (fst (se_handshake E (se_input E c))) (se_input E c)"

definition sniProxyForward :: "sni_env \<Rightarrow> conn \<Rightarrow> net_event list \<times> go_error option" where
  "sniProxyForward E c =
     (case lib (se_SetReadDeadline E c) of
        Inl err \<Rightarrow> ([], Some (Wrapf ''set read deadline failed: %w'' [] err))
      | Inr _ \<Rightarrow>
          (case peekClientHello E c of
             (_, _, Some err) \<Rightarrow> ([], Some (Wrapf ''peek client hello failed: %w'' [] err))
           | (hostname, clientConn, None) \<Rightarrow>
               (case lib (se_ClearReadDeadline E c) of
                  Inl err \<Rightarrow> ([], Some (Wrapf ''clear read deadline failed: %w'' [] err))
                | Inr _ \<Rightarrow>
                    if hostname = [] then ([], Some (Errorf ''no SNI hostname in ClientHello'' []))
                    else
                      let target = JoinHostPort hostname ''443'' in
                      case se_dial E ''tcp'' target of
                        Inl err \<Rightarrow>
                          ([Dialing ''tcp'' target], Some (Wrapf ''tun tcp dial failed: %w'' [] err))
                      | Inr backend \<Rightarrow>
                          ([Dialing ''tcp'' target, Dialed backend,
                            Go clientConn (Net backend), Go (Net backend) clientConn], None))))"

definition sniServe :: "sni_env \<Rightarrow> conn \<Rightarrow> net_event list" where
  "sniServe E c =
     (case sniProxyForward E c of
        (es, None) \<Rightarrow> es
      | (es, Some err) \<Rightarrow> es @ [ErrLog ''SNI proxy: %s'' [] err, CloseConn c])"

definition SNI_SpawnRoutine ::
    "world \<Rightarrow> host_net \<Rightarrow> VirtualTun \<Rightarrow> SNIConfig \<Rightarrow> sni_env \<Rightarrow> conn ext list \<Rightarrow> net_event list" where
  "SNI_SpawnRoutine W H vt config E accepts =
     (let router = NewDomainRouter (sni_TunnelDomains config) (sni_LogDomains config);
          E = E\<lparr>se_dial := (\<lambda>nw a. snd (RoutedDial W H vt (Some router) nw a))\<rparr>
      in case lib (os_Listen H ''tcp'' (sni_BindAddress config)) of
           Inl err \<Rightarrow> [VirtualTun_Errorf vt ''SNI proxy on %s: %s'' [sni_BindAddress config] err]
         | Inr listener \<Rightarrow> Listening listener # accept_loop vt (sniServe E) ''SNI proxy'' accepts)"

section \<open>Lemmas\<close>

lemma sniProxyForward_cases:
  "(\<exists>es err. sniProxyForward E c = (es, Some err) \<and> goroutines es = [] \<and> (\<forall>p. Dialed p \<notin> set es)) \<or>
   (\<exists>name pk p err. peekClientHello E c = (name, Replay pk c, None) \<and> name \<noteq> [] \<and>
      se_dial E ''tcp'' (JoinHostPort name ''443'') = Inr p \<and>
      sniProxyForward E c =
        ([Dialing ''tcp'' (JoinHostPort name ''443''), Dialed p,
          Go (Replay pk c) (Net p), Go (Net p) (Replay pk c)], None))"
proof -
  obtain n hello herr where h: "se_handshake E (se_input E c) = (n, hello, herr)"
    by (metis prod_cases3)
  show ?thesis
    by (cases hello; cases herr; cases "se_SetReadDeadline E c"; cases "se_ClearReadDeadline E c")
       (auto simp: sniProxyForward_def peekClientHello_def h readOnlyConn_Read_def Let_def
             split: sum.splits)
qed

interpretation sni_serve: conn_handler "sniServe E" for E
proof
  show "disposes c (sniServe E c)" for c
    using sniProxyForward_cases [of E c]
  proof (elim disjE exE conjE)
    fix es err
    assume "sniProxyForward E c = (es, Some err)" "goroutines es = []" "\<forall>p. Dialed p \<notin> set es"
    then show ?thesis by (auto simp: sniServe_def disposes_def)
  qed (auto simp: sniServe_def disposes_def)
qed

section \<open>Properties\<close>

text \<open>C20: the SNI proxy is transparent. When it forwards a client, it dials port 443 of the server
  name of the client hello, and what the goroutine towards the destination writes is the client's
  whole stream, byte for byte: what was peeked, followed by what the connection still yields.
  Nothing is ever written to the client before the destination answers.\<close>

theorem sni_transparent:
  assumes "Dialed p \<in> set (sniServe E c)"
  shows "\<exists>name pk. fst (peekClientHello E c) = name \<and> name \<noteq> [] \<and>
    se_dial E ''tcp'' (JoinHostPort name ''443'') = Inr p \<and>
    Go (Replay pk c) (Net p) \<in> set (sniServe E c) \<and>
    connForward (Replay pk c) (Net p) (unread E c) None =
      [Wrote (Net p) (se_input E c), CloseConn p, CloseConn c] \<and>
    (\<forall>e d. Wrote e d \<notin> set (sniServe E c))"
proof -
  from assms sniProxyForward_cases [of E c] obtain name pk where
    k: "peekClientHello E c = (name, Replay pk c, None)" "name \<noteq> []"
    "se_dial E ''tcp'' (JoinHostPort name ''443'') = Inr p"
    and s: "sniServe E c = [Dialing ''tcp'' (JoinHostPort name ''443''), Dialed p,
          Go (Replay pk c) (Net p), Go (Net p) (Replay pk c)]"
    by (auto simp: sniServe_def)
  have "pk @ unread E c = se_input E c"
    using k(1)
    by (auto simp: peekClientHello_def unread_def readOnlyConn_Read_def Let_def split: prod.splits option.splits)
  then show ?thesis using k s by (auto simp: connForward_def)
qed

definition demo_sni :: sni_env where
  "demo_sni =
     \<lparr>se_input = (\<lambda>_. ''hello-and-more''), se_handshake = (\<lambda>_. (5, Some ''a.test'', Some ''eof'')),
      se_SetReadDeadline = (\<lambda>_. Inr ()), se_ClearReadDeadline = (\<lambda>_. Inr ()),
      se_dial = (\<lambda>_ _. Inr 9)\<rparr>"

theorem sni_transparent_witness:
  "Dialed 9 \<in> set (sniServe demo_sni 3) \<and>
   (\<exists>pk. connForward (Replay pk 3) (Net 9) (unread demo_sni 3) None =
      [Wrote (Net 9) ''hello-and-more'', CloseConn 9, CloseConn 3])"
proof -
  have d: "Dialed 9 \<in> set (sniServe demo_sni 3)"
    by (simp add: sniServe_def sniProxyForward_def peekClientHello_def readOnlyConn_Read_def demo_sni_def)
  obtain pk where "connForward (Replay pk 3) (Net 9) (unread demo_sni 3) None =
      [Wrote (Net 9) (se_input demo_sni 3), CloseConn 9, CloseConn 3]"
    using sni_transparent [OF d] by blast
  with d show ?thesis by (auto simp: demo_sni_def)
qed

text \<open>An SNI proxy that listens disposes of every connection it accepts: without a hello, a server
  name or a destination the connection is closed and nothing is started.\<close>

theorem SNI_disposes:
  assumes "os_Listen H ''tcp'' (sni_BindAddress config) = Inr l"
  shows "\<exists>E' tail. SNI_SpawnRoutine W H vt config E accepts =
      Listening l # concat (map (\<lambda>c. Accepted c # sniServe E' c) (accepted accepts)) @ tail \<and>
    list_all (\<lambda>e. \<exists>s. e = VirtualTun_Errorf vt ''SNI proxy accept: %s'' [] (External s)) tail \<and>
    list_all (\<lambda>c. disposes c (sniServe E' c)) (accepted accepts)"
proof -
  let ?E = "E\<lparr>se_dial := (\<lambda>nw a. snd (RoutedDial W H vt
      (Some (NewDomainRouter (sni_TunnelDomains config) (sni_LogDomains config))) nw a))\<rparr>"
  show ?thesis
    using sni_serve.accept_loop_disposes [of vt ?E "''SNI proxy''" accepts] assms
    by (intro exI [of _ ?E]) (simp add: SNI_SpawnRoutine_def Let_def)
qed

theorem SNI_disposes_witness:
  "\<exists>E' tail. SNI_SpawnRoutine sample_world demo_host demo_tun
      \<lparr>sni_BindAddress = '':443'', sni_TunnelDomains = [], sni_LogDomains = False\<rparr> demo_sni [Inr 3] =
    Listening 4 # concat (map (\<lambda>c. Accepted c # sniServe E' c) (accepted [Inr 3])) @ tail"
  using SNI_disposes [of demo_host "\<lparr>sni_BindAddress = '':443'', sni_TunnelDomains = [], sni_LogDomains = False\<rparr>"
      4 sample_world demo_tun demo_sni "[Inr 3]"]
  by (auto simp: demo_host_def)

end
