(* ===== verification/Udp_Proxy.thy ===== *)
theory Udp_Proxy
  imports Ping
begin

text \<open>
  The UDP tunnel (\<^verbatim>\<open>udp_proxy.go\<close>): a reader, a cleaner and one handler goroutine per session around
  a table of sessions. Every access to the table holds \<^verbatim>\<open>sessionMu\<close>, so each critical section is
  one step of a transition system; dials, reads and writes happen between steps.
\<close>

section \<open>State\<close>

text \<open>A session; \<open>us_closeChan\<close> tells whether its channel has been closed.\<close>

record udpSession =
  us_remoteConn :: conn
  us_lastActive :: int
  us_closeChan :: bool

text \<open>Where the reader goroutine is inside \<^verbatim>\<open>getOrCreateSession\<close>: before it, after a miss, with a
  dialled connection, or with a session it is about to write to.\<close>

datatype reader = Idle | Missed string | HasConn string conn | Got string nat

text \<open>Sessions live in a store and are referred to by position. \<open>u_running\<close> are the handlers in
  their loop, \<open>u_closing\<close> those that have removed their session but not yet closed its
  connection. Remote connections are numbered in the order they were dialled. \<open>u_buf\<close> is the
  datagram the reader holds. The last three fields record what happened: the source each
  connection was dialled for, the datagrams written to connections (source, connection, data) and
  the replies written to clients (connection, client, data).\<close>

record udp_state =
  u_sessions :: "(string \<times> nat) list"
  u_store :: "udpSession list"
  u_reader :: reader
  u_running :: "(string \<times> nat) list"
  u_closing :: "nat list"
  u_closed :: "conn list"
  u_conns :: nat
  u_buf :: string
  u_sources :: "string list"
  u_out :: "(string \<times> conn \<times> string) list"
  u_back :: "(conn \<times> string \<times> string) list"

definition udp_start :: udp_state where
  "udp_start =
     \<lparr>u_sessions = [], u_store = [], u_reader = Idle, u_running = [], u_closing = [], u_closed = [],
      u_conns = 0, u_buf = [], u_sources = [], u_out = [], u_back = []\<rparr>"

text \<open>What \<^verbatim>\<open>SpawnRoutine\<close> does before it starts its goroutines: resolve the bind address and listen.
  On success the goroutines start from \<open>udp_start\<close>.\<close>

definition UDPProxyTunnel_SpawnRoutine ::
    "(string \<Rightarrow> string ext) \<Rightarrow> (string \<Rightarrow> listener ext) \<Rightarrow> VirtualTun \<Rightarrow> UDPProxyTunnelConfig
      \<Rightarrow> net_event list \<times> udp_state option" where
  "UDPProxyTunnel_SpawnRoutine resolveUDPAddr listenUDP vt conf =
     (case lib (resolveUDPAddr (udp_BindAddress conf)) of
        Inl err \<Rightarrow>
          ([VirtualTun_Errorf vt ''UDP proxy tunnel: could not resolve bind address %s: %v'' [udp_BindAddress conf] err], None)
      | Inr addr \<Rightarrow>
          (case lib (listenUDP addr) of
             Inl err \<Rightarrow>
               ([VirtualTun_Errorf vt ''UDP proxy tunnel: could not listen on %s: %v'' [udp_BindAddress conf] err], None)
           | Inr listener \<Rightarrow> ([Listening listener], Some udp_start)))"

section \<open>Operations\<close>

definition inactivityDur :: "UDPProxyTunnelConfig \<Rightarrow> int" where
  "inactivityDur conf = wrap64 (udp_InactivityTimeout conf * second)"

definition touch :: "nat \<Rightarrow> int \<Rightarrow> udp_state \<Rightarrow> udp_state" where
  "touch sid now st = st\<lparr>u_store := (u_store st)[sid := (u_store st ! sid)\<lparr>us_lastActive := now\<rparr>]\<rparr>"

definition closeSessionChan :: "nat \<Rightarrow> udp_state \<Rightarrow> udp_state" where
  "closeSessionChan sid st =
     (if us_closeChan (u_store st ! sid) then st
      else st\<lparr>u_store := (u_store st)[sid := (u_store st ! sid)\<lparr>us_closeChan := True\<rparr>]\<rparr>)"

definition removeSession :: "string \<Rightarrow> nat \<Rightarrow> udp_state \<Rightarrow> udp_state" where
  "removeSession src sid st =
     (if map_of (u_sessions st) src = Some sid then
        (let st = closeSessionChan sid st in st\<lparr>u_sessions := AList.delete src (u_sessions st)\<rparr>)
      else st)"

text \<open>The difference of two times saturates.\<close>

definition expired :: "int \<Rightarrow> int \<Rightarrow> udp_state \<Rightarrow> nat \<Rightarrow> bool" where
  "expired dur now st sid =
     (dur \<le> max (- (2 ^ 63)) (min (2 ^ 63 - 1) (now - us_lastActive (u_store st ! sid))))"

text \<open>One tick of the cleaner.\<close>

definition clean_one :: "int \<Rightarrow> int \<Rightarrow> string \<times> nat \<Rightarrow> udp_state \<Rightarrow> udp_state" where
  "clean_one dur now ks st =
     (if expired dur now st (snd ks) then
        (let st = closeSessionChan (snd ks) st in st\<lparr>u_sessions := AList.delete (fst ks) (u_sessions st)\<rparr>)
      else st)"

definition clean_sessions :: "int \<Rightarrow> int \<Rightarrow> udp_state \<Rightarrow> udp_state" where
  "clean_sessions dur now st = fold (clean_one dur now) (u_sessions st) st"

text \<open>\<^verbatim>\<open>getOrCreateSession\<close>, split at the points where it does not hold the mutex.\<close>

definition session_lookup :: "string \<Rightarrow> string \<Rightarrow> int \<Rightarrow> udp_state \<Rightarrow> udp_state" where
  "session_lookup src data now st =
     (case map_of (u_sessions st) src of
        Some sid \<Rightarrow> (touch sid now st)\<lparr>u_reader := Got src sid, u_buf := data\<rparr>
      | None \<Rightarrow> st\<lparr>u_reader := Missed src, u_buf := data\<rparr>)"

definition session_dial :: "string \<Rightarrow> bool \<Rightarrow> udp_state \<Rightarrow> udp_state" where
  "session_dial src ok st =
     (if ok then st\<lparr>u_reader := HasConn src (u_conns st), u_conns := Suc (u_conns st),
                     u_sources := u_sources st @ [src]\<rparr>
      else st\<lparr>u_reader := Idle\<rparr>)"

definition session_insert :: "string \<Rightarrow> conn \<Rightarrow> int \<Rightarrow> udp_state \<Rightarrow> udp_state" where
  "session_insert src c now st =
     (case map_of (u_sessions st) src of
        Some sid \<Rightarrow> (touch sid now st)\<lparr>u_closed := c # u_closed st, u_reader := Got src sid\<rparr>
      | None \<Rightarrow>
          let sid = length (u_store st) in
          st\<lparr>u_store := u_store st @ [\<lparr>us_remoteConn = c, us_lastActive = now, us_closeChan = False\<rparr>],
             u_sessions := (src, sid) # u_sessions st,
             u_running := (src, sid) # u_running st,
             u_reader := Got src sid\<rparr>)"

definition session_write :: "string \<Rightarrow> nat \<Rightarrow> int \<Rightarrow> udp_state \<Rightarrow> udp_state" where
  "session_write src sid now st =
     (touch sid now st)\<lparr>u_reader := Idle,
        u_out := (src, us_remoteConn (u_store st ! sid), u_buf st) # u_out st\<rparr>"

text \<open>
  One turn of the loop of \<^verbatim>\<open>handleRemoteToLocal\<close>: whether it returns, and what it does to the
  state. \<open>closed0\<close> and \<open>closed1\<close> are what the two looks at the channel saw; \<open>resolved\<close> and \<open>written\<close>
  whether the client's address resolved and the reply could be written.
\<close>

datatype read_result = Data string | Timeout | ReadError string

definition handler_returns :: "bool \<Rightarrow> read_result \<Rightarrow> bool \<Rightarrow> bool \<Rightarrow> bool \<Rightarrow> bool" where
  "handler_returns closed0 r closed1 resolved written =
     (closed0 \<or>
      (case r of
         Timeout \<Rightarrow> closed1
       | ReadError _ \<Rightarrow> True
       | Data _ \<Rightarrow> \<not> resolved \<or> \<not> written))"

definition handler_work :: "string \<Rightarrow> nat \<Rightarrow> bool \<Rightarrow> read_result \<Rightarrow> bool \<Rightarrow> bool \<Rightarrow> int \<Rightarrow> udp_state \<Rightarrow> udp_state" where
  "handler_work src sid closed0 r resolved written now st =
     (case r of
        Data d \<Rightarrow>
          if closed0 then st
          else
            let st = touch sid now st in
            if resolved \<and> written
            then st\<lparr>u_back := (us_remoteConn (u_store st ! sid), src, d) # u_back st\<rparr>
            else st
      | _ \<Rightarrow> st)"

text \<open>The deferred function: the session is removed, then its connection closed.\<close>

definition handler_exit :: "string \<Rightarrow> nat \<Rightarrow> udp_state \<Rightarrow> udp_state" where
  "handler_exit src sid st =
     (let st = removeSession src sid st
      in st\<lparr>u_running := remove1 (src, sid) (u_running st), u_closing := sid # u_closing st\<rparr>)"

definition handler_close :: "nat \<Rightarrow> udp_state \<Rightarrow> udp_state" where
  "handler_close sid st =
     st\<lparr>u_closing := remove1 sid (u_closing st),
        u_closed := us_remoteConn (u_store st ! sid) # u_closed st\<rparr>"

section \<open>Steps\<close>

text \<open>The interleavings of the goroutines for one configuration.\<close>

inductive udp_step :: "UDPProxyTunnelConfig \<Rightarrow> udp_state \<Rightarrow> udp_state \<Rightarrow> bool" for conf where
  lookup: "u_reader st = Idle \<Longrightarrow> udp_step conf st (session_lookup src data now st)"
| dial: "u_reader st = Missed src \<Longrightarrow> udp_step conf st (session_dial src ok st)"
| insert: "u_reader st = HasConn src c \<Longrightarrow> udp_step conf st (session_insert src c now st)"
| send: "u_reader st = Got src sid \<Longrightarrow> udp_step conf st (session_write src sid now st)"
| clean: "0 < udp_InactivityTimeout conf \<Longrightarrow>
    udp_step conf st (clean_sessions (inactivityDur conf) now st)"
| turn: "(src, sid) \<in> set (u_running st) \<Longrightarrow>
    (closed0 \<longrightarrow> closed1) \<Longrightarrow> (closed1 \<longrightarrow> us_closeChan (u_store st ! sid)) \<Longrightarrow>
    \<not> handler_returns closed0 r closed1 resolved written \<Longrightarrow>
    udp_step conf st (handler_work src sid closed0 r resolved written now st)"
| leave: "(src, sid) \<in> set (u_running st) \<Longrightarrow>
    (closed0 \<longrightarrow> closed1) \<Longrightarrow> (closed1 \<longrightarrow> us_closeChan (u_store st ! sid)) \<Longrightarrow>
    handler_returns closed0 r closed1 resolved written \<Longrightarrow>
    udp_step conf st (handler_exit src sid (handler_work src sid closed0 r resolved written now st))"
| close: "sid \<in> set (u_closing st) \<Longrightarrow> udp_step conf st (handler_close sid st)"

inductive_cases udp_stepE: "udp_step conf st st'"

section \<open>Invariant\<close>

text \<open>Every remote connection ever dialled, with whoever holds it now.\<close>

definition reader_conns :: "reader \<Rightarrow> conn list" where
  "reader_conns r = (case r of HasConn _ c \<Rightarrow> [c] | _ \<Rightarrow> [])"

definition held_conns :: "udp_state \<Rightarrow> conn list" where
  "held_conns st =
     u_closed st @ map (\<lambda>sid. us_remoteConn (u_store st ! sid)) (map snd (u_running st) @ u_closing st) @
     reader_conns (u_reader st)"

definition reader_ok :: "udp_state \<Rightarrow> bool" where
  "reader_ok st =
     (case u_reader st of
        Idle \<Rightarrow> True
      | Missed src \<Rightarrow> src \<notin> fst ` set (u_sessions st)
      | HasConn src c \<Rightarrow> src \<notin> fst ` set (u_sessions st)
      | Got src sid \<Rightarrow> sid < length (u_store st))"

definition dialed_conns :: "nat \<Rightarrow> conn multiset" where
  "dialed_conns n = mset [0..<n]"

text \<open>The table: no source and no session twice; every session in it is open and has its handler.\<close>

definition table_ok :: "udp_state \<Rightarrow> bool" where
  "table_ok st =
     (distinct (map fst (u_sessions st)) \<and> distinct (map snd (u_sessions st)) \<and>
      (\<forall>src sid. (src, sid) \<in> set (u_sessions st) \<longrightarrow>
         (src, sid) \<in> set (u_running st) \<and> \<not> us_closeChan (u_store st ! sid)))"

definition handlers_ok :: "udp_state \<Rightarrow> bool" where
  "handlers_ok st =
     ((\<forall>src sid. (src, sid) \<in> set (u_running st) \<longrightarrow> sid < length (u_store st)) \<and>
      (\<forall>sid \<in> set (u_closing st). sid < length (u_store st)))"

definition conns_ok :: "udp_state \<Rightarrow> bool" where
  "conns_ok st = (mset (held_conns st) = dialed_conns (u_conns st))"

definition udp_inv :: "udp_state \<Rightarrow> bool" where
  "udp_inv st = (table_ok st \<and> handlers_ok st \<and> conns_ok st \<and> reader_ok st)"

lemma dialed_conns_Suc: "dialed_conns (Suc n) = add_mset n (dialed_conns n)"
  by (simp add: dialed_conns_def)

subsection \<open>Frame lemmas\<close>

lemma touch_store [simp]:
  "us_remoteConn (u_store (touch sid now st) ! i) = us_remoteConn (u_store st ! i)"
  "us_closeChan (u_store (touch sid now st) ! i) = us_closeChan (u_store st ! i)"
  "length (u_store (touch sid now st)) = length (u_store st)"
  by (cases "sid < length (u_store st)"; cases "i = sid"; simp add: touch_def list_update_beyond)+

lemma touch_frame [simp]:
  "u_sessions (touch sid now st) = u_sessions st" "u_reader (touch sid now st) = u_reader st"
  "u_running (touch sid now st) = u_running st" "u_closing (touch sid now st) = u_closing st"
  "u_closed (touch sid now st) = u_closed st" "u_conns (touch sid now st) = u_conns st"
  by (simp_all add: touch_def)

lemma chan_store [simp]:
  "us_remoteConn (u_store (closeSessionChan sid st) ! i) = us_remoteConn (u_store st ! i)"
  "length (u_store (closeSessionChan sid st)) = length (u_store st)"
  by (cases "sid < length (u_store st)"; cases "i = sid"; simp add: closeSessionChan_def list_update_beyond)+

lemma chan_other [simp]:
  "i \<noteq> sid \<Longrightarrow> us_closeChan (u_store (closeSessionChan sid st) ! i) = us_closeChan (u_store st ! i)"
  by (simp add: closeSessionChan_def)

lemma chan_frame [simp]:
  "u_sessions (closeSessionChan sid st) = u_sessions st" "u_reader (closeSessionChan sid st) = u_reader st"
  "u_running (closeSessionChan sid st) = u_running st" "u_closing (closeSessionChan sid st) = u_closing st"
  "u_closed (closeSessionChan sid st) = u_closed st" "u_conns (closeSessionChan sid st) = u_conns st"
  by (simp_all add: closeSessionChan_def)

lemma inv_touch [simp]:
  "table_ok (touch sid now st) = table_ok st" "handlers_ok (touch sid now st) = handlers_ok st"
  "held_conns (touch sid now st) = held_conns st" "conns_ok (touch sid now st) = conns_ok st"
  "reader_ok (touch sid now st) = reader_ok st"
  by (simp_all add: table_ok_def handlers_ok_def held_conns_def conns_ok_def reader_ok_def
        split: reader.split)

lemma udp_inv_touch [simp]: "udp_inv (touch sid now st) = udp_inv st"
  by (simp add: udp_inv_def)

text \<open>Closing the channel of a session and deleting it from the table.\<close>

definition drop_session :: "string \<Rightarrow> nat \<Rightarrow> udp_state \<Rightarrow> udp_state" where
  "drop_session src sid st =
     (let st = closeSessionChan sid st in st\<lparr>u_sessions := AList.delete src (u_sessions st)\<rparr>)"

lemma drop_session_frame [simp]:
  "u_sessions (drop_session src sid st) = AList.delete src (u_sessions st)"
  "u_reader (drop_session src sid st) = u_reader st" "u_running (drop_session src sid st) = u_running st"
  "u_closing (drop_session src sid st) = u_closing st" "u_closed (drop_session src sid st) = u_closed st"
  "u_conns (drop_session src sid st) = u_conns st"
  "u_store (drop_session src sid st) = u_store (closeSessionChan sid st)"
  by (simp_all add: drop_session_def Let_def)

lemma distinct_snd_delete: "distinct (map snd al) \<Longrightarrow> distinct (map snd (AList.delete k al))"
  by (simp add: AList.delete_eq distinct_map_filter)

lemma set_delete_iff: "(k', v) \<in> set (AList.delete k al) \<longleftrightarrow> (k', v) \<in> set al \<and> k' \<noteq> k"
  by (auto simp: AList.delete_eq)

lemma keys_delete: "fst ` set (AList.delete k al) \<subseteq> fst ` set al"
  by (auto simp: AList.delete_eq)

lemma drop_inv_parts:
  "handlers_ok (drop_session src sid st) = handlers_ok st"
  "held_conns (drop_session src sid st) = held_conns st"
  "conns_ok (drop_session src sid st) = conns_ok st"
  by (simp_all add: handlers_ok_def held_conns_def conns_ok_def)

lemma reader_ok_drop: "reader_ok st \<Longrightarrow> reader_ok (drop_session src sid st)"
  using keys_delete [of src "u_sessions st"] by (auto simp: reader_ok_def split: reader.splits)

lemma table_ok_drop:
  assumes "table_ok st" and "\<forall>src'. (src', sid) \<in> set (u_sessions st) \<longrightarrow> src' = src"
  shows "table_ok (drop_session src sid st)"
proof -
  have "\<not> us_closeChan (u_store (closeSessionChan sid st) ! i)"
    if "(k, i) \<in> set (u_sessions st)" "k \<noteq> src" for k i
  proof -
    have "i \<noteq> sid" using that assms(2) by auto
    then show ?thesis using assms(1) that by (auto simp: table_ok_def)
  qed
  then show ?thesis
    using assms(1) by (auto simp: table_ok_def set_delete_iff distinct_delete distinct_snd_delete)
qed

lemma drop_session_inv:
  "udp_inv st \<Longrightarrow> \<forall>src'. (src', sid) \<in> set (u_sessions st) \<longrightarrow> src' = src \<Longrightarrow>
   udp_inv (drop_session src sid st)"
  by (simp add: udp_inv_def drop_inv_parts reader_ok_drop table_ok_drop)

lemma distinct_snd_fst: "distinct (map snd al) \<Longrightarrow> (a, v) \<in> set al \<Longrightarrow> (b, v) \<in> set al \<Longrightarrow> a = b"
  by (metis distinct_map inj_on_def fst_conv snd_conv)

lemma inv_session_owner:
  "udp_inv st \<Longrightarrow> (src, sid) \<in> set (u_sessions st) \<Longrightarrow> (src', sid) \<in> set (u_sessions st) \<Longrightarrow> src' = src"
  by (auto simp: udp_inv_def table_ok_def dest: distinct_snd_fst)

subsection \<open>Preservation, step by step\<close>

lemma removeSession_drop:
  "removeSession src sid st =
     (if map_of (u_sessions st) src = Some sid then drop_session src sid st else st)"
  by (simp add: removeSession_def drop_session_def)

lemma removeSession_inv: "udp_inv st \<Longrightarrow> udp_inv (removeSession src sid st)"
  by (auto simp: removeSession_drop intro!: drop_session_inv dest: map_of_SomeD inv_session_owner)

lemma clean_one_drop:
  "clean_one dur now ks st =
     (if expired dur now st (snd ks) then drop_session (fst ks) (snd ks) st else st)"
  by (simp add: clean_one_def drop_session_def)

lemma clean_fold_inv:
  assumes "udp_inv st" and "set ks \<subseteq> set al" and "set (u_sessions st) \<subseteq> set al" and "distinct (map snd al)"
  shows "udp_inv (fold (clean_one dur now) ks st)"
  using assms
proof (induction ks arbitrary: st)
  case (Cons k ks)
  obtain src sid where k: "k = (src, sid)" by fastforce
  have only: "\<forall>src'. (src', sid) \<in> set (u_sessions st) \<longrightarrow> src' = src"
    using Cons.prems k distinct_snd_fst [OF Cons.prems(4)] by (meson list.set_intros(1) subsetD)
  have "udp_inv (clean_one dur now k st)"
    using Cons.prems(1) only by (simp add: clean_one_drop drop_session_inv k)
  moreover have "set (u_sessions (clean_one dur now k st)) \<subseteq> set al"
    using Cons.prems(3) by (auto simp: clean_one_drop set_delete_iff)
  ultimately show ?case using Cons.IH Cons.prems(2,4) by simp
qed simp

lemma clean_sessions_inv: "udp_inv st \<Longrightarrow> udp_inv (clean_sessions dur now st)"
  unfolding clean_sessions_def
  by (rule clean_fold_inv [where al = "u_sessions st"]) (auto simp: udp_inv_def table_ok_def)

text \<open>Steps of the reader change only the reader's position in these parts.\<close>

lemma reader_frame [simp]:
  "table_ok (st\<lparr>u_reader := r\<rparr>) = table_ok st" "handlers_ok (st\<lparr>u_reader := r\<rparr>) = handlers_ok st"
  "table_ok (st\<lparr>u_conns := n\<rparr>) = table_ok st" "handlers_ok (st\<lparr>u_conns := n\<rparr>) = handlers_ok st"
  "table_ok (st\<lparr>u_closed := cs\<rparr>) = table_ok st" "handlers_ok (st\<lparr>u_closed := cs\<rparr>) = handlers_ok st"
  "table_ok (st\<lparr>u_buf := d\<rparr>) = table_ok st" "handlers_ok (st\<lparr>u_buf := d\<rparr>) = handlers_ok st"
  "table_ok (st\<lparr>u_sources := ss\<rparr>) = table_ok st" "handlers_ok (st\<lparr>u_sources := ss\<rparr>) = handlers_ok st"
  "table_ok (st\<lparr>u_out := os\<rparr>) = table_ok st" "handlers_ok (st\<lparr>u_out := os\<rparr>) = handlers_ok st"
  by (simp_all add: table_ok_def handlers_ok_def)

lemma session_sid: "udp_inv st \<Longrightarrow> map_of (u_sessions st) src = Some sid \<Longrightarrow> sid < length (u_store st)"
  by (auto simp: udp_inv_def table_ok_def handlers_ok_def dest!: map_of_SomeD)

lemma session_lookup_inv:
  assumes "udp_inv st" and "u_reader st = Idle"
  shows "udp_inv (session_lookup src data now st)"
proof (cases "map_of (u_sessions st) src")
  case None
  then have "session_lookup src data now st = st\<lparr>u_reader := Missed src, u_buf := data\<rparr>"
    by (simp add: session_lookup_def)
  moreover have "src \<notin> fst ` set (u_sessions st)" using None by (simp add: map_of_eq_None_iff)
  ultimately show ?thesis
    using assms by (simp add: udp_inv_def conns_ok_def held_conns_def reader_ok_def reader_conns_def)
next
  case (Some sid)
  then show ?thesis
    using assms session_sid [OF assms(1) Some]
    by (simp add: session_lookup_def udp_inv_def conns_ok_def held_conns_def reader_ok_def reader_conns_def)
qed

lemma session_dial_inv:
  assumes "udp_inv st" and "u_reader st = Missed src"
  shows "udp_inv (session_dial src ok st)"
  using assms
  by (simp add: session_dial_def udp_inv_def conns_ok_def held_conns_def reader_ok_def reader_conns_def
                dialed_conns_Suc)

lemma session_insert_new:
  assumes "udp_inv st" and "u_reader st = HasConn src c"
  shows "map_of (u_sessions st) src = None"
  using assms by (auto simp: udp_inv_def reader_ok_def map_of_eq_None_iff)

lemma session_insert_inv:
  assumes "udp_inv st" and "u_reader st = HasConn src c"
  shows "udp_inv (session_insert src c now st)"
proof -
  let ?n = "length (u_store st)"
  let ?s = "\<lparr>us_remoteConn = c, us_lastActive = now, us_closeChan = False\<rparr>"
  have h: "handlers_ok st" and t: "table_ok st" and k: "conns_ok st" using assms(1) by (auto simp: udp_inv_def)
  have sids: "sid < ?n" if "(k, sid) \<in> set (u_sessions st)" for k sid
    using h t that unfolding handlers_ok_def table_ok_def by blast
  let ?st = "session_insert src c now st"
  have st: "?st = st\<lparr>u_store := u_store st @ [?s], u_sessions := (src, ?n) # u_sessions st,
      u_running := (src, ?n) # u_running st, u_reader := Got src ?n\<rparr>"
    using session_insert_new [OF assms] by (simp add: session_insert_def Let_def)
  have fresh: "src \<notin> fst ` set (u_sessions st)"
    using session_insert_new [OF assms] by (simp add: map_of_eq_None_iff)
  have "table_ok ?st"
    using t fresh sids unfolding st by (force simp: table_ok_def nth_append)
  moreover have "handlers_ok ?st" using h unfolding st by (auto simp: handlers_ok_def less_Suc_eq)
  moreover have "conns_ok ?st"
  proof -
    let ?L = "map snd (u_running st) @ u_closing st"
    have eq: "map (\<lambda>sid. us_remoteConn ((u_store st @ [?s]) ! sid)) ?L =
        map (\<lambda>sid. us_remoteConn (u_store st ! sid)) ?L"
      using h by (auto simp: handlers_ok_def nth_append)
    have "mset (held_conns ?st) =
        mset (u_closed st) + {#c#} + mset (map (\<lambda>sid. us_remoteConn ((u_store st @ [?s]) ! sid)) ?L)"
      unfolding st by (simp add: held_conns_def reader_conns_def)
    also have "\<dots> = mset (held_conns st)"
      unfolding eq using assms(2) by (simp add: held_conns_def reader_conns_def)
    finally show ?thesis using k unfolding conns_ok_def st by simp
  qed
  moreover have "reader_ok ?st" unfolding st by (simp add: reader_ok_def)
  ultimately show ?thesis by (simp add: udp_inv_def)
qed

lemma session_write_inv:
  assumes "udp_inv st" and "u_reader st = Got src sid"
  shows "udp_inv (session_write src sid now st)"
  using assms
  by (simp add: session_write_def udp_inv_def conns_ok_def held_conns_def reader_ok_def reader_conns_def)

lemma udp_inv_back [simp]: "udp_inv (st\<lparr>u_back := b\<rparr>) = udp_inv st"
  by (simp add: udp_inv_def table_ok_def handlers_ok_def conns_ok_def held_conns_def reader_ok_def
           split: reader.splits)

lemma handler_work_inv [simp]: "udp_inv (handler_work src sid closed0 r resolved written now st) = udp_inv st"
  by (simp add: handler_work_def Let_def split: read_result.split)

lemma handler_work_running [simp]: "u_running (handler_work src sid closed0 r resolved written now st) = u_running st"
  by (simp add: handler_work_def Let_def split: read_result.split)

lemma handler_exit_inv:
  assumes "udp_inv st" and "(src, sid) \<in> set (u_running st)"
  shows "udp_inv (handler_exit src sid st)"
proof -
  let ?r = "removeSession src sid st"
  have r: "udp_inv ?r" using assms(1) by (rule removeSession_inv)
  have run: "u_running ?r = u_running st" by (simp add: removeSession_drop)
  have gone: "(src, sid) \<notin> set (u_sessions ?r)"
    using assms(1) by (auto simp: removeSession_drop set_delete_iff udp_inv_def table_ok_def)
  have "ks \<in> set (remove1 (src, sid) (u_running st))" if "ks \<in> set (u_sessions ?r)" for ks
  proof -
    have "ks \<in> set (u_running st)" using r that run by (cases ks) (auto simp: udp_inv_def table_ok_def)
    moreover have "ks \<noteq> (src, sid)" using gone that by auto
    ultimately show ?thesis by (simp add: in_set_remove1)
  qed
  then have "table_ok (handler_exit src sid st)"
    using r run by (simp add: handler_exit_def Let_def udp_inv_def table_ok_def)
  moreover have "handlers_ok (handler_exit src sid st)"
    using r assms(2) run by (auto simp: handler_exit_def Let_def udp_inv_def handlers_ok_def dest: notin_set_remove1)
  moreover obtain xs ys where "u_running st = xs @ (src, sid) # ys" "(src, sid) \<notin> set xs"
    using split_list_first [OF assms(2)] by blast
  then have "mset (held_conns (handler_exit src sid st)) = mset (held_conns ?r)"
    using run
    by (simp add: handler_exit_def Let_def held_conns_def remove1_append)
  then have "conns_ok (handler_exit src sid st)"
    using r by (simp add: conns_ok_def udp_inv_def) (simp add: handler_exit_def Let_def)
  moreover have "reader_ok (handler_exit src sid st)"
    using r by (simp add: handler_exit_def Let_def udp_inv_def reader_ok_def split: reader.splits)
  ultimately show ?thesis by (simp add: udp_inv_def)
qed

lemma handler_close_inv:
  assumes "udp_inv st" and "sid \<in> set (u_closing st)"
  shows "udp_inv (handler_close sid st)"
proof -
  obtain xs ys where split: "u_closing st = xs @ sid # ys" "sid \<notin> set xs"
    using split_list_first [OF assms(2)] by blast
  then have "mset (held_conns (handler_close sid st)) = mset (held_conns st)"
    by (simp add: handler_close_def held_conns_def remove1_append)
  moreover have "handlers_ok (handler_close sid st)"
    using assms(1) by (auto simp: udp_inv_def handlers_ok_def handler_close_def dest: notin_set_remove1)
  ultimately show ?thesis
    using assms(1)
    by (simp add: udp_inv_def conns_ok_def)
       (simp add: handler_close_def table_ok_def reader_ok_def split: reader.splits)
qed

lemma udp_step_inv: "udp_inv st \<Longrightarrow> udp_step conf st st' \<Longrightarrow> udp_inv st'"
  by (erule udp_step.cases)
     (auto intro: session_lookup_inv session_dial_inv session_insert_inv session_write_inv
        clean_sessions_inv handler_exit_inv handler_close_inv)

lemma udp_start_inv: "udp_inv udp_start"
  by (simp add: udp_start_def udp_inv_def table_ok_def handlers_ok_def conns_ok_def held_conns_def
                reader_conns_def reader_ok_def dialed_conns_def)

interpretation udp: invariant_system "\<lambda>st. st = udp_start" "udp_step conf" udp_inv for conf
  by unfold_locales (auto intro: udp_start_inv udp_step_inv)

subsection \<open>Who talks to whom\<close>

text \<open>The uses of connections so far: by the handlers, the reader, the datagrams sent and the
  replies; each with the source it is for.\<close>

definition reader_uses :: "udp_state \<Rightarrow> (conn \<times> string) list" where
  "reader_uses st =
     (case u_reader st of
        HasConn src c \<Rightarrow> [(c, src)]
      | Got src sid \<Rightarrow> [(us_remoteConn (u_store st ! sid), src)]
      | _ \<Rightarrow> [])"

definition conn_uses :: "udp_state \<Rightarrow> (conn \<times> string) list" where
  "conn_uses st =
     map (\<lambda>(src, sid). (us_remoteConn (u_store st ! sid), src)) (u_running st) @ reader_uses st @
     map (\<lambda>(src, c, d). (c, src)) (u_out st) @ map (\<lambda>(c, src, d). (c, src)) (u_back st)"

definition dialed_for :: "string list \<Rightarrow> conn \<times> string \<Rightarrow> bool" where
  "dialed_for sources use = (fst use < length sources \<and> sources ! fst use = snd use)"

definition routes_ok :: "udp_state \<Rightarrow> bool" where
  "routes_ok st =
     (length (u_sources st) = u_conns st \<and> list_all (dialed_for (u_sources st)) (conn_uses st))"

lemma conn_use_iff:
  "(c, src) \<in> set (conn_uses st) \<longleftrightarrow>
     (\<exists>sid. (src, sid) \<in> set (u_running st) \<and> c = us_remoteConn (u_store st ! sid)) \<or>
     (c, src) \<in> set (reader_uses st) \<or>
     (\<exists>d. (src, c, d) \<in> set (u_out st)) \<or> (\<exists>d. (c, src, d) \<in> set (u_back st))"
  by (force simp: conn_uses_def)

lemma routes_mono:
  assumes "routes_ok st" and "u_sources st' = u_sources st" and "u_conns st' = u_conns st"
    and "\<And>c src. (c, src) \<in> set (conn_uses st') \<Longrightarrow> (c, src) \<in> set (conn_uses st)"
  shows "routes_ok st'"
  using assms by (auto simp: routes_ok_def list_all_iff)

lemma traffic_frame [simp]:
  "u_sources (touch sid now st) = u_sources st" "u_out (touch sid now st) = u_out st"
  "u_back (touch sid now st) = u_back st"
  "u_sources (drop_session src sid st) = u_sources st" "u_out (drop_session src sid st) = u_out st"
  "u_back (drop_session src sid st) = u_back st"
  by (simp_all add: touch_def drop_session_def closeSessionChan_def Let_def)

lemma uses_frame [simp]:
  "conn_uses (touch sid now st) = conn_uses st" "conn_uses (drop_session src sid st) = conn_uses st"
  by (simp_all add: conn_uses_def reader_uses_def cong: reader.case_cong)

lemma routes_frame [simp]:
  "routes_ok (touch sid now st) = routes_ok st" "routes_ok (drop_session src sid st) = routes_ok st"
  by (simp_all add: routes_ok_def)

lemma routes_clean [simp]: "routes_ok (clean_sessions dur now st) = routes_ok st"
proof -
  have "routes_ok (fold (clean_one dur now) ks st) = routes_ok st" for ks
    by (induction ks arbitrary: st) (simp_all add: clean_one_drop)
  then show ?thesis by (simp add: clean_sessions_def)
qed

lemma session_use:
  assumes "udp_inv st" and "map_of (u_sessions st) src = Some sid"
  shows "(us_remoteConn (u_store st ! sid), src) \<in> set (conn_uses st)"
proof -
  have "(src, sid) \<in> set (u_running st)"
    using assms by (auto simp: udp_inv_def table_ok_def dest!: map_of_SomeD)
  then show ?thesis by (auto simp: conn_use_iff)
qed

lemma lookup_routes:
  assumes "udp_inv st" and "routes_ok st" and "u_reader st = Idle"
  shows "routes_ok (session_lookup src data now st)"
proof (cases "map_of (u_sessions st) src")
  case None
  then show ?thesis
    by (intro routes_mono [OF assms(2)]) (auto simp: session_lookup_def conn_use_iff reader_uses_def)
next
  case (Some sid)
  then show ?thesis
    using session_use [OF assms(1) Some]
    by (intro routes_mono [OF assms(2)]) (auto simp: session_lookup_def conn_use_iff reader_uses_def)
qed

lemma dialed_for_snoc: "dialed_for ss u \<Longrightarrow> dialed_for (ss @ [s]) u"
  by (auto simp: dialed_for_def nth_append)

lemma dial_routes:
  assumes "routes_ok st" and "u_reader st = Missed src"
  shows "routes_ok (session_dial src ok st)"
proof (cases ok)
  case True
  have "dialed_for (u_sources st @ [src]) u" if "u \<in> set (conn_uses st)" for u
    using assms(1) that by (intro dialed_for_snoc) (auto simp: routes_ok_def list_all_iff)
  moreover have "u = (u_conns st, src) \<or> u \<in> set (conn_uses st)"
    if "u \<in> set (conn_uses (session_dial src ok st))" for u
    using True that by (cases u) (auto simp: session_dial_def conn_use_iff reader_uses_def)
  moreover have "dialed_for (u_sources st @ [src]) (u_conns st, src)"
    using assms(1) by (auto simp: dialed_for_def routes_ok_def nth_append)
  moreover have "u_sources (session_dial src ok st) = u_sources st @ [src]"
    "u_conns (session_dial src ok st) = Suc (u_conns st)" using True by (simp_all add: session_dial_def)
  ultimately show ?thesis
    using assms(1) unfolding routes_ok_def list_all_iff by auto
next
  case False
  then show ?thesis
    by (intro routes_mono [OF assms(1)]) (auto simp: session_dial_def conn_use_iff reader_uses_def)
qed

lemma insert_routes:
  assumes "udp_inv st" and "routes_ok st" and "u_reader st = HasConn src c"
  shows "routes_ok (session_insert src c now st)"
proof -
  have "sid < length (u_store st)" if "(k, sid) \<in> set (u_running st)" for k sid
    using assms(1) that by (auto simp: udp_inv_def handlers_ok_def)
  then show ?thesis
    using assms(3) session_insert_new [OF assms(1,3)]
    by (intro routes_mono [OF assms(2)])
       (auto simp: session_insert_def conn_use_iff reader_uses_def nth_append Let_def)
qed

lemma write_routes:
  assumes "routes_ok st" and "u_reader st = Got src sid"
  shows "routes_ok (session_write src sid now st)"
  using assms(2)
  by (intro routes_mono [OF assms(1)]) (auto simp: session_write_def conn_use_iff reader_uses_def)

lemma work_routes:
  assumes "routes_ok st" and "(src, sid) \<in> set (u_running st)"
  shows "routes_ok (handler_work src sid closed0 r resolved written now st)"
proof (cases "\<exists>d. r = Data d \<and> \<not> closed0 \<and> resolved \<and> written")
  case True
  then obtain d where w: "handler_work src sid closed0 r resolved written now st =
      (touch sid now st)\<lparr>u_back := (us_remoteConn (u_store st ! sid), src, d) # u_back st\<rparr>"
    by (auto simp: handler_work_def Let_def)
  have "(us_remoteConn (u_store st ! sid), src) \<in> set (conn_uses st)"
    using assms(2) by (auto simp: conn_use_iff)
  then show ?thesis
    unfolding w
    by (intro routes_mono [OF assms(1)])
       (auto simp: conn_use_iff reader_uses_def cong: reader.case_cong)
next
  case False
  then show ?thesis using assms(1) by (auto simp: handler_work_def Let_def split: read_result.split)
qed

lemma exit_routes:
  assumes "routes_ok st"
  shows "routes_ok (handler_exit src sid st)"
proof -
  have r: "routes_ok (removeSession src sid st)" using assms by (simp add: removeSession_drop)
  show ?thesis
    by (rule routes_mono [OF r])
       (auto simp: handler_exit_def conn_use_iff reader_uses_def Let_def
             dest: subsetD [OF set_remove1_subset] cong: reader.case_cong)
qed

lemma close_routes: "routes_ok st \<Longrightarrow> routes_ok (handler_close sid st)"
  by (erule routes_mono) (auto simp: handler_close_def conn_use_iff reader_uses_def cong: reader.case_cong)

lemma udp_step_routes: "udp_step conf st st' \<Longrightarrow> udp_inv st \<Longrightarrow> routes_ok st \<Longrightarrow> routes_ok st'"
  by (erule udp_step.cases)
     (auto intro: lookup_routes dial_routes insert_routes write_routes work_routes exit_routes close_routes)

lemma routes_start: "routes_ok udp_start"
  by (simp add: udp_start_def routes_ok_def conn_uses_def reader_uses_def)

interpretation udp_traffic: invariant_system "\<lambda>st. st = udp_start" "udp_step conf"
  "\<lambda>st. udp_inv st \<and> routes_ok st" for conf
  by unfold_locales (auto simp: udp_start_inv routes_start intro: udp_step_inv udp_step_routes)

subsection \<open>The cleaner\<close>

lemma expired_chan [simp]: "expired dur now (closeSessionChan i st) sid = expired dur now st sid"
  by (cases "i < length (u_store st)"; cases "sid = i")
     (simp_all add: expired_def closeSessionChan_def list_update_beyond)

lemma expired_drop [simp]: "expired dur now (drop_session src i st) sid = expired dur now st sid"
  using expired_chan [of dur now i st sid] by (simp add: expired_def)

lemma delete_filter: "AList.delete k al = filter (\<lambda>kv. fst kv \<noteq> k) al"
  by (auto simp: AList.delete_eq intro: filter_cong)

lemma clean_fold_sessions:
  "u_sessions (fold (clean_one dur now) ks st) =
     filter (\<lambda>kv. fst kv \<notin> fst ` {ks' \<in> set ks. expired dur now st (snd ks')}) (u_sessions st)"
proof (induction ks arbitrary: st)
  case (Cons k ks)
  then show ?case
    by (auto simp: clean_one_drop delete_filter intro!: filter_cong)
qed simp

lemma clean_sessions_keeps:
  assumes "distinct (map fst (u_sessions st))"
  shows "u_sessions (clean_sessions dur now st) =
    filter (\<lambda>kv. \<not> expired dur now st (snd kv)) (u_sessions st)"
proof -
  have "fst kv \<in> fst ` {ks \<in> set (u_sessions st). expired dur now st (snd ks)} \<longleftrightarrow> expired dur now st (snd kv)"
    if "kv \<in> set (u_sessions st)" for kv
    using assms that by (auto simp: distinct_map inj_on_def)
  then show ?thesis
    unfolding clean_sessions_def clean_fold_sessions by (intro filter_cong) auto
qed

subsection \<open>Draining\<close>

text \<open>From any state the reader can get back to its read, the handlers can leave on a read error and
  their connections be closed; each phase removes one thing at a time.\<close>

lemma drain_reader: "\<exists>st'. rtranclp (udp_step conf) st st' \<and> u_reader st' = Idle"
proof -
  have got: "\<exists>st'. rtranclp (udp_step conf) s st' \<and> u_reader st' = Idle" if "u_reader s = Got src sid" for s src sid
  proof -
    have "udp_step conf s (session_write src sid 0 s)" using that by (rule udp_step.send)
    moreover have "u_reader (session_write src sid 0 s) = Idle" by (simp add: session_write_def)
    ultimately show ?thesis by blast
  qed
  show ?thesis
  proof (cases "u_reader st")
    case (Missed src)
    have "udp_step conf st (session_dial src False st)" using Missed by (rule udp_step.dial)
    moreover have "u_reader (session_dial src False st) = Idle" by (simp add: session_dial_def)
    ultimately show ?thesis by blast
  next
    case (HasConn src c)
    have "udp_step conf st (session_insert src c 0 st)" using HasConn by (rule udp_step.insert)
    moreover have "\<exists>sid. u_reader (session_insert src c 0 st) = Got src sid"
      by (simp add: session_insert_def Let_def split: option.split)
    ultimately show ?thesis using got by (meson converse_rtranclp_into_rtranclp)
  qed (use got in auto)
qed

lemma handler_exit_frame [simp]:
  "u_running (handler_exit src sid st) = remove1 (src, sid) (u_running st)"
  "u_reader (handler_exit src sid st) = u_reader st"
  by (simp_all add: handler_exit_def removeSession_def Let_def)

lemma handler_leaves:
  "(src, sid) \<in> set (u_running st) \<Longrightarrow> udp_step conf st (handler_exit src sid st)"
  using udp_step.leave [of src sid st False False "ReadError []" False False conf 0]
  by (simp add: handler_returns_def handler_work_def)

lemma drain_running:
  "\<exists>st'. rtranclp (udp_step conf) st st' \<and> u_reader st' = u_reader st \<and> u_running st' = []"
proof (induction "length (u_running st)" arbitrary: st)
  case (Suc n)
  then obtain src sid where r: "(src, sid) \<in> set (u_running st)" by (cases "u_running st") auto
  then have "n = length (u_running (handler_exit src sid st))" using Suc(2) by (simp add: length_remove1)
  from Suc(1) [OF this] handler_leaves [OF r] show ?case
    by (metis converse_rtranclp_into_rtranclp handler_exit_frame(2))
qed auto

lemma drain_closing:
  "\<exists>st'. rtranclp (udp_step conf) st st' \<and> u_reader st' = u_reader st \<and> u_running st' = u_running st \<and>
     u_closing st' = []"
proof (induction "length (u_closing st)" arbitrary: st)
  case (Suc n)
  then obtain sid where r: "sid \<in> set (u_closing st)" by (cases "u_closing st") auto
  let ?s = "handler_close sid st"
  have s: "u_reader ?s = u_reader st" "u_running ?s = u_running st" "u_closing ?s = remove1 sid (u_closing st)"
    by (simp_all add: handler_close_def)
  have "n = length (u_closing ?s)" using Suc(2) r by (simp add: s length_remove1)
  from Suc(1) [OF this] udp_step.close [OF r] show ?case
    unfolding s by (metis converse_rtranclp_into_rtranclp)
qed auto

lemma drained:
  assumes "udp_inv st" and "u_reader st = Idle" and "u_running st = []" and "u_closing st = []"
  shows "u_sessions st = [] \<and> mset (u_closed st) = mset [0..<u_conns st]"
proof -
  have "(k, i) \<notin> set (u_sessions st)" for k i
    using assms(1,3) by (auto simp: udp_inv_def table_ok_def)
  then have "u_sessions st = []" by (cases "u_sessions st") auto
  moreover have "mset (u_closed st) = mset [0..<u_conns st]"
    using assms by (simp add: udp_inv_def conns_ok_def held_conns_def reader_conns_def dialed_conns_def)
  ultimately show ?thesis ..
qed

section \<open>Properties\<close>

text \<open>C5: no remote connection of a UDP tunnel is leaked or closed twice. In every state the goroutines
  can reach, however their steps interleave, the connections dialled so far are exactly those
  closed once, those owned by one handler each, and the one the reader is setting up; and every
  session in the table is open and has its handler running.\<close>

theorem udp_connections_accounted:
  assumes "rtranclp (udp_step conf) udp_start st"
  shows "mset (u_closed st) +
      mset (map (\<lambda>sid. us_remoteConn (u_store st ! sid)) (map snd (u_running st) @ u_closing st)) +
      mset (case u_reader st of HasConn _ c \<Rightarrow> [c] | _ \<Rightarrow> []) = mset [0..<u_conns st] \<and>
    distinct (map fst (u_sessions st)) \<and> distinct (map snd (u_sessions st)) \<and>
    (\<forall>src sid. map_of (u_sessions st) src = Some sid \<longrightarrow>
       (src, sid) \<in> set (u_running st) \<and> \<not> us_closeChan (u_store st ! sid))"
  using udp.inv_reachable [OF refl assms]
  by (auto simp: udp_inv_def conns_ok_def held_conns_def reader_conns_def dialed_conns_def table_ok_def
                 ac_simps dest!: map_of_SomeD)

definition demo_udp :: UDPProxyTunnelConfig where
  "demo_udp = \<lparr>udp_BindAddress = '':53'', udp_Target = ''10.0.0.1:53'', udp_InactivityTimeout = 30\<rparr>"

definition demo_missed :: udp_state where
  "demo_missed = session_lookup ''c:1'' ''ping'' 0 udp_start"

definition demo_dialed :: udp_state where
  "demo_dialed = session_dial ''c:1'' True demo_missed"

definition demo_inserted :: udp_state where
  "demo_inserted = session_insert ''c:1'' 0 1 demo_dialed"

lemma demo_run_dialed: "rtranclp (udp_step demo_udp) udp_start demo_dialed"
proof -
  have "udp_step demo_udp udp_start demo_missed"
    unfolding demo_missed_def by (rule udp_step.lookup) (simp add: udp_start_def)
  moreover have "udp_step demo_udp demo_missed demo_dialed"
    unfolding demo_dialed_def
    by (rule udp_step.dial) (simp add: demo_missed_def session_lookup_def udp_start_def)
  ultimately show ?thesis by (meson rtranclp.simps)
qed

lemma demo_dialed_reader: "u_reader demo_dialed = HasConn ''c:1'' 0"
  by (simp add: demo_dialed_def demo_missed_def session_lookup_def session_dial_def udp_start_def)

lemma demo_run: "rtranclp (udp_step demo_udp) udp_start demo_inserted"
proof -
  have "udp_step demo_udp demo_dialed demo_inserted"
    unfolding demo_inserted_def by (rule udp_step.insert) (rule demo_dialed_reader)
  then show ?thesis using demo_run_dialed by (meson rtranclp.simps)
qed

theorem udp_connections_accounted_witness:
  "u_sessions demo_inserted = [(''c:1'', 0)] \<and> \<not> us_closeChan (u_store demo_inserted ! 0)"
proof -
  have m: "u_sessions demo_inserted = [(''c:1'', 0)]" by code_simp
  show ?thesis using udp_connections_accounted [OF demo_run] m by auto
qed

text \<open>C30: a tunnel's sessions are created by its reader alone. Whenever the reader returns from a dial,
  its source still has no session, so the branch that drops a duplicate connection is never
  taken and every dialled connection becomes a session.\<close>

theorem udp_no_duplicate_session:
  assumes "rtranclp (udp_step conf) udp_start st" and "u_reader st = HasConn src c"
  shows "map_of (u_sessions st) src = None \<and>
    u_closed (session_insert src c now st) = u_closed st \<and>
    map_of (u_sessions (session_insert src c now st)) src = Some (length (u_store st))"
  using session_insert_new [OF udp.inv_reachable [OF refl assms(1)] assms(2)]
  by (simp add: session_insert_def Let_def)

theorem udp_no_duplicate_session_witness:
  "map_of (u_sessions demo_dialed) ''c:1'' = None"
  using udp_no_duplicate_session [OF demo_run_dialed demo_dialed_reader] by blast

text \<open>A tick of the cleaner removes exactly the sessions that have been inactive for the configured
  time, keeps the others in place and unchanged in the table, and a handler that ends later
  never removes a newer session of its source.\<close>

theorem udp_cleaner_exact:
  assumes "rtranclp (udp_step conf) udp_start st"
  shows "u_sessions (clean_sessions dur now st) =
      filter (\<lambda>kv. \<not> expired dur now st (snd kv)) (u_sessions st) \<and>
    (map_of (u_sessions st) src \<noteq> Some sid \<longrightarrow> removeSession src sid st = st)"
  using udp.inv_reachable [OF refl assms]
  by (auto simp: udp_inv_def table_ok_def removeSession_def intro!: clean_sessions_keeps)

theorem udp_cleaner_exact_witness:
  "u_sessions (clean_sessions (inactivityDur demo_udp) (40 * second) demo_inserted) = []"
proof -
  have "filter (\<lambda>kv. \<not> expired (inactivityDur demo_udp) (40 * second) demo_inserted (snd kv))
      (u_sessions demo_inserted) = []" by code_simp
  then show ?thesis using udp_cleaner_exact [OF demo_run] by simp
qed

text \<open>C28: a UDP tunnel never gets stuck with a connection. From every reachable state the goroutines
  can go on to a state with no session and no handler left, in which every connection that was
  ever dialled has been closed exactly once.\<close>

theorem udp_can_drain:
  assumes "rtranclp (udp_step conf) udp_start st"
  shows "\<exists>st'. rtranclp (udp_step conf) st st' \<and> u_sessions st' = [] \<and> u_running st' = [] \<and>
    u_closing st' = [] \<and> mset (u_closed st') = mset [0..<u_conns st']"
proof -
  obtain s1 where s1: "rtranclp (udp_step conf) st s1" "u_reader s1 = Idle" using drain_reader by blast
  obtain s2 where s2: "rtranclp (udp_step conf) s1 s2" "u_reader s2 = Idle" "u_running s2 = []"
    using drain_running [of conf s1] s1(2) by metis
  obtain s3 where s3: "rtranclp (udp_step conf) s2 s3" "u_reader s3 = Idle" "u_running s3 = []" "u_closing s3 = []"
    using drain_closing [of conf s2] s2(2,3) by metis
  have st: "rtranclp (udp_step conf) st s3" using s1(1) s2(1) s3(1) by (meson rtranclp_trans)
  then have "udp_inv s3" using udp.inv_reachable [OF refl] assms by (meson rtranclp_trans)
  then show ?thesis using drained s3 st by blast
qed

theorem udp_can_drain_witness:
  "\<exists>st'. rtranclp (udp_step demo_udp) demo_inserted st' \<and> u_sessions st' = []"
  using udp_can_drain [OF demo_run] by blast

text \<open>C29: clients of a UDP tunnel never see each other's traffic. In every reachable state, each datagram
  of a source was written to a connection dialled for that source, each reply was sent to the
  source its connection had been dialled for, and the next datagram and the running handlers
  will do the same; a connection is dialled for one source only.\<close>

theorem udp_no_crosstalk:
  assumes "rtranclp (udp_step conf) udp_start st"
  shows "(\<forall>(src, c, d) \<in> set (u_out st). c < u_conns st \<and> u_sources st ! c = src) \<and>
    (\<forall>(c, src, d) \<in> set (u_back st). c < u_conns st \<and> u_sources st ! c = src) \<and>
    (\<forall>src sid. u_reader st = Got src sid \<longrightarrow> u_sources st ! us_remoteConn (u_store st ! sid) = src) \<and>
    (\<forall>(src, sid) \<in> set (u_running st). u_sources st ! us_remoteConn (u_store st ! sid) = src)"
proof -
  have "length (u_sources st) = u_conns st" and u: "\<forall>u \<in> set (conn_uses st). dialed_for (u_sources st) u"
    using udp_traffic.inv_reachable [OF refl assms] by (auto simp: routes_ok_def list_all_iff)
  moreover have "(c, src) \<in> set (conn_uses st)" if "(src, c, d) \<in> set (u_out st)" for src c d
    using that by (auto simp: conn_use_iff)
  moreover have "(c, src) \<in> set (conn_uses st)" if "(c, src, d) \<in> set (u_back st)" for src c d
    using that by (auto simp: conn_use_iff)
  moreover have "(us_remoteConn (u_store st ! sid), src) \<in> set (conn_uses st)"
    if "u_reader st = Got src sid \<or> (src, sid) \<in> set (u_running st)" for src sid
    using that by (auto simp: conn_use_iff reader_uses_def)
  ultimately show ?thesis by (fastforce simp: dialed_for_def)
qed

definition demo_sent :: udp_state where
  "demo_sent = session_write ''c:1'' 0 2 demo_inserted"

theorem udp_no_crosstalk_witness:
  "u_out demo_sent = [(''c:1'', 0, ''ping'')] \<and> u_sources demo_sent ! 0 = ''c:1''"
proof -
  have "udp_step demo_udp demo_inserted demo_sent"
    unfolding demo_sent_def by (rule udp_step.send) code_simp
  then have run: "rtranclp (udp_step demo_udp) udp_start demo_sent" using demo_run by (meson rtranclp.simps)
  have o: "u_out demo_sent = [(''c:1'', 0, ''ping'')]" by code_simp
  then show ?thesis using udp_no_crosstalk [OF run] by auto
qed

end
