(* ===== verification/Routines.thy ===== *)
theory Routines
  imports Sni Udp_Proxy
begin

text \<open>
  The interface \<^verbatim>\<open>RoutineSpawner\<close> (\<^verbatim>\<open>routine.go\<close> lines 69--72): what a spawned routine does,
  whichever kind it is. The surroundings of all kinds are collected in one record; a routine
  uses the part of its kind.
\<close>

record routine_env =
  re_world :: world
  re_host :: host_net
  re_accepts :: "conn ext list"
  re_http_listen :: http_listen_env
  re_http :: http_env
  re_sni :: sni_env
  re_socks5 :: "socks5_auth \<Rightarrow> socks5_mode \<Rightarrow> string \<Rightarrow> unit ext"
  re_ResolveUDPAddr :: "string \<Rightarrow> string ext"
  re_ListenUDP :: "string \<Rightarrow> listener ext"

definition SpawnRoutine :: "routine_env \<Rightarrow> VirtualTun \<Rightarrow> RoutineSpawner \<Rightarrow> net_event list" where
  "SpawnRoutine R vt r =
     (case r of
        TCPClientTunnel conf \<Rightarrow> TCPClientTunnel_SpawnRoutine (re_host R) vt conf (re_accepts R)
      | TCPServerTunnel conf \<Rightarrow> TCPServerTunnel_SpawnRoutine (re_host R) vt conf (re_accepts R)
      | STDIOTunnel conf \<Rightarrow> STDIOTunnel_SpawnRoutine (re_host R) vt conf
      | Socks5 conf \<Rightarrow> Socks5_SpawnRoutine vt conf (re_socks5 R)
      | HTTP conf \<Rightarrow>
          HTTP_SpawnRoutine (re_world R) (re_host R) vt conf (re_http_listen R) (re_http R) (re_accepts R)
      | SNI conf \<Rightarrow> SNI_SpawnRoutine (re_world R) (re_host R) vt conf (re_sni R) (re_accepts R)
      | UDPProxyTunnel conf \<Rightarrow>
          fst (UDPProxyTunnel_SpawnRoutine (re_ResolveUDPAddr R) (re_ListenUDP R) vt conf))"

text \<open>No routine looks at the ping record, which the probes change meanwhile.\<close>

lemma RoutedDial_ping [simp]: "RoutedDial W H (vt\<lparr>vt_PingRecord := x\<rparr>) rt nw a = RoutedDial W H vt rt nw a"
  by (simp add: RoutedDial_def Let_def)

lemma ResolveAddr_ping [simp]: "ResolveAddrWithContext H (vt\<lparr>vt_PingRecord := x\<rparr>) ctx name = ResolveAddrWithContext H vt ctx name"
  by (simp add: ResolveAddrWithContext_def LookupAddr_def Let_def)

lemma resolveToAddrPort_ping [simp]: "resolveToAddrPort H (vt\<lparr>vt_PingRecord := x\<rparr>) ap = resolveToAddrPort H vt ap"
  by (simp add: resolveToAddrPort_def)

lemma forward_ping [simp]:
  "tcpClientForward H (vt\<lparr>vt_PingRecord := x\<rparr>) = tcpClientForward H vt"
  "tcpServerForward H (vt\<lparr>vt_PingRecord := x\<rparr>) = tcpServerForward H vt"
  "STDIOTcpForward H (vt\<lparr>vt_PingRecord := x\<rparr>) = STDIOTcpForward H vt"
  by (simp_all add: fun_eq_iff tcpClientForward_def tcpServerForward_def STDIOTcpForward_def split: sum.split)

lemma accept_loop_ping [simp]: "accept_loop (vt\<lparr>vt_PingRecord := x\<rparr>) = accept_loop vt"
proof (intro ext)
  fix serve what rs
  show "accept_loop (vt\<lparr>vt_PingRecord := x\<rparr>) serve what rs = accept_loop vt serve what rs"
    by (induction rs) (simp_all split: sum.split)
qed

lemma SpawnRoutine_ping [simp]: "SpawnRoutine R (vt\<lparr>vt_PingRecord := x\<rparr>) r = SpawnRoutine R vt r"
  by (cases r)
     (simp_all add: SpawnRoutine_def TCPClientTunnel_SpawnRoutine_def TCPServerTunnel_SpawnRoutine_def
        STDIOTunnel_SpawnRoutine_def Socks5_SpawnRoutine_def HTTP_SpawnRoutine_def SNI_SpawnRoutine_def
        UDPProxyTunnel_SpawnRoutine_def split: sum.split prod.split option.split)

section \<open>Accepted connections\<close>

text \<open>
  A trace in which every accepted connection is disposed of: nothing is accepted outside the
  served stretch, and each connection is followed by what its handler did.
\<close>

definition well_served :: "net_event list \<Rightarrow> bool" where
  "well_served es =
     (\<exists>pre serve cs post. es = pre @ concat (map (\<lambda>c. Accepted c # serve c) cs) @ post \<and>
        (\<forall>c \<in> set cs. disposes c (serve c) \<and> (\<forall>d. Accepted d \<notin> set (serve c))) \<and>
        (\<forall>d. Accepted d \<notin> set pre \<and> Accepted d \<notin> set post))"

lemma well_servedI:
  assumes "\<And>c. disposes c (serve c)" and "\<And>c d. Accepted d \<notin> set (serve c)"
    and "\<And>d. Accepted d \<notin> set pre" and "\<And>d. Accepted d \<notin> set post"
  shows "well_served (pre @ concat (map (\<lambda>c. Accepted c # serve c) cs) @ post)"
  unfolding well_served_def using assms by blast

lemma well_served_none: "(\<And>d. Accepted d \<notin> set es) \<Longrightarrow> well_served es"
  using well_servedI [of "\<lambda>c. [CloseConn c]" es "[]" "[]"] by (simp add: disposes_def)

text \<open>A handler of the contract behind an accept loop.\<close>

context conn_handler
begin

lemma accept_loop_served:
  assumes "\<And>c d. Accepted d \<notin> set (serve c)"
  shows "well_served (Listening l # accept_loop vt serve what rs)"
proof -
  obtain tail where
    a: "accept_loop vt serve what rs = concat (map (\<lambda>c. Accepted c # serve c) (accepted rs)) @ tail"
    and "list_all (\<lambda>e. \<exists>s. e = VirtualTun_Errorf vt (what @ '' accept: %s'') [] (External s)) tail"
    using accept_loop_disposes by blast
  then have "Accepted d \<notin> set tail" for d by (auto simp: list_all_iff)
  then have "well_served ([Listening l] @ concat (map (\<lambda>c. Accepted c # serve c) (accepted rs)) @ tail)"
    using assms serve_disposes by (intro well_servedI) auto
  then show ?thesis by (simp add: a)
qed

end

lemma client_no_accept: "Accepted d \<notin> set (tcpClientForward H vt raddr c)"
  by (auto simp: tcpClientForward_def split: sum.splits)

lemma server_no_accept: "Accepted d \<notin> set (tcpServerForward H vt raddr c)"
  by (auto simp: tcpServerForward_def split: sum.splits)

lemma sni_no_accept: "Accepted d \<notin> set (sniServe E c)"
  by (auto simp: sniServe_def sniProxyForward_def Let_def split: sum.splits prod.splits option.splits if_splits)

lemma http_no_accept: "Accepted d \<notin> set (HTTPServer_serve E s c)"
  by (auto simp: HTTPServer_serve_def handleConn_def handle_def respond_def Let_def
           split: sum.splits prod.splits option.splits if_splits)

lemma http_served: "well_served (HTTP_SpawnRoutine W H vt config L E accepts)"
proof -
  let ?E = "E\<lparr>he_dial := (\<lambda>nw a. snd (RoutedDial W H vt
      (Some (NewDomainRouter (http_TunnelDomains config) (http_LogDomains config))) nw a))\<rparr>"
  let ?s = "new_HTTPServer config"
  let ?c = "concat (map (\<lambda>c. Accepted c # HTTPServer_serve ?E ?s c) (accepted accepts))"
  show ?thesis
  proof (cases "HTTPServer_listen L ?s ''tcp'' (http_BindAddress config)")
    case (Inl e)
    then show ?thesis
      by (intro well_served_none) (simp add: HTTP_SpawnRoutine_def HTTPServer_ListenAndServe_def Let_def)
  next
    case (Inr l)
    have "\<exists>post. HTTP_SpawnRoutine W H vt config L E accepts = [Listening l] @ ?c @ post \<and>
        (\<forall>d. Accepted d \<notin> set post)"
      using serve_all_events [of "HTTPServer_serve ?E ?s" accepts]
      by (auto simp: HTTP_SpawnRoutine_def HTTPServer_ListenAndServe_def Inr Let_def
               split: prod.splits option.splits)
    then show ?thesis
      using well_servedI [OF http_serve.serve_disposes http_no_accept, of "[Listening l]"] by auto
  qed
qed

lemma SpawnRoutine_served: "well_served (SpawnRoutine R vt r)"
proof (cases r)
  case (TCPClientTunnel conf)
  then show ?thesis
    by (auto simp: SpawnRoutine_def TCPClientTunnel_SpawnRoutine_def client_no_accept
             intro: client_forward.accept_loop_served well_served_none split: sum.splits)
next
  case (TCPServerTunnel conf)
  then show ?thesis
    by (auto simp: SpawnRoutine_def TCPServerTunnel_SpawnRoutine_def server_no_accept
             intro: server_forward.accept_loop_served well_served_none split: sum.splits)
next
  case (SNI conf)
  then show ?thesis
    by (auto simp: SpawnRoutine_def SNI_SpawnRoutine_def sni_no_accept Let_def
             intro: sni_serve.accept_loop_served well_served_none split: sum.splits)
next
  case (HTTP conf)
  then show ?thesis by (simp add: SpawnRoutine_def http_served)
qed (auto simp: SpawnRoutine_def STDIOTunnel_SpawnRoutine_def STDIOTcpForward_def Socks5_SpawnRoutine_def
        UDPProxyTunnel_SpawnRoutine_def intro!: well_served_none split: sum.splits)

section \<open>No panics\<close>

fun quiet :: "net_event \<Rightarrow> bool" where
  "quiet (ErrLog _ _ err) = (\<not> is_panic err)"
| "quiet _ = True"

lemma safe_resolveToAddrPort: "vt_ResolveConfig vt \<noteq> None \<Longrightarrow> safe (resolveToAddrPort H vt ap)"
  by (auto simp: resolveToAddrPort_def safe_ResolveAddr intro!: safe_ebind)

lemma resolveToAddrPort_no_panic:
  "resolveToAddrPort H vt ap = Inl err \<Longrightarrow> vt_ResolveConfig vt = Some rc \<Longrightarrow> \<not> is_panic err"
  using safe_resolveToAddrPort [of vt H ap] by simp

lemma safe_parseAddressPort: "safe (parseAddressPort s)"
  by (auto simp: parseAddressPort_def intro!: safe_ebind split: sum.splits)

lemmas parseAddressPort_no_panic = safe_sum_Inl [OF safe_parseAddressPort]

lemma lib_no_panic: "lib m = Inl err \<Longrightarrow> \<not> is_panic err"
  by (rule safe_sum_Inl [OF safe_lib])

lemma RoutedDial_no_panic: "snd (RoutedDial W H vt r nw a) = Inl err \<Longrightarrow> \<not> is_panic err"
  by (auto simp: RoutedDial_def dest: lib_no_panic split: if_splits)

lemma authenticate_no_panic: "snd (authenticate s req) = Some err \<Longrightarrow> \<not> is_panic err"
  by (auto simp: authenticate_def Let_def b64_DecodeString_def split: if_splits sum.splits list.splits option.splits)

lemmas routine_no_panic = resolveToAddrPort_no_panic parseAddressPort_no_panic lib_no_panic
  RoutedDial_no_panic authenticate_no_panic

lemma client_quiet: "vt_ResolveConfig vt \<noteq> None \<Longrightarrow> list_all quiet (tcpClientForward H vt raddr c)"
  by (auto simp: tcpClientForward_def dest: routine_no_panic split: sum.splits)

lemma server_quiet: "vt_ResolveConfig vt \<noteq> None \<Longrightarrow> list_all quiet (tcpServerForward H vt raddr c)"
  by (auto simp: tcpServerForward_def dest: routine_no_panic split: sum.splits)

lemma stdio_quiet: "vt_ResolveConfig vt \<noteq> None \<Longrightarrow> list_all quiet (STDIOTcpForward H vt raddr)"
  by (auto simp: STDIOTcpForward_def dest: routine_no_panic split: sum.splits)

lemma accept_loop_quiet: "(\<And>c. list_all quiet (serve c)) \<Longrightarrow> list_all quiet (accept_loop vt serve what rs)"
  by (induction rs) (auto split: sum.splits)

lemma sni_quiet:
  assumes "\<And>nw a err. se_dial E nw a = Inl err \<Longrightarrow> \<not> is_panic err"
  shows "list_all quiet (sniServe E c)"
  using assms
  by (auto simp: sniServe_def sniProxyForward_def peekClientHello_def Let_def dest: lib_no_panic
           split: sum.splits prod.splits option.splits if_splits)

lemma http_quiet:
  assumes "\<And>nw a err. he_dial E nw a = Inl err \<Longrightarrow> \<not> is_panic err"
  shows "list_all quiet (HTTPServer_serve E s c)"
proof (cases "lib (he_read E c)")
  case (Inr req)
  show ?thesis
    using assms authenticate_no_panic [of s req]
    by (cases "authenticate s req"; cases "snd (authenticate s req)")
       (auto simp: HTTPServer_serve_def Inr handleConn_def handle_def respond_def Let_def dest: lib_no_panic
             split: sum.splits)
qed (auto simp: HTTPServer_serve_def dest: lib_no_panic)

lemma serve_all_quiet:
  assumes "\<And>c. list_all quiet (serve c)"
  shows "list_all quiet (fst (serve_all serve rs)) \<and> (\<forall>err. snd (serve_all serve rs) = Some err \<longrightarrow> \<not> is_panic err)"
  using assms by (induction rs) (auto simp: Let_def case_prod_beta split: sum.splits)

lemma HTTP_SpawnRoutine_quiet: "list_all quiet (HTTP_SpawnRoutine W H vt config L E accepts)"
proof -
  let ?E = "E\<lparr>he_dial := (\<lambda>nw a. snd (RoutedDial W H vt
      (Some (NewDomainRouter (http_TunnelDomains config) (http_LogDomains config))) nw a))\<rparr>"
  have q: "list_all quiet (HTTPServer_serve ?E s c)" for s c
    by (rule http_quiet) (auto dest: RoutedDial_no_panic)
  have l: "\<not> is_panic err" if "HTTPServer_listen L s nw a = Inl err" for s nw a err
    using that by (rule safe_sum_Inl [rotated]) (auto simp: HTTPServer_listen_def intro!: safe_ebind)
  show ?thesis
    using serve_all_quiet [of "HTTPServer_serve ?E (new_HTTPServer config)" accepts] q l
    by (auto simp: HTTP_SpawnRoutine_def HTTPServer_ListenAndServe_def Let_def case_prod_beta
             split: sum.splits option.splits)
qed

lemma SpawnRoutine_quiet: "vt_ResolveConfig vt \<noteq> None \<Longrightarrow> list_all quiet (SpawnRoutine R vt r)"
proof (cases r)
  case (HTTP conf)
  then show ?thesis by (simp add: SpawnRoutine_def HTTP_SpawnRoutine_quiet)
next
  case (SNI conf)
  have "list_all quiet (sniServe (E\<lparr>se_dial := (\<lambda>nw a. snd (RoutedDial W H vt router nw a))\<rparr>) c)"
    for E W H router c by (rule sni_quiet) (auto dest: RoutedDial_no_panic)
  then show ?thesis
    by (auto simp: SpawnRoutine_def SNI SNI_SpawnRoutine_def Let_def dest: lib_no_panic
             intro!: accept_loop_quiet split: sum.splits)
qed (auto simp: SpawnRoutine_def TCPClientTunnel_SpawnRoutine_def TCPServerTunnel_SpawnRoutine_def
        STDIOTunnel_SpawnRoutine_def Socks5_SpawnRoutine_def UDPProxyTunnel_SpawnRoutine_def
        client_quiet server_quiet stdio_quiet intro!: accept_loop_quiet dest: routine_no_panic split: sum.splits)

definition demo_routine_env :: routine_env where
  "demo_routine_env =
     \<lparr>re_world = sample_world, re_host = demo_host, re_accepts = [Inr 3, Inl ''closed''],
      re_http_listen = demo_listen, re_http = demo_env, re_sni = demo_sni,
      re_socks5 = (\<lambda>_ _ _. Inr ()), re_ResolveUDPAddr = (\<lambda>a. Inr a), re_ListenUDP = (\<lambda>_. Inr 8)\<rparr>"

end
