(* ===== verification/Sandbox.thy ===== *)
theory Sandbox
  imports Wireguard
begin

text \<open>
  How the program locks itself down (\<^verbatim>\<open>cmd/wireproxy/main.go\<close> lines 73--254): the files it still
  needs, the calls of every sandbox stage, and the network restriction. Landlock, pledge and
  unveil are not part of the repository; their answers are arguments.
\<close>

section \<open>Files\<close>

definition http_tls_paths :: "RoutineSpawner \<Rightarrow> string list" where
  "http_tls_paths r =
     (case r of
        HTTP h \<Rightarrow> filter (\<lambda>p. p \<noteq> []) [http_CertFile h, http_KeyFile h]
      | _ \<Rightarrow> [])"

definition tlsFilePaths :: "ConnectionSpec list \<Rightarrow> string list" where
  "tlsFilePaths specs =
     concat (map (\<lambda>spec. concat (map http_tls_paths (conf_Routines (spec_Conf spec)))) specs)"

section \<open>Sandbox stages\<close>

record lockOptions =
  lo_roFiles :: "string list"
  lo_rwDirs :: "string list"
  lo_needsWriteAccess :: bool

definition no_options :: lockOptions where
  "no_options = \<lparr>lo_roFiles = [], lo_rwDirs = [], lo_needsWriteAccess = False\<rparr>"

datatype rule =
    ROFiles string
  | RWFiles string
  | RWDirs string
  | IgnoreIfMissing rule
  | BindTCP "16 word"
  | ConnectTCP "16 word"

text \<open>The calls of a stage: pledge and unveil, the switch to Go's own resolver, and Landlock.\<close>

datatype lock_event = Unveil string string | Pledge string | PreferGo | RestrictPaths "rule list"

text \<open>The answers of \<^verbatim>\<open>os.Executable\<close> and of the sandbox calls; \<open>sb_arg0\<close> is \<^verbatim>\<open>os.Args[0]\<close>.\<close>

record sandbox =
  sb_Executable :: "string ext"
  sb_arg0 :: string
  sb_call :: "lock_event \<Rightarrow> unit ext"

definition executablePath :: "sandbox \<Rightarrow> string" where
  "executablePath S = (case sb_Executable S of Inl _ \<Rightarrow> sb_arg0 S | Inr programPath \<Rightarrow> programPath)"

text \<open>\<^verbatim>\<open>log.Fatal\<close> on an error ends the program.\<close>

definition panicIfError :: "unit ext \<Rightarrow> unit res" where
  "panicIfError r = (case r of Inl err \<Rightarrow> Inl (External err) | Inr _ \<Rightarrow> Inr ())"

definition pledgeOrPanic :: "sandbox \<Rightarrow> string \<Rightarrow> unit res" where
  "pledgeOrPanic S promises = panicIfError (sb_call S (Pledge promises))"

definition unveilOrPanic :: "sandbox \<Rightarrow> string \<Rightarrow> string \<Rightarrow> unit res" where
  "unveilOrPanic S path flags = panicIfError (sb_call S (Unveil path flags))"

definition lock_call :: "sandbox \<Rightarrow> lock_event \<Rightarrow> unit res" where
  "lock_call S e =
     (case e of
        Unveil path flags \<Rightarrow> unveilOrPanic S path flags
      | Pledge promises \<Rightarrow> pledgeOrPanic S promises
      | PreferGo \<Rightarrow> Inr ()
      | RestrictPaths rules \<Rightarrow> panicIfError (sb_call S (RestrictPaths rules)))"

definition static_rules :: "rule list" where
  "static_rules =
     map (\<lambda>p. IgnoreIfMissing (ROFiles p))
       [''/etc/resolv.conf'', ''/dev/fd'', ''/dev/zero'', ''/dev/urandom'', ''/etc/localtime'',
        ''/proc/self/stat'', ''/proc/self/status'', ''/usr/share/locale'', ''/proc/self/cmdline'',
        ''/usr/share/zoneinfo'', ''/proc/sys/kernel/version'', ''/proc/sys/kernel/ngroups_max'',
        ''/proc/sys/kernel/cap_last_cap'', ''/proc/sys/vm/overcommit_memory''] @
     map (\<lambda>p. IgnoreIfMissing (RWFiles p)) [''/dev/log'', ''/dev/null'', ''/dev/full'', ''/proc/self/fd'']"

definition ready_rules :: "lockOptions \<Rightarrow> rule list" where
  "ready_rules opts =
     static_rules @ map (\<lambda>file. IgnoreIfMissing (ROFiles file)) (lo_roFiles opts) @ map RWDirs (lo_rwDirs opts)"

text \<open>The calls a stage makes, in order.\<close>

definition lock_events :: "sandbox \<Rightarrow> string \<Rightarrow> lockOptions \<Rightarrow> lock_event list option" where
  "lock_events S stage opts =
     (if stage = ''boot'' then
        Some [Unveil ''/'' ''r'', Unveil (executablePath S) ''x'',
              Pledge ''stdio rpath inet dns proc exec wpath cpath'']
      else if stage = ''boot-daemon'' then Some []
      else if stage = ''read-config'' then Some [Pledge ''stdio rpath inet dns wpath cpath'']
      else if stage = ''ready'' then
        Some [Pledge (if lo_needsWriteAccess opts then ''stdio inet dns wpath cpath'' else ''stdio inet dns''),
              PreferGo, RestrictPaths (ready_rules opts)]
      else None)"

definition lock :: "sandbox \<Rightarrow> string \<Rightarrow> lockOptions \<Rightarrow> lock_event list res" where
  "lock S stage opts =
     (case lock_events S stage opts of
        None \<Rightarrow> Inl (GoPanic ''invalid stage'')
      | Some es \<Rightarrow> ebind (emap (lock_call S) es) (\<lambda>_. Inr es))"

section \<open>The network restriction\<close>

definition extractPort :: "string \<Rightarrow> 16 word res" where
  "extractPort addr =
     ebind (ewrap (Wrapf ''failed to extract port from %s: %w'' [addr]) (SplitHostPort addr)) (\<lambda>(_, portStr).
       case Atoi portStr of
         Inl _ \<Rightarrow> Inl (Errorf ''failed to extract port from %s: invalid port'' [addr])
       | Inr port \<Rightarrow>
           if port < 0 \<or> 65535 < port then
             Inl (Errorf ''failed to extract port from %s: invalid port'' [addr])
           else Inr (word_of_int port))"

definition routine_rules :: "string \<Rightarrow> RoutineSpawner \<Rightarrow> rule list res" where
  "routine_rules name r =
     (let bound = (\<lambda>addr.
            ebind (ewrap (Wrapf ''connection %q: %w'' [name]) (extractPort addr)) (\<lambda>port. Inr [BindTCP port]))
      in case r of
           TCPServerTunnel c \<Rightarrow>
             ebind (ewrap (Wrapf ''connection %q: TCPServerTunnel target %q: %w'' [name, tcps_Target c])
                      (SplitHostPort (tcps_Target c))) (\<lambda>(host, portStr).
             ebind (ewrap (Wrapf ''connection %q: %w'' [name]) (extractPort (JoinHostPort host portStr))) (\<lambda>port.
             Inr [ConnectTCP port]))
         | HTTP c \<Rightarrow> bound (http_BindAddress c)
         | TCPClientTunnel c \<Rightarrow>
             (case tcpc_BindAddress c of
                None \<Rightarrow> Inl (Errorf ''connection %q: TCPClientTunnel has no bind address'' [name])
              | Some a \<Rightarrow> Inr [BindTCP (word_of_int (tcp_Port a))])
         | Socks5 c \<Rightarrow> bound (socks_BindAddress c)
         | SNI c \<Rightarrow> bound (sni_BindAddress c)
         | UDPProxyTunnel c \<Rightarrow> Inr []
         | STDIOTunnel c \<Rightarrow> Inr [])"

text \<open>The rules handed to Landlock; \<open>None\<close> when the restriction is skipped.\<close>

definition network_rules :: "ConnectionSpec list \<Rightarrow> string option \<Rightarrow> rule list option res" where
  "network_rules specs infoAddr =
     (if NeedsOpenEgress specs then Inr None
      else
        ebind (case infoAddr of
                 None \<Rightarrow> Inr []
               | Some a \<Rightarrow> if a = [] then Inr [] else ebind (extractPort a) (\<lambda>port. Inr [BindTCP port])) (\<lambda>info.
        ebind (emap (\<lambda>(name, r). routine_rules name r)
                 (concat (map (\<lambda>spec. map (Pair (spec_Name spec)) (conf_Routines (spec_Conf spec))) specs)))
          (\<lambda>rss. Inr (Some (info @ concat rss)))))"

definition lockNetwork ::
    "(rule list \<Rightarrow> unit ext) \<Rightarrow> ConnectionSpec list \<Rightarrow> string option \<Rightarrow> rule list option res" where
  "lockNetwork restrictNet specs infoAddr =
     ebind (network_rules specs infoAddr) (\<lambda>rules.
       case rules of
         None \<Rightarrow> Inr None
       | Some rs \<Rightarrow> ebind (panicIfError (restrictNet rs)) (\<lambda>_. Inr (Some rs)))"

section \<open>Lemmas\<close>

text \<open>What a set of rules lets the program do with the file system, and the promises of a pledge.\<close>

fun readable :: "rule \<Rightarrow> string set" where
  "readable (ROFiles p) = {p}"
| "readable (RWFiles p) = {p}"
| "readable (RWDirs p) = {p}"
| "readable (IgnoreIfMissing r) = readable r"
| "readable _ = {}"

fun writable :: "rule \<Rightarrow> string set" where
  "writable (RWFiles p) = {p}"
| "writable (RWDirs p) = {p}"
| "writable (IgnoreIfMissing r) = writable r"
| "writable _ = {}"

fun must_exist :: "rule \<Rightarrow> string set" where
  "must_exist (IgnoreIfMissing _) = {}"
| "must_exist r = readable r"

definition promises :: "string \<Rightarrow> string list" where
  "promises p = Split p (CHR '' '')"

fun pledges :: "lock_event list \<Rightarrow> string list list" where
  "pledges [] = []"
| "pledges (Pledge p # es) = promises p # pledges es"
| "pledges (_ # es) = pledges es"

definition device_files :: "string set" where
  "device_files = {''/dev/log'', ''/dev/null'', ''/dev/full'', ''/proc/self/fd''}"

lemma ready_rules_rights:
  "(\<Union>r \<in> set (ready_rules opts). writable r) =
     device_files \<union> set (lo_rwDirs opts)"
  "(\<Union>r \<in> set (ready_rules opts). must_exist r) = set (lo_rwDirs opts)"
  "set (lo_roFiles opts) \<subseteq> (\<Union>r \<in> set (ready_rules opts). readable r)"
  by (auto simp: ready_rules_def static_rules_def device_files_def)

lemma tls_files:
  assumes "s \<in> set specs" and "HTTP h \<in> set (conf_Routines (spec_Conf s))"
  shows "{http_CertFile h, http_KeyFile h} - {[]} \<subseteq> set (tlsFilePaths specs)"
proof -
  have "set (http_tls_paths (HTTP h)) \<subseteq> set (tlsFilePaths specs)"
    using assms by (auto simp: tlsFilePaths_def simp del: set_filter)
  moreover have "set (http_tls_paths (HTTP h)) = {http_CertFile h, http_KeyFile h} - {[]}"
    by (auto simp: http_tls_paths_def)
  ultimately show ?thesis by simp
qed

lemma lock_ok: "lock S stage opts = Inr es \<Longrightarrow> lock_events S stage opts = Some es"
  by (auto simp: lock_def ebind_ok split: option.splits)

text \<open>The promises of every stage.\<close>

definition boot_promises :: "string list" where
  "boot_promises = [''stdio'', ''rpath'', ''inet'', ''dns'', ''proc'', ''exec'', ''wpath'', ''cpath'']"

definition config_promises :: "string list" where
  "config_promises = [''stdio'', ''rpath'', ''inet'', ''dns'', ''wpath'', ''cpath'']"

definition ready_promises :: "bool \<Rightarrow> string list" where
  "ready_promises w = [''stdio'', ''inet'', ''dns''] @ (if w then [''wpath'', ''cpath''] else [])"

lemma promises_of_stages:
  "promises ''stdio rpath inet dns proc exec wpath cpath'' = boot_promises"
  "promises ''stdio rpath inet dns wpath cpath'' = config_promises"
  "promises ''stdio inet dns wpath cpath'' = ready_promises True"
  "promises ''stdio inet dns'' = ready_promises False"
  by code_simp+

lemma promises_narrow:
  "set (ready_promises w) \<subseteq> set config_promises"
  "set config_promises \<subseteq> set boot_promises"
  "set (ready_promises w) \<subseteq> set boot_promises"
  by (auto simp: ready_promises_def config_promises_def boot_promises_def)

lemma ready_promises_access: "''wpath'' \<in> set (ready_promises w) \<longleftrightarrow> w" "''rpath'' \<notin> set (ready_promises w)"
  by (simp_all add: ready_promises_def)

lemma stage_pledges:
  "lock_events S ''boot'' opts = Some es \<Longrightarrow> pledges es = [boot_promises]"
  "lock_events S ''boot-daemon'' opts = Some es \<Longrightarrow> pledges es = []"
  "lock_events S ''read-config'' opts = Some es \<Longrightarrow> pledges es = [config_promises]"
  "lock_events S ''ready'' opts = Some es \<Longrightarrow> pledges es = [ready_promises (lo_needsWriteAccess opts)]"
  by (auto simp: lock_events_def promises_of_stages)

lemma extractPort_ok [ok_iff]:
  "extractPort addr = Inr w \<longleftrightarrow> (\<exists>h s. SplitHostPort addr = Inr (h, s) \<and> Atoi s = Inr (uint w))"
proof (cases "SplitHostPort addr")
  case (Inr hs)
  obtain h s where hs: "hs = (h, s)" by fastforce
  have "uint w \<le> 65535" using uint_lt2p [of w] by simp
  then show ?thesis
    by (cases "Atoi s") (auto simp: extractPort_def Inr hs uint_port)
qed (simp add: extractPort_def)

text \<open>The rule that covers a routine.\<close>

definition covered :: "rule list \<Rightarrow> RoutineSpawner \<Rightarrow> bool" where
  "covered rules r =
     (case r of
        Socks5 c \<Rightarrow> \<exists>w. extractPort (socks_BindAddress c) = Inr w \<and> BindTCP w \<in> set rules
      | HTTP c \<Rightarrow> \<exists>w. extractPort (http_BindAddress c) = Inr w \<and> BindTCP w \<in> set rules
      | SNI c \<Rightarrow> \<exists>w. extractPort (sni_BindAddress c) = Inr w \<and> BindTCP w \<in> set rules
      | TCPClientTunnel c \<Rightarrow>
          \<exists>a. tcpc_BindAddress c = Some a \<and> BindTCP (word_of_int (tcp_Port a)) \<in> set rules
      | TCPServerTunnel c \<Rightarrow> \<exists>w. extractPort (tcps_Target c) = Inr w \<and> ConnectTCP w \<in> set rules
      | _ \<Rightarrow> True)"

lemma routine_rules_covered: "routine_rules name r = Inr rs \<Longrightarrow> set rs \<subseteq> set rules \<Longrightarrow> covered rules r"
proof (cases r)
  case (TCPServerTunnel c)
  assume "routine_rules name r = Inr rs" "set rs \<subseteq> set rules"
  then obtain h p w where "SplitHostPort (tcps_Target c) = Inr (h, p)"
    "extractPort (JoinHostPort h p) = Inr w" "ConnectTCP w \<in> set rules"
    by (auto simp: routine_rules_def TCPServerTunnel ebind_ok ewrap_ok)
  then show ?thesis
    using SplitHostPort_Join_id by (auto simp: covered_def TCPServerTunnel extractPort_ok)
qed (auto simp: routine_rules_def covered_def ebind_ok ewrap_ok Let_def split: option.splits)

lemma network_rules_covered:
  assumes "network_rules specs info = Inr (Some rules)" and "s \<in> set specs"
    and "r \<in> set (conf_Routines (spec_Conf s))"
  shows "covered rules r"
proof -
  obtain infos rss where rules: "rules = infos @ concat rss" and
    e: "emap (\<lambda>(name, r). routine_rules name r)
      (concat (map (\<lambda>spec. map (Pair (spec_Name spec)) (conf_Routines (spec_Conf spec))) specs)) = Inr rss"
    using assms(1) by (auto simp: network_rules_def ebind_ok split: if_splits)
  have "(spec_Name s, r) \<in> set (concat (map (\<lambda>spec. map (Pair (spec_Name spec)) (conf_Routines (spec_Conf spec))) specs))"
    using assms(2,3) by auto
  from emap_dom [OF e this] obtain rs where "rs \<in> set rss" "routine_rules (spec_Name s) r = Inr rs"
    by auto
  then show ?thesis
    using rules by (intro routine_rules_covered [of "spec_Name s" r rs]) auto
qed

lemma network_rules_info:
  "network_rules specs (Some info) = Inr (Some rules) \<Longrightarrow> info \<noteq> [] \<Longrightarrow>
     \<exists>w. extractPort info = Inr w \<and> BindTCP w \<in> set rules"
  by (auto simp: network_rules_def ebind_ok split: if_splits)

lemma lockNetwork_rules:
  "lockNetwork f specs info = Inr (Some rules) \<Longrightarrow>
     network_rules specs info = Inr (Some rules) \<and> \<not> NeedsOpenEgress specs"
  by (auto simp: lockNetwork_def network_rules_def ebind_ok split: if_splits option.splits)

subsection \<open>No panics\<close>

lemma safe_panicIfError [simp]: "safe (panicIfError r)"
  by (cases r) (simp_all add: panicIfError_def)

lemma safe_lock_call [simp]: "safe (lock_call S e)"
  by (cases e) (simp_all add: lock_call_def pledgeOrPanic_def unveilOrPanic_def)

lemma safe_lock_stage: "lock_events S stage opts \<noteq> None \<Longrightarrow> safe (lock S stage opts)"
  by (auto simp: lock_def intro!: safe_ebind safe_emap)

lemma safe_lock [simp]:
  "safe (lock S ''boot'' opts)" "safe (lock S ''boot-daemon'' opts)"
  "safe (lock S ''read-config'' opts)" "safe (lock S ''ready'' opts)"
  by (rule safe_lock_stage, simp add: lock_events_def)+

lemma safe_extractPort [simp]: "safe (extractPort addr)"
  by (auto simp: extractPort_def intro!: safe_ebind safe_ewrap split: sum.splits)

lemma safe_routine_rules [simp]: "safe (routine_rules name r)"
  by (cases r) (auto simp: routine_rules_def Let_def intro!: safe_ebind safe_ewrap split: option.splits)

lemma safe_lockNetwork [simp]: "safe (lockNetwork f specs info)"
  by (auto simp: lockNetwork_def network_rules_def intro!: safe_ebind safe_emap split: option.splits)

section \<open>Properties\<close>

text \<open>Every TCP port the program needs is in its network restriction. When rules are installed,
  the health endpoint and every SOCKS5, HTTP and SNI listener have a bind rule for the number in
  their address, every TCP client tunnel one for its bind port, and every TCP server tunnel a
  connect rule for the port of its target.\<close>

theorem network_rules_cover_listeners:
  assumes "network_rules specs (Some info) = Inr (Some rules)"
  shows "(info \<noteq> [] \<longrightarrow> (\<exists>w. extractPort info = Inr w \<and> BindTCP w \<in> set rules)) \<and>
    (\<forall>s \<in> set specs. \<forall>r \<in> set (conf_Routines (spec_Conf s)). covered rules r)"
  using network_rules_covered [OF assms] network_rules_info [OF assms] by blast

theorem network_rules_cover_listeners_witness:
  "\<exists>rules. network_rules [demo_spec] (Some ''127.0.0.1:9090'') = Inr (Some rules) \<and>
     BindTCP 9090 \<in> set rules \<and> covered rules (hd (conf_Routines (spec_Conf demo_spec)))"
proof -
  have n: "network_rules [demo_spec] (Some ''127.0.0.1:9090'') = Inr (Some [BindTCP 9090, BindTCP 443])"
    by code_simp
  show ?thesis
    using network_rules_cover_listeners [OF n] n by (auto simp: demo_spec_def)
qed

text \<open>\<^verbatim>\<open>extractPort\<close> never truncates: it returns a port exactly when the text after the last colon is
  a number that fits 16 bits, and then that number.\<close>

theorem extractPort_exact:
  "extractPort addr = Inr w \<longleftrightarrow> (\<exists>h s. SplitHostPort addr = Inr (h, s) \<and> Atoi s = Inr (uint w))"
  by (rule extractPort_ok)

text \<open>C36: the configuration test misses some ports. A TCP server tunnel whose target port is no number
  that fits 16 bits passes \<^verbatim>\<open>ValidateConnections\<close>, but makes \<^verbatim>\<open>lockNetwork\<close> fail at start.\<close>

theorem configtest_misses_target_port:
  assumes "SplitHostPort target = Inr (h, p)" and "\<forall>n. Atoi p = Inr n \<longrightarrow> n < 0 \<or> 65535 < n"
    and "connectionNamePattern name" and "conf_Tailscale conf = None" and "conf_Device conf = Some dev"
    and "conf_Routines conf = [TCPServerTunnel \<lparr>tcps_ListenPort = port, tcps_Target = target\<rparr>]"
  shows "ValidateConnections W [\<lparr>spec_Name = name, spec_Conf = conf\<rparr>] [] = Inr () \<and>
    isl (lockNetwork restrictNet [\<lparr>spec_Name = name, spec_Conf = conf\<rparr>] None)"
proof
  show "ValidateConnections W [\<lparr>spec_Name = name, spec_Conf = conf\<rparr>] [] = Inr ()"
    using assms
    by (auto simp: ValidateConnections_ok valid_connections_def spec_ok_def routine_ok_def
        server_port_claims_def hostname_claims_def state_dir_claims_def listen_port_claims_def
        info_bind_def spec_binds_def listeners_def conflict_free_def split: option.splits)
  have "extractPort (JoinHostPort h p) \<noteq> Inr w" for w
  proof -
    have "0 \<le> uint w" "uint w \<le> 65535" using uint_lt2p [of w] by simp_all
    then show ?thesis
      using assms(2) SplitHostPort_Join_id [OF assms(1)] by (fastforce simp: extractPort_ok)
  qed
  then obtain e where "extractPort (JoinHostPort h p) = Inl e" by (metis sum.exhaust)
  then show "isl (lockNetwork restrictNet [\<lparr>spec_Name = name, spec_Conf = conf\<rparr>] None)"
    using assms by (simp add: lockNetwork_def network_rules_def routine_rules_def NeedsOpenEgress_def
        splits_traffic_def)
qed

theorem configtest_misses_target_port_witness:
  "ValidateConnections sample_world
     [\<lparr>spec_Name = ''home'', spec_Conf = demo_conf\<lparr>conf_Routines :=
        [TCPServerTunnel \<lparr>tcps_ListenPort = 80, tcps_Target = ''localhost:99999''\<rparr>]\<rparr>\<rparr>] [] = Inr ()"
proof -
  have s: "SplitHostPort ''localhost:99999'' = Inr (''localhost'', ''99999'')" by code_simp
  have "Atoi ''99999'' = Inr 99999" by code_simp
  then have n: "\<forall>n. Atoi ''99999'' = Inr n \<longrightarrow> n < 0 \<or> 65535 < n" by simp
  have p: "connectionNamePattern ''home''" by code_simp
  show ?thesis
    using configtest_misses_target_port [OF s n p] by (simp add: demo_conf_def)
qed

end
