(* ===== verification/Wireproxy_Main.thy ===== *)
theory Wireproxy_Main
  imports Health Routines Sandbox
begin

text \<open>
  The program (\<^verbatim>\<open>cmd/wireproxy/main.go\<close> lines 256--418): the order in which \<^verbatim>\<open>main\<close> reads its
  configuration, locks itself down and starts connections. The command-line parser is not part of
  the repository; its result is an argument.
\<close>

section \<open>Files\<close>

definition daemonProcess :: string where
  "daemonProcess = ''daemon-process''"

definition default_config_paths :: "string \<Rightarrow> string list" where
  "default_config_paths home = [''/etc/wireproxy/wireproxy.conf'', home @ ''/.config/wireproxy.conf'']"

text \<open>\<open>home\<close> is \<^verbatim>\<open>$HOME\<close>; a path exists when \<^verbatim>\<open>os.Stat\<close> succeeds.\<close>

definition configFilePath :: "world \<Rightarrow> string \<Rightarrow> string option" where
  "configFilePath W home = List.find (\<lambda>p. \<not> isl (env_StatIsDir W p)) (default_config_paths home)"

section \<open>The main function\<close>

record cli =
  cli_config :: "string list"
  cli_daemon :: bool
  cli_info :: string
  cli_version :: bool
  cli_configTest :: bool

text \<open>What \<^verbatim>\<open>main\<close> asks of its surroundings: the command-line parser, the file system, the listener of
  the health endpoint, the back ends of the connections (\<open>None\<close> for a binary built without
  Tailscale), the permutation in which the starting goroutines finish, the clock, and the start
  of another process, and what each routine meets. The log level goes to the back ends' loggers
  and is left out.\<close>

record main_env =
  me_world :: world
  me_home :: string
  me_sandbox :: sandbox
  me_restrictNet :: "rule list \<Rightarrow> unit ext"
  me_parse :: "string list \<Rightarrow> cli ext"
  me_MkdirAll :: "string \<Rightarrow> unit ext"
  me_Listen :: "string \<Rightarrow> listener ext"
  me_host :: host_net
  me_tsnet :: "(string \<Rightarrow> ts_backend) option"
  me_doc :: "string \<Rightarrow> string"
  me_wireguard :: "string \<Rightarrow> wg_backend"
  me_order :: "nat \<Rightarrow> nat"
  me_now :: "string \<Rightarrow> 64 word"
  me_exec :: "string list \<Rightarrow> unit ext"
  me_routine :: "string \<Rightarrow> RoutineSpawner \<Rightarrow> routine_env"

datatype main_event =
    Locked string "lock_event list"
  | NetLocked "rule list option"
  | MadeDir string
  | HealthBound string
  | Started string
  | StartFailed string go_error
  | Spawned string RoutineSpawner "net_event list"

datatype outcome =
    UsageShown
  | VersionShown
  | PathRequired
  | ConfigOK "string list"
  | DaemonSpawned "string list"
  | DaemonFailed "string list" string
  | FatalExit go_error
  | Waiting
  | Serving HealthRegistry

text \<open>Whether this process was spawned as a daemon, and the arguments it parses.\<close>

definition main_args :: "string list \<Rightarrow> bool \<times> string list" where
  "main_args osArgs =
     (case osArgs of
        a0 # a1 # rest \<Rightarrow> if a1 = daemonProcess then (True, a0 # rest) else (False, osArgs)
      | _ \<Rightarrow> (False, osArgs))"

text \<open>The start of one connection, with the \<^verbatim>\<open>startTsnet\<close> the build tags select.\<close>

definition me_startTsnet :: "main_env \<Rightarrow> string \<Rightarrow> TailscaleConfig \<Rightarrow> (ts_event list \<times> VirtualTun res) option" where
  "me_startTsnet E name ts =
     (case me_tsnet E of
        None \<Rightarrow> startTsnet_stub name ts
      | Some T \<Rightarrow> startTsnet (me_world E) (me_host E) (T name) name ts)"

definition start_spec :: "main_env \<Rightarrow> ConnectionSpec \<Rightarrow> VirtualTun res option" where
  "start_spec E spec =
     map_option snd (StartConnection (me_startTsnet E) (me_doc E) (me_wireguard E (spec_Name spec)) spec)"

text \<open>The routine goroutines of a connection, with the events of each.\<close>

definition spawn_one :: "main_env \<Rightarrow> ConnectionSpec \<Rightarrow> VirtualTun \<Rightarrow> RoutineSpawner \<Rightarrow> main_event" where
  "spawn_one E spec tun r =
     Spawned (spec_Name spec) r
       (SpawnRoutine ((me_routine E (spec_Name spec) r)\<lparr>re_world := me_world E, re_host := me_host E\<rparr>) tun r)"

definition spawn_all :: "main_env \<Rightarrow> ConnectionSpec \<Rightarrow> VirtualTun \<Rightarrow> main_event list" where
  "spawn_all E spec tun = map (spawn_one E spec tun) (conf_Routines (spec_Conf spec))"

text \<open>The loop that starts every connection; \<open>specs\<close> in the order the goroutines finish. A
  goroutine whose start does not return (\<open>None\<close>) leaves nothing behind.\<close>

fun start_connections ::
    "main_env \<Rightarrow> ConnectionSpec list \<Rightarrow> HealthRegistry \<Rightarrow> main_event list \<times> HealthRegistry" where
  "start_connections E [] reg = ([], reg)"
| "start_connections E (spec # specs) reg =
     (case start_spec E spec of
        None \<Rightarrow> start_connections E specs reg
      | Some (Inl err) \<Rightarrow>
          (let (es, reg') = start_connections E specs reg in (StartFailed (spec_Name spec) err # es, reg'))
      | Some (Inr tun) \<Rightarrow>
          (let tun = fst (StartPingIPs (me_now E (spec_Name spec)) tun);
               (es, reg') = start_connections E specs (HealthRegistry_Add tun reg)
           in (Started (spec_Name spec) # spawn_all E spec tun @ es, reg')))"

text \<open>\<^verbatim>\<open>main\<close> waits for every start; the count of started connections is the size of the registry,
  since each start that succeeds adds to both. The theory \<open>Startup\<close> relates this to the
  interleaved goroutines.\<close>

definition main_start :: "main_env \<Rightarrow> ConnectionSpec list \<Rightarrow> main_event list \<times> outcome" where
  "main_start E specs =
     (let (es, reg) = start_connections E (Shuffle (me_order E) specs) NewHealthRegistry in
      (es,
       if list_ex (\<lambda>s. start_spec E s = None) specs then Waiting
       else if HealthRegistry_Count reg = 0 then FatalExit (New ''no connections could be started'')
       else Serving reg))"

text \<open>From the ready stage on.\<close>

definition main_ready :: "main_env \<Rightarrow> cli \<Rightarrow> ConnectionSpec list \<Rightarrow> main_event list \<times> outcome" where
  "main_ready E opts specs =
     (let tsDirs = TailscaleStateDirs (me_world E) specs;
          readyOpts = \<lparr>lo_roFiles = tlsFilePaths specs, lo_rwDirs = tsDirs,
                       lo_needsWriteAccess = (tsDirs \<noteq> [])\<rparr>
      in case emap (\<lambda>d. ewrap (Wrapf ''cannot create Tailscale state dir %s: %s'' [d]) (lib (me_MkdirAll E d))) tsDirs of
           Inl err \<Rightarrow>
             (map MadeDir (takeWhile (\<lambda>d. \<not> isl (me_MkdirAll E d)) tsDirs), FatalExit err)
         | Inr _ \<Rightarrow>
             (case lock (me_sandbox E) ''ready'' readyOpts of
                Inl err \<Rightarrow> (map MadeDir tsDirs, FatalExit err)
              | Inr calls \<Rightarrow>
                  (let pre = map MadeDir tsDirs @ [Locked ''ready'' calls] in
                   case (if cli_info opts \<noteq> [] then ebind (lib (me_Listen E (cli_info opts))) (\<lambda>_. Inr [HealthBound (cli_info opts)])
                         else Inr []) of
                     Inl err \<Rightarrow> (pre, FatalExit (Wrapf ''cannot bind health endpoint on %s: %s'' [cli_info opts] err))
                   | Inr bound \<Rightarrow>
                       (let (es, r) = main_start E specs in (pre @ bound @ es, r)))))"

text \<open>From the loaded configuration on. A daemon's child ignores the daemon flag.\<close>

definition main_loaded ::
    "main_env \<Rightarrow> bool \<Rightarrow> string list \<Rightarrow> cli \<Rightarrow> ConnectionSpec list \<Rightarrow> main_event list \<times> outcome" where
  "main_loaded E isDaemonProcess args opts specs =
     (if cli_configTest opts then ([], ConfigOK (map spec_Name specs))
      else
        (case lockNetwork (me_restrictNet E) specs (Some (cli_info opts)) of
           Inl err \<Rightarrow> ([], FatalExit err)
         | Inr rules \<Rightarrow>
             (let daemon = (cli_daemon opts \<and> \<not> isDaemonProcess) in
              if daemon then
                (let argv = executablePath (me_sandbox E) # daemonProcess # tl args in
                 ([NetLocked rules],
                  case me_exec E argv of Inl e \<Rightarrow> DaemonFailed argv e | Inr _ \<Rightarrow> DaemonSpawned argv))
              else
                (let (es, r) = main_ready E opts specs in (NetLocked rules # es, r)))))"

text \<open>The paths to load, and the read-config stage, which a daemon skips.\<close>

definition config_paths :: "main_env \<Rightarrow> cli \<Rightarrow> string list option" where
  "config_paths E opts =
     (if cli_config opts = [] then map_option (\<lambda>p. [p]) (configFilePath (me_world E) (me_home E))
      else Some (cli_config opts))"

definition lock_read_config :: "main_env \<Rightarrow> cli \<Rightarrow> main_event list res" where
  "lock_read_config E opts =
     (if cli_daemon opts then Inr []
      else ebind (lock (me_sandbox E) ''read-config'' no_options) (\<lambda>calls. Inr [Locked ''read-config'' calls]))"

definition main_config :: "main_env \<Rightarrow> bool \<Rightarrow> string list \<Rightarrow> cli \<Rightarrow> main_event list \<times> outcome" where
  "main_config E isDaemonProcess args opts =
     (case config_paths E opts of
        None \<Rightarrow> ([], PathRequired)
      | Some configPaths \<Rightarrow>
          (case lock_read_config E opts of
             Inl err \<Rightarrow> ([], FatalExit err)
           | Inr pre \<Rightarrow>
               (case LoadConfigSources (me_world E) configPaths (cli_info opts) of
                  Inl err \<Rightarrow> (pre, FatalExit err)
                | Inr specs \<Rightarrow>
                    (let (es, r) = main_loaded E isDaemonProcess args opts specs in (pre @ es, r)))))"

text \<open>The boot stages.\<close>

definition main_boot :: "main_env \<Rightarrow> bool \<Rightarrow> main_event list res" where
  "main_boot E isDaemonProcess =
     ebind (lock (me_sandbox E) ''boot'' no_options) (\<lambda>boot.
       if isDaemonProcess then
         ebind (lock (me_sandbox E) ''boot-daemon'' no_options) (\<lambda>calls.
         Inr [Locked ''boot'' boot, Locked ''boot-daemon'' calls])
       else Inr [Locked ''boot'' boot])"

definition main :: "main_env \<Rightarrow> string list \<Rightarrow> main_event list \<times> outcome" where
  "main E osArgs =
     (let (isDaemonProcess, args) = main_args osArgs in
      case main_boot E isDaemonProcess of
        Inl err \<Rightarrow> ([], FatalExit err)
      | Inr pre \<Rightarrow>
          (case me_parse E args of
             Inl _ \<Rightarrow> (pre, UsageShown)
           | Inr opts \<Rightarrow>
               if cli_version opts then (pre, VersionShown)
               else (let (es, r) = main_config E isDaemonProcess args opts in (pre @ es, r))))"

section \<open>Lemmas\<close>

lemma start_connections_spec:
  "conns (snd (start_connections E specs reg)) =
     conns reg @ concat (map (\<lambda>s. case start_spec E s of
                                     Some (Inr t) \<Rightarrow> [fst (StartPingIPs (me_now E (spec_Name s)) t)] | _ \<Rightarrow> []) specs)"
  by (induction specs arbitrary: reg)
     (auto simp: HealthRegistry_Add_def case_prod_beta Let_def split: sum.splits option.splits)

text \<open>A monitor for the events of \<^verbatim>\<open>main\<close>: a connection is started, and a routine spawned, only after
  the network restriction and the ready stage.\<close>

fun locked_first :: "bool \<Rightarrow> bool \<Rightarrow> main_event list \<Rightarrow> bool" where
  "locked_first net ready [] = True"
| "locked_first net ready (e # es) =
     (case e of
        NetLocked _ \<Rightarrow> locked_first True ready es
      | Locked stage _ \<Rightarrow> locked_first net (ready \<or> stage = ''ready'') es
      | Started _ \<Rightarrow> net \<and> ready \<and> locked_first net ready es
      | Spawned _ _ _ \<Rightarrow> net \<and> ready \<and> locked_first net ready es
      | _ \<Rightarrow> locked_first net ready es)"

lemma locked_first_done [simp]: "locked_first True True es"
  by (induction es) (auto split: main_event.splits)

lemma locked_first_dirs [simp]: "locked_first net ready (map MadeDir ds @ es) = locked_first net ready es"
  by (induction ds) auto

lemma locked_first_dirs' [simp]: "locked_first net ready (map MadeDir ds)"
  by (induction ds) auto

lemma main_ready_locked: "locked_first True False (fst (main_ready E opts specs))"
  by (auto simp: main_ready_def Let_def case_prod_beta split: sum.splits)

lemma main_loaded_locked: "locked_first False False (fst (main_loaded E d args opts specs))"
  using main_ready_locked [of E opts specs]
  by (auto simp: main_loaded_def Let_def case_prod_beta split: sum.splits)

lemma main_config_locked: "locked_first False False (fst (main_config E d args opts))"
  using main_loaded_locked [of E d args opts]
  by (auto simp: main_config_def lock_read_config_def Let_def case_prod_beta ebind_def
           split: sum.splits option.splits if_splits)

text \<open>How a run gets to each of its stages, and what its outcome says then.\<close>

definition early :: "outcome \<Rightarrow> bool" where
  "early r = (r \<in> {UsageShown, VersionShown, PathRequired} \<union> range FatalExit)"

lemma early_simps [simp]:
  "early UsageShown" "early VersionShown" "early PathRequired" "early (FatalExit e)"
  "\<not> early (DaemonSpawned argv)" "\<not> early (DaemonFailed argv m)" "\<not> early (Serving reg)"
  "\<not> early (ConfigOK ns)" "\<not> early Waiting"
  by (auto simp: early_def)

lemma main_config_stage:
  "early (snd (main_config E d args opts)) \<or>
   (\<exists>paths specs. LoadConfigSources (me_world E) paths (cli_info opts) = Inr specs \<and>
      snd (main_config E d args opts) = snd (main_loaded E d args opts specs))"
  by (cases "config_paths E opts"; cases "lock_read_config E opts")
     (auto simp: main_config_def Let_def case_prod_beta split: sum.split)

lemma main_stage:
  "early (snd (main E osArgs)) \<or>
   (\<exists>opts. snd (main E osArgs) = snd (main_config E (fst (main_args osArgs)) (snd (main_args osArgs)) opts))"
  by (auto simp: main_def Let_def case_prod_beta split: sum.split)

lemma main_loaded_stage:
  "early (snd (main_loaded E d args opts specs)) \<or> snd (main_loaded E d args opts specs) = ConfigOK (map spec_Name specs) \<or>
   (if cli_daemon opts \<and> \<not> d
    then (let argv = executablePath (me_sandbox E) # daemonProcess # tl args in
          snd (main_loaded E d args opts specs) \<in> insert (DaemonSpawned argv) (range (DaemonFailed argv)))
    else snd (main_loaded E d args opts specs) = snd (main_ready E opts specs))"
  by (auto simp: main_loaded_def Let_def case_prod_beta split: sum.split)

lemma main_ready_stage:
  "early (snd (main_ready E opts specs)) \<or> snd (main_ready E opts specs) = Waiting \<or>
   (let reg = snd (start_connections E (Shuffle (me_order E) specs) NewHealthRegistry) in
    snd (main_ready E opts specs) = Serving reg \<and> conns reg \<noteq> [] \<and> (\<forall>s \<in> set specs. start_spec E s \<noteq> None))"
  by (auto simp: main_ready_def main_start_def Let_def case_prod_beta list_ex_iff HealthRegistry_Count_def
           split: sum.split)

lemma main_ready_no_daemon: "snd (main_ready E opts specs) \<noteq> DaemonSpawned argv"
  using main_ready_stage [of E opts specs] by (auto simp: Let_def)

lemma main_config_daemon:
  assumes "snd (main_config E d args opts) = DaemonSpawned argv"
  shows "\<not> d \<and> argv = executablePath (me_sandbox E) # daemonProcess # tl args"
proof -
  obtain specs where "snd (main_loaded E d args opts specs) = DaemonSpawned argv"
    using main_config_stage [of E d args opts] assms by auto
  then show ?thesis
    using main_loaded_stage [of E d args opts specs] main_ready_no_daemon
    by (auto simp: Let_def split: if_splits)
qed

lemma main_daemon:
  assumes "snd (main E osArgs) = DaemonSpawned argv"
  shows "\<not> fst (main_args osArgs) \<and>
    argv = executablePath (me_sandbox E) # daemonProcess # tl (snd (main_args osArgs))"
  using main_stage [of E osArgs] assms main_config_daemon by (metis early_simps(5))

text \<open>Where the network restriction comes from.\<close>

lemma start_connections_no_lock:
  "NetLocked x \<notin> set (fst (start_connections E specs reg))"
  "Locked y calls \<notin> set (fst (start_connections E specs reg))"
  by (induction specs arbitrary: reg)
     (auto simp: Let_def case_prod_beta spawn_all_def spawn_one_def split: option.splits sum.splits)

lemma main_ready_no_net: "NetLocked x \<notin> set (fst (main_ready E opts specs))"
  using start_connections_no_lock
  by (auto simp: main_ready_def main_start_def Let_def case_prod_beta ebind_ok split: sum.splits)

lemma main_loaded_net:
  "NetLocked x \<in> set (fst (main_loaded E d args opts specs)) \<Longrightarrow>
     lockNetwork (me_restrictNet E) specs (Some (cli_info opts)) = Inr x"
  using main_ready_no_net [of x E opts specs]
  by (auto simp: main_loaded_def Let_def case_prod_beta split: sum.splits if_splits)

text \<open>The pledges of a run.\<close>

definition run_pledges :: "main_event list \<Rightarrow> string list list" where
  "run_pledges es = concat (map (\<lambda>e. case e of Locked _ calls \<Rightarrow> pledges calls | _ \<Rightarrow> []) es)"

lemma run_pledges_simps [simp]:
  "run_pledges [] = []"
  "run_pledges (es @ fs) = run_pledges es @ run_pledges fs"
  "run_pledges (Locked stage calls # es) = pledges calls @ run_pledges es"
  "run_pledges (NetLocked x # es) = run_pledges es"
  "run_pledges (HealthBound a # es) = run_pledges es"
  "run_pledges (map MadeDir ds) = []"
  by (simp_all add: run_pledges_def concat_map_singleton comp_def)

lemma start_connections_pledges [simp]: "run_pledges (fst (start_connections E specs reg)) = []"
  using start_connections_no_lock by (fastforce simp: run_pledges_def split: main_event.splits)

lemma main_ready_pledges: "\<exists>w. run_pledges (fst (main_ready E opts specs)) \<in> {[], [ready_promises w]}"
  by (auto simp: main_ready_def main_start_def Let_def case_prod_beta ebind_ok
           dest!: lock_ok stage_pledges(4) split: sum.splits)

lemma main_loaded_pledges: "\<exists>w. run_pledges (fst (main_loaded E d args opts specs)) \<in> {[], [ready_promises w]}"
  using main_ready_pledges [of E opts specs]
  by (auto simp: main_loaded_def Let_def case_prod_beta split: sum.splits)

lemma main_config_pledges:
  "\<exists>w. run_pledges (fst (main_config E d args opts)) \<in>
     {[], [ready_promises w], [config_promises], [config_promises, ready_promises w]}"
proof -
  have "run_pledges pre \<in> {[], [config_promises]}"
    if "lock_read_config E opts = Inr pre" for pre
    using that by (auto simp: lock_read_config_def ebind_ok dest!: lock_ok stage_pledges(3) split: if_splits)
  then show ?thesis
    using main_loaded_pledges [of E d args opts]
    by (cases "config_paths E opts"; cases "lock_read_config E opts")
       (fastforce simp: main_config_def Let_def case_prod_beta split: sum.splits)+
qed

subsection \<open>Started connections\<close>

lemma start_spec_tunnel:
  assumes "start_spec E s = Some (Inr vt)" and "wf_spec s"
  shows "vt_Name vt = spec_Name s \<and> vt_ResolveConfig vt \<noteq> None"
proof -
  obtain es where s: "StartConnection (me_startTsnet E) (me_doc E) (me_wireguard E (spec_Name s)) s = Some (es, Inr vt)"
    using assms(1) by (auto simp: start_spec_def)
  show ?thesis
  proof (cases "me_tsnet E")
    case (Some T)
    then have "me_startTsnet E (spec_Name s) = startTsnet (me_world E) (me_host E) (T (spec_Name s)) (spec_Name s)"
      by (simp add: fun_eq_iff me_startTsnet_def)
    then have "StartConnection (startTsnet (me_world E) (me_host E) (T (spec_Name s))) (me_doc E)
        (me_wireguard E (spec_Name s)) s = Some (es, Inr vt)"
      using s by (simp add: StartConnection_def TailscaleConfig_start_def cong: option.case_cong)
    then show ?thesis using assms(2) by (rule StartConnection_tunnel)
  next
    case None
    with s have "snd (StartWireguard (me_doc E) (me_wireguard E (spec_Name s)) (spec_Conf s)) = Inr vt"
      by (auto simp: StartConnection_def TailscaleConfig_start_def me_startTsnet_def startTsnet_stub_def
               split: option.splits prod.splits)
    then show ?thesis using StartWireguard_resolve assms(2) by (fastforce simp: wf_spec_def)
  qed
qed

definition started :: "main_env \<Rightarrow> ConnectionSpec \<Rightarrow> bool" where
  "started E s = (case start_spec E s of Some (Inr _) \<Rightarrow> True | _ \<Rightarrow> False)"

lemma started_names:
  assumes "list_all wf_spec specs"
  shows "map vt_Name (conns (snd (start_connections E specs NewHealthRegistry))) =
    map spec_Name (filter (started E) specs)"
proof -
  have "vt_Name (fst (StartPingIPs now vt)) = vt_Name vt" for now vt
    by (simp add: StartPingIPs_def)
  then show ?thesis
    using assms unfolding start_connections_spec
    by (induction specs)
       (auto simp: NewHealthRegistry_def started_def start_spec_tunnel split: option.splits sum.splits)
qed

subsection \<open>No panics\<close>

lemma safe_StartWireguard:
  assumes "conf_Device conf \<noteq> None" and "conf_Resolve conf \<noteq> None"
  shows "safe (snd (StartWireguard doc B conf))"
  using assms
  by (auto simp: StartWireguard_def configure_device_def CreateIPCRequest_def Let_def lib_def
           split: sum.splits prod.splits)

lemma safe_startTsnet: "startTsnet W H B name conf = Some (es, r) \<Longrightarrow> safe r"
  by (auto simp: startTsnet_def Let_def lib_def split: sum.splits option.splits)

lemma safe_start_spec: "wf_spec s \<Longrightarrow> start_spec E s = Some r \<Longrightarrow> safe r"
  using safe_StartWireguard [of "spec_Conf s" "me_doc E" "me_wireguard E (spec_Name s)"]
  by (auto simp: start_spec_def StartConnection_def TailscaleConfig_start_def me_startTsnet_def
                 startTsnet_stub_def wf_spec_def wf_conf_def
           split: option.splits prod.splits dest: safe_startTsnet)

lemmas main_no_panic [dest] = safe_sum_Inl [OF safe_lock(1)] safe_sum_Inl [OF safe_lock(2)]
  safe_sum_Inl [OF safe_lock(4)] safe_sum_Inl [OF safe_lockNetwork] safe_sum_Inl [OF safe_LoadConfigSources]

text \<open>A run without panics, in \<^verbatim>\<open>main\<close> itself, in the goroutines that start connections and in the
  routines, in which every accepted connection is disposed of.\<close>

definition event_ok :: "main_event \<Rightarrow> bool" where
  "event_ok e =
     (case e of
        StartFailed _ err \<Rightarrow> \<not> is_panic err
      | Spawned _ _ es \<Rightarrow> well_served es \<and> list_all quiet es
      | _ \<Rightarrow> True)"

lemma event_ok_simps [simp]:
  "event_ok (Locked x cs)" "event_ok (NetLocked y)" "event_ok (MadeDir x)" "event_ok (HealthBound x)"
  "event_ok (Started x)" "event_ok (StartFailed x err) = (\<not> is_panic err)"
  "event_ok (Spawned x r es) = (well_served es \<and> list_all quiet es)"
  by (simp_all add: event_ok_def)

definition run_safe :: "main_event list \<times> outcome \<Rightarrow> bool" where
  "run_safe run =
     (list_all event_ok (fst run) \<and>
      (case snd run of FatalExit err \<Rightarrow> \<not> is_panic err | _ \<Rightarrow> True))"

lemma start_connections_safe:
  "list_all wf_spec specs \<Longrightarrow>
   list_all event_ok (fst (start_connections E specs reg))"
proof (induction specs arbitrary: reg)
  case (Cons s ss)
  then have r: "safe r" if "start_spec E s = Some r" for r
    using that by (auto intro: safe_start_spec)
  have "event_ok e" if "start_spec E s = Some (Inr tun)" "e \<in> set (spawn_all E s (fst (StartPingIPs now tun)))"
    for tun now e
    using start_spec_tunnel [OF that(1)] that(2) Cons.prems
    by (auto simp: spawn_all_def spawn_one_def SpawnRoutine_served SpawnRoutine_quiet StartPingIPs_def)
  with Cons r show ?case
    by (auto simp: Let_def case_prod_beta list_all_iff split: option.splits sum.splits)
qed simp

lemma main_ready_safe:
  assumes "list_all wf_spec specs"
  shows "run_safe (main_ready E opts specs)"
proof -
  have "list_all wf_spec (Shuffle (me_order E) specs)" using assms by (simp add: list_all_iff)
  note start_connections_safe [OF this, of E NewHealthRegistry]
  moreover have "\<not> is_panic err"
    if "emap (\<lambda>d. ewrap (Wrapf ''cannot create Tailscale state dir %s: %s'' [d]) (lib (me_MkdirAll E d)))
      (TailscaleStateDirs (me_world E) specs) = Inl err" for err
    using that by (rule safe_sum_Inl [rotated]) (auto intro!: safe_emap safe_ewrap)
  moreover have "\<not> is_panic err" if "ebind (lib m) (\<lambda>_. Inr bound) = Inl err"
    for m :: "listener ext" and bound :: "main_event list" and err
    using that by (rule safe_sum_Inl [rotated]) (auto intro!: safe_ebind)
  ultimately show ?thesis
    by (auto simp: run_safe_def main_ready_def main_start_def Let_def case_prod_beta list_all_iff ebind_ok split: sum.splits)
qed

lemma main_loaded_safe: "list_all wf_spec specs \<Longrightarrow> run_safe (main_loaded E d args opts specs)"
  using main_ready_safe [of specs E opts]
  by (auto simp: run_safe_def main_loaded_def Let_def case_prod_beta split: sum.splits)

lemma main_config_safe: "run_safe (main_config E d args opts)"
proof -
  have "\<not> is_panic err" if "lock_read_config E opts = Inl err" for err
    using that by (rule safe_sum_Inl [rotated]) (auto simp: lock_read_config_def intro!: safe_ebind)
  moreover have "list_all event_ok pre"
    if "lock_read_config E opts = Inr pre" for pre
    using that by (auto simp: lock_read_config_def ebind_ok split: if_splits)
  moreover have "run_safe (main_loaded E d args opts specs)"
    if "LoadConfigSources (me_world E) paths (cli_info opts) = Inr specs" for paths specs
    using LoadConfigSources_ok [OF that] by (simp add: main_loaded_safe)
  ultimately show ?thesis
    by (auto simp: main_config_def run_safe_def Let_def case_prod_beta split: option.splits sum.splits)
qed

lemma main_safe: "run_safe (main E osArgs)"
  using main_config_safe [of E]
  by (auto simp: main_def main_boot_def run_safe_def Let_def case_prod_beta ebind_def split: sum.splits)

section \<open>Properties\<close>

text \<open>C14: \<^verbatim>\<open>main\<close> starts no connection and spawns no routine before it has restricted the network and
  passed the ready stage, on any path and for any answers of its surroundings.\<close>

theorem main_locks_before_starting: "locked_first False False (fst (main E osArgs))"
  using main_config_locked [of E]
  by (auto simp: main_def main_boot_def Let_def case_prod_beta ebind_def split: sum.splits)

text \<open>C10: what the program may still do with files once it serves. The ready stage makes three calls.
  Under the Landlock rules only the Tailscale state directories and four device files are writable,
  a path must exist only if it is a state directory, all of which have been created before, and
  every TLS certificate and key of an HTTP proxy is readable. The pledge keeps write access exactly
  when there is a state directory, and never keeps \<^verbatim>\<open>rpath\<close>, without which a file cannot be opened
  for reading on OpenBSD.\<close>

theorem ready_sandbox:
  assumes "Locked ''ready'' calls \<in> set (fst (main_ready E opts specs))"
  shows "\<exists>pre post p rules. fst (main_ready E opts specs) = pre @ Locked ''ready'' calls # post \<and>
    calls = [Pledge p, PreferGo, RestrictPaths rules] \<and>
    (\<Union>r \<in> set rules. writable r) =
      device_files \<union> set (TailscaleStateDirs (me_world E) specs) \<and>
    (\<forall>r \<in> set rules. \<forall>d \<in> must_exist r. MadeDir d \<in> set pre) \<and>
    (\<forall>s \<in> set specs. \<forall>h. HTTP h \<in> set (conf_Routines (spec_Conf s)) \<longrightarrow>
       {http_CertFile h, http_KeyFile h} - {[]} \<subseteq> (\<Union>r \<in> set rules. readable r)) \<and>
    (''wpath'' \<in> set (promises p) \<longleftrightarrow> TailscaleStateDirs (me_world E) specs \<noteq> []) \<and>
    ''rpath'' \<notin> set (promises p)"
proof -
  define dirs where "dirs = TailscaleStateDirs (me_world E) specs"
  define ro where "ro = \<lparr>lo_roFiles = tlsFilePaths specs, lo_rwDirs = dirs, lo_needsWriteAccess = (dirs \<noteq> [])\<rparr>"
  obtain post where run: "fst (main_ready E opts specs) = map MadeDir dirs @ Locked ''ready'' calls # post"
    and "lock (me_sandbox E) ''ready'' ro = Inr calls"
    using assms start_connections_no_lock
    by (auto simp: main_ready_def main_start_def Let_def case_prod_beta dirs_def ro_def ebind_ok
             split: sum.splits if_splits)
  then have "lock_events (me_sandbox E) ''ready'' ro = Some calls" by (simp add: lock_ok)
  then have calls: "calls = [Pledge (if dirs \<noteq> [] then ''stdio inet dns wpath cpath'' else ''stdio inet dns''),
      PreferGo, RestrictPaths (ready_rules ro)]"
    by (simp add: lock_events_def ro_def)
  have w: "(\<Union>r \<in> set (ready_rules ro). writable r) =
      device_files \<union> set dirs"
    and m: "(\<Union>r \<in> set (ready_rules ro). must_exist r) = set dirs"
    and r: "set (tlsFilePaths specs) \<subseteq> (\<Union>r \<in> set (ready_rules ro). readable r)"
    using ready_rules_rights [of ro] by (simp_all add: ro_def)
  have "\<forall>s \<in> set specs. \<forall>h. HTTP h \<in> set (conf_Routines (spec_Conf s)) \<longrightarrow>
      {http_CertFile h, http_KeyFile h} - {[]} \<subseteq> (\<Union>r \<in> set (ready_rules ro). readable r)"
    using r tls_files by blast
  moreover have "\<forall>r \<in> set (ready_rules ro). \<forall>d \<in> must_exist r. MadeDir d \<in> set (map MadeDir dirs)"
    using m by auto
  moreover have "''wpath'' \<in> set (promises (if dirs \<noteq> [] then ''stdio inet dns wpath cpath'' else ''stdio inet dns'')) \<longleftrightarrow> dirs \<noteq> []"
    and "''rpath'' \<notin> set (promises (if dirs \<noteq> [] then ''stdio inet dns wpath cpath'' else ''stdio inet dns''))"
    by (simp_all add: promises_of_stages ready_promises_access)
  ultimately show ?thesis
    using run calls w unfolding dirs_def [symmetric] by blast
qed

text \<open>C11: privileges only shrink. In every run, in the parent of a daemon, in its child and in the
  foreground, each pledge asks only for promises all earlier ones asked for, so that OpenBSD never
  refuses one.\<close>

theorem main_pledges_narrow: "sorted_wrt (\<lambda>p q. set q \<subseteq> set p) (run_pledges (fst (main E osArgs)))"
proof -
  obtain d args where a: "main_args osArgs = (d, args)" by fastforce
  have pre: "run_pledges pre = [boot_promises]" if "main_boot E d = Inr pre" for pre
    using that by (auto simp: main_boot_def ebind_ok dest!: lock_ok stage_pledges(1,2) split: if_splits)
  have config: "sorted_wrt (\<lambda>p q. set q \<subseteq> set p) (boot_promises # run_pledges (fst (main_config E d args opts)))"
    for opts
    using main_config_pledges [of E d args opts] by (auto dest: promises_narrow [THEN subsetD])
  show ?thesis
  proof (cases "main_boot E d")
    case (Inr p)
    then show ?thesis
      using pre config
      by (cases "me_parse E args") (simp_all add: main_def a case_prod_beta)
  qed (simp add: main_def a)
qed

text \<open>The daemon's child gets the arguments of its parent and does not fork again. When \<^verbatim>\<open>main\<close>
  spawns a daemon, the child recognises itself, parses the parent's arguments after the program
  name, and its own run never spawns a daemon.\<close>

theorem daemon_child_arguments:
  assumes "snd (main E (a0 # rest)) = DaemonSpawned argv"
  shows "main_args argv = (True, executablePath (me_sandbox E) # rest) \<and>
    (\<forall>E' argv'. snd (main E' argv) \<noteq> DaemonSpawned argv')"
proof -
  have "main_args (a0 # rest) = (False, a0 # rest)"
    using main_daemon [OF assms] by (auto simp: main_args_def split: list.splits if_splits)
  then have argv: "argv = executablePath (me_sandbox E) # daemonProcess # rest"
    using main_daemon [OF assms] by simp
  then have "main_args argv = (True, executablePath (me_sandbox E) # rest)" by (simp add: main_args_def)
  then show ?thesis using main_daemon by fastforce
qed

definition demo_main :: main_env where
  "demo_main =
     \<lparr>me_world = demo_world, me_home = ''/root'',
      me_sandbox = \<lparr>sb_Executable = Inr ''/usr/bin/wireproxy'', sb_arg0 = ''wireproxy'', sb_call = (\<lambda>_. Inr ())\<rparr>,
      me_restrictNet = (\<lambda>_. Inr ()),
      me_parse = (\<lambda>_. Inr \<lparr>cli_config = [''/etc/home.conf''], cli_daemon = True, cli_info = ''127.0.0.1:9090'',
                             cli_version = False, cli_configTest = False\<rparr>),
      me_MkdirAll = (\<lambda>_. Inr ()), me_Listen = (\<lambda>_. Inr 1), me_host = demo_host, me_tsnet = None,
      me_doc = demo_doc, me_wireguard = (\<lambda>_. demo_backend), me_order = (\<lambda>n. n), me_now = (\<lambda>_. 0),
      me_exec = (\<lambda>_. Inr ()), me_routine = (\<lambda>_ _. demo_routine_env)\<rparr>"

definition demo_cli :: cli where
  "demo_cli = \<lparr>cli_config = [''/etc/home.conf''], cli_daemon = False, cli_info = [], cli_version = False,
                cli_configTest = False\<rparr>"

definition demo_tls :: HTTPConfig where
  "demo_tls =
     \<lparr>http_BindAddress = ''127.0.0.1:8443'', http_Username = [], http_Password = [],
      http_CertFile = ''/etc/cert.pem'', http_KeyFile = ''/etc/key.pem'', http_TunnelDomains = [],
      http_LogDomains = False\<rparr>"

definition demo_tls_spec :: ConnectionSpec where
  "demo_tls_spec =
     \<lparr>spec_Name = ''ts'',
      spec_Conf = demo_conf\<lparr>conf_Tailscale := Some demo_ts_conf, conf_Routines := [HTTP demo_tls]\<rparr>\<rparr>"

definition ready_event :: "main_event \<Rightarrow> bool" where
  "ready_event e = (case e of Locked stage _ \<Rightarrow> stage = ''ready'' | _ \<Rightarrow> False)"

lemma ready_event_iff: "ready_event e \<longleftrightarrow> (\<exists>calls. e = Locked ''ready'' calls)"
  by (cases e) (auto simp: ready_event_def)

lemma demo_ready:
  "list_ex ready_event (fst (main_ready demo_main demo_cli [demo_tls_spec]))"
  by code_simp

theorem ready_sandbox_witness:
  "\<exists>rules. {http_CertFile demo_tls, http_KeyFile demo_tls} - {[]} \<subseteq> (\<Union>r \<in> set rules. readable r) \<and>
     (\<Union>r \<in> set rules. writable r) =
       device_files \<union>
       set (TailscaleStateDirs (me_world demo_main) [demo_tls_spec])"
proof -
  obtain calls where "Locked ''ready'' calls \<in> set (fst (main_ready demo_main demo_cli [demo_tls_spec]))"
    using demo_ready by (auto simp: list_ex_iff ready_event_iff)
  then obtain rules where
      w: "(\<Union>r \<in> set rules. writable r) = device_files \<union> set (TailscaleStateDirs (me_world demo_main) [demo_tls_spec])"
    and r: "\<forall>s \<in> set [demo_tls_spec]. \<forall>h. HTTP h \<in> set (conf_Routines (spec_Conf s)) \<longrightarrow>
      {http_CertFile h, http_KeyFile h} - {[]} \<subseteq> (\<Union>r \<in> set rules. readable r)"
    using that by (elim ready_sandbox [THEN exE] exE conjE)
  have "HTTP demo_tls \<in> set (conf_Routines (spec_Conf demo_tls_spec))"
    by (simp add: demo_tls_spec_def)
  then have "{http_CertFile demo_tls, http_KeyFile demo_tls} - {[]} \<subseteq> (\<Union>r \<in> set rules. readable r)"
    using r by simp
  then show ?thesis using w by blast
qed

lemma demo_daemonises:
  "case snd (main demo_main [''wireproxy'', ''-d'']) of
     DaemonSpawned argv \<Rightarrow> argv = [''/usr/bin/wireproxy'', ''daemon-process'', ''-d'']
   | _ \<Rightarrow> False"
  by code_simp

theorem daemon_child_arguments_witness:
  "main_args [''/usr/bin/wireproxy'', ''daemon-process'', ''-d''] = (True, [''/usr/bin/wireproxy'', ''-d''])"
proof -
  have d: "snd (main demo_main (''wireproxy'' # [''-d''])) =
      DaemonSpawned [''/usr/bin/wireproxy'', ''daemon-process'', ''-d'']"
    using demo_daemonises by (auto split: outcome.splits)
  show ?thesis using daemon_child_arguments [OF d] by (simp add: demo_main_def executablePath_def)
qed

end
