(* ===== verification/Startup.thy ===== *)
theory Startup
  imports Wireproxy_Main
begin

text \<open>
  How \<^verbatim>\<open>main\<close> starts its connections (\<^verbatim>\<open>cmd/wireproxy/main.go\<close> lines 256--264 and 379--418), with
  one goroutine per connection, the goroutine that waits for a signal, and the main goroutine that
  waits for all starts and then for the signal. One step is one statement of one goroutine. The
  tunnels are objects on a heap, one per goroutine; the registry holds references to them, which
  matters because \<^verbatim>\<open>StartPingIPs\<close> and the probes change a tunnel after it was registered.
\<close>

section \<open>Goroutines\<close>

datatype start_pc =
    Starting
  | Adding
  | Pinging
  | Spawning "RoutineSpawner list"
  | Returning
  | Finished

datatype main_pc = AtWait | AtSignal | ExitFatal | Exited

record startup =
  su_pc :: "start_pc list"
  su_tun :: "VirtualTun option list"
  su_conns :: "nat list"
  su_started :: "32 word"
  su_log :: "(nat \<times> main_event) list"
  su_main :: main_pc
  su_cancelled :: bool

definition startup_init :: "ConnectionSpec list \<Rightarrow> startup" where
  "startup_init specs =
     \<lparr>su_pc = replicate (length specs) Starting, su_tun = replicate (length specs) None, su_conns = [],
      su_started = 0, su_log = [], su_main = AtWait, su_cancelled = False\<rparr>"

text \<open>The next statement of the goroutine of one connection: where it goes, its tunnel afterwards,
  the events it causes, whether it adds the tunnel to the registry and whether it increments
  \<^verbatim>\<open>started\<close>. A start that does not return has no next statement. \<open>Returning\<close> is the deferred
  \<^verbatim>\<open>wg.Done\<close>.\<close>

fun go_local ::
    "main_env \<Rightarrow> ConnectionSpec \<Rightarrow> start_pc \<Rightarrow> VirtualTun option
      \<Rightarrow> (start_pc \<times> VirtualTun option \<times> main_event list \<times> bool \<times> bool) option" where
  "go_local E spec Starting tun =
     (case start_spec E spec of
        None \<Rightarrow> None
      | Some (Inl err) \<Rightarrow> Some (Returning, tun, [StartFailed (spec_Name spec) err], False, False)
      | Some (Inr t) \<Rightarrow> Some (Adding, Some t, [], False, False))"
| "go_local E spec Adding tun = Some (Pinging, tun, [], True, False)"
| "go_local E spec Pinging tun =
     Some (Spawning (conf_Routines (spec_Conf spec)),
           map_option (\<lambda>t. fst (StartPingIPs (me_now E (spec_Name spec)) t)) tun,
           [Started (spec_Name spec)], False, False)"
| "go_local E spec (Spawning (r # rs)) tun =
     (case tun of
        None \<Rightarrow> None
      | Some t \<Rightarrow> Some (Spawning rs, tun, [spawn_one E spec t r], False, False))"
| "go_local E spec (Spawning []) tun = Some (Returning, tun, [], False, True)"
| "go_local E spec Returning tun = Some (Finished, tun, [], False, False)"
| "go_local E spec Finished tun = None"

definition go_step :: "main_env \<Rightarrow> ConnectionSpec list \<Rightarrow> nat \<Rightarrow> startup \<Rightarrow> startup option" where
  "go_step E specs i st =
     map_option (\<lambda>(pc, tun, es, add, incr).
         st\<lparr>su_pc := (su_pc st)[i := pc],
            su_tun := (su_tun st)[i := tun],
            su_conns := su_conns st @ (if add then [i] else []),
            su_started := su_started st + (if incr then 1 else 0),
            su_log := su_log st @ map (Pair i) es\<rparr>)
       (go_local E (specs ! i) (su_pc st ! i) (su_tun st ! i))"

text \<open>The main goroutine: \<^verbatim>\<open>wg.Wait\<close>, the test of the counter, and the wait for the context.\<close>

definition main_step :: "startup \<Rightarrow> startup option" where
  "main_step st =
     (case su_main st of
        AtWait \<Rightarrow>
          if list_all (\<lambda>pc. pc = Finished) (su_pc st) then
            Some (st\<lparr>su_main := (if su_started st = 0 then ExitFatal else AtSignal)\<rparr>)
          else None
      | AtSignal \<Rightarrow> if su_cancelled st then Some (st\<lparr>su_main := Exited\<rparr>) else None
      | _ \<Rightarrow> None)"

definition running :: "startup \<Rightarrow> bool" where
  "running st = (su_main st \<in> {AtWait, AtSignal})"

text \<open>The goroutine that cancels the context at the first signal.\<close>

definition signal_step :: "startup \<Rightarrow> startup option" where
  "signal_step st = (if running st \<and> \<not> su_cancelled st then Some (st\<lparr>su_cancelled := True\<rparr>) else None)"

inductive start_step :: "main_env \<Rightarrow> ConnectionSpec list \<Rightarrow> startup \<Rightarrow> startup \<Rightarrow> bool" for E specs where
  goroutine: "running st \<Longrightarrow> i < length specs \<Longrightarrow> go_step E specs i st = Some st' \<Longrightarrow> start_step E specs st st'"
| main_goroutine: "main_step st = Some st' \<Longrightarrow> start_step E specs st st'"
| signal: "signal_step st = Some st' \<Longrightarrow> start_step E specs st st'"

text \<open>The probes of the tunnels whose goroutine has called \<^verbatim>\<open>StartPingIPs\<close>.\<close>

definition pinged :: "start_pc \<Rightarrow> bool" where
  "pinged pc = (pc \<notin> {Starting, Adding, Pinging})"

inductive startup_step :: "main_env \<Rightarrow> ConnectionSpec list \<Rightarrow> startup \<Rightarrow> startup \<Rightarrow> bool" for E specs where
  start: "start_step E specs st st' \<Longrightarrow> startup_step E specs st st'"
| probe: "running st \<Longrightarrow> i < length specs \<Longrightarrow> pinged (su_pc st ! i) \<Longrightarrow> su_tun st ! i = Some d \<Longrightarrow> vt_Tnet d \<Longrightarrow>
    ping_step d d' \<Longrightarrow> startup_step E specs st (st\<lparr>su_tun := (su_tun st)[i := Some d']\<rparr>)"

inductive_cases start_stepE [elim]: "start_step E specs st st'"
inductive_cases startup_stepE [elim]: "startup_step E specs st st'"

text \<open>The registry the health endpoint serves.\<close>

definition su_registry :: "startup \<Rightarrow> HealthRegistry" where
  "su_registry st = \<lparr>conns = map (\<lambda>i. the (su_tun st ! i)) (su_conns st)\<rparr>"

definition all_finished :: "startup \<Rightarrow> bool" where
  "all_finished st = list_all (\<lambda>pc. pc = Finished) (su_pc st)"

section \<open>The invariant\<close>

text \<open>What one goroutine causes in all, and what it has done at each of its statements.\<close>

definition seeded :: "main_env \<Rightarrow> ConnectionSpec \<Rightarrow> VirtualTun \<Rightarrow> VirtualTun" where
  "seeded E spec t = fst (StartPingIPs (me_now E (spec_Name spec)) t)"

definition go_events :: "main_env \<Rightarrow> ConnectionSpec \<Rightarrow> main_event list" where
  "go_events E spec =
     (case start_spec E spec of
        None \<Rightarrow> []
      | Some (Inl err) \<Rightarrow> [StartFailed (spec_Name spec) err]
      | Some (Inr t) \<Rightarrow> Started (spec_Name spec) # spawn_all E spec (seeded E spec t))"

definition local_ok :: "main_env \<Rightarrow> ConnectionSpec \<Rightarrow> start_pc \<Rightarrow> VirtualTun option \<Rightarrow> main_event list \<Rightarrow> bool" where
  "local_ok E spec pc tun es =
     (case pc of
        Starting \<Rightarrow> tun = None \<and> es = []
      | Adding \<Rightarrow> tun \<noteq> None \<and> start_spec E spec = map_option Inr tun \<and> es = []
      | Pinging \<Rightarrow> tun \<noteq> None \<and> start_spec E spec = map_option Inr tun \<and> es = []
      | Spawning rs \<Rightarrow>
          (\<exists>t d. start_spec E spec = Some (Inr t) \<and> tun = Some d \<and> rtranclp ping_step (seeded E spec t) d \<and>
             es @ map (spawn_one E spec (seeded E spec t)) rs = go_events E spec)
      | _ \<Rightarrow>
          es = go_events E spec \<and> start_spec E spec \<noteq> None \<and>
          (\<forall>t. start_spec E spec = Some (Inr t) \<longrightarrow>
             (\<exists>d. tun = Some d \<and> rtranclp ping_step (seeded E spec t) d)))"

definition counted :: "main_env \<Rightarrow> ConnectionSpec \<Rightarrow> start_pc \<Rightarrow> bool" where
  "counted E spec pc = (pc \<in> {Returning, Finished} \<and> started E spec)"

definition registered :: "main_env \<Rightarrow> ConnectionSpec \<Rightarrow> start_pc \<Rightarrow> bool" where
  "registered E spec pc = (pc = Pinging \<or> pc \<in> range Spawning \<or> counted E spec pc)"

definition log_of :: "nat \<Rightarrow> (nat \<times> main_event) list \<Rightarrow> main_event list" where
  "log_of i l = map snd (filter (\<lambda>x. fst x = i) l)"

definition startup_inv :: "main_env \<Rightarrow> ConnectionSpec list \<Rightarrow> startup \<Rightarrow> bool" where
  "startup_inv E specs st =
     (length (su_pc st) = length specs \<and> length (su_tun st) = length specs \<and>
      (\<forall>i < length specs. local_ok E (specs ! i) (su_pc st ! i) (su_tun st ! i) (log_of i (su_log st))) \<and>
      (\<forall>x \<in> set (su_log st). fst x < length specs) \<and>
      distinct (su_conns st) \<and>
      set (su_conns st) = {i. i < length specs \<and> registered E (specs ! i) (su_pc st ! i)} \<and>
      of_nat (card {i. i < length specs \<and> counted E (specs ! i) (su_pc st ! i)}) = su_started st \<and>
      (su_main st \<noteq> AtWait \<longrightarrow> all_finished st) \<and>
      (su_main st = ExitFatal \<longrightarrow> su_started st = 0) \<and>
      (su_main st \<in> {AtSignal, Exited} \<longrightarrow> su_started st \<noteq> 0) \<and>
      (su_main st = Exited \<longrightarrow> su_cancelled st))"

section \<open>Lemmas\<close>

lemma spawn_one_ping: "rtranclp ping_step t d \<Longrightarrow> spawn_one E spec d r = spawn_one E spec t r"
  by (induction rule: rtranclp_induct) (auto simp: spawn_one_def ping_store_def)

lemma local_ok_probe:
  "local_ok E spec pc (Some d) es \<Longrightarrow> pinged pc \<Longrightarrow> ping_step d d' \<Longrightarrow> local_ok E spec pc (Some d') es"
  by (cases pc) (auto simp: local_ok_def pinged_def intro: rtranclp.rtrancl_into_rtrancl)

lemma go_local_ok:
  assumes "local_ok E spec pc tun es" and "go_local E spec pc tun = Some (pc', tun', es', add, incr)"
  shows "local_ok E spec pc' tun' (es @ es')"
proof (cases pc)
  case (Spawning rs)
  then show ?thesis
    using assms by (cases rs) (auto simp: local_ok_def go_events_def spawn_one_ping split: option.splits)
qed (use assms in \<open>auto simp: local_ok_def go_events_def spawn_all_def seeded_def split: option.splits sum.splits\<close>)

lemma go_local_marks:
  assumes "local_ok E spec pc tun es" and "go_local E spec pc tun = Some (pc', tun', es', add, incr)"
  shows "registered E spec pc' = (registered E spec pc \<or> add)" and "add \<Longrightarrow> \<not> registered E spec pc"
    and "counted E spec pc' = (counted E spec pc \<or> incr)" and "incr \<Longrightarrow> \<not> counted E spec pc"
proof -
  have "registered E spec pc' = (registered E spec pc \<or> add) \<and> (add \<longrightarrow> \<not> registered E spec pc) \<and>
      counted E spec pc' = (counted E spec pc \<or> incr) \<and> (incr \<longrightarrow> \<not> counted E spec pc)"
  proof (cases pc)
    case (Spawning rs)
    then show ?thesis
      using assms
      by (cases rs) (auto simp: local_ok_def registered_def counted_def started_def split: option.splits)
  qed (use assms in \<open>auto simp: local_ok_def registered_def counted_def started_def
                            split: option.splits sum.splits\<close>)
  then show "registered E spec pc' = (registered E spec pc \<or> add)" "add \<Longrightarrow> \<not> registered E spec pc"
    "counted E spec pc' = (counted E spec pc \<or> incr)" "incr \<Longrightarrow> \<not> counted E spec pc" by blast+
qed

text \<open>Each statement brings a goroutine nearer to its end.\<close>

fun go_weight :: "ConnectionSpec \<Rightarrow> start_pc \<Rightarrow> nat" where
  "go_weight spec Starting = 5 + length (conf_Routines (spec_Conf spec))"
| "go_weight spec Adding = 4 + length (conf_Routines (spec_Conf spec))"
| "go_weight spec Pinging = 3 + length (conf_Routines (spec_Conf spec))"
| "go_weight spec (Spawning rs) = 2 + length rs"
| "go_weight spec Returning = 1"
| "go_weight spec Finished = 0"

lemma go_local_weight: "go_local E spec pc tun = Some (pc', rest) \<Longrightarrow> go_weight spec pc' < go_weight spec pc"
  by (induction E spec pc tun rule: go_local.induct) (auto split: option.splits sum.splits)

lemma go_local_progress:
  "local_ok E spec pc tun es \<Longrightarrow> start_spec E spec \<noteq> None \<Longrightarrow> pc \<noteq> Finished \<Longrightarrow> \<exists>x. go_local E spec pc tun = Some x"
  by (induction E spec pc tun rule: go_local.induct) (auto simp: local_ok_def split: option.splits sum.splits)

lemma log_of_simps [simp]:
  "log_of i [] = []"
  "log_of i (l @ map (Pair i) es) = log_of i l @ es"
  "j \<noteq> i \<Longrightarrow> log_of j (l @ map (Pair i) es) = log_of j l"
  by (simp_all add: log_of_def filter_map comp_def)

lemma marked_update:
  assumes "i < length pcs" and "P (xs ! i) pc = (P (xs ! i) (pcs ! i) \<or> b)"
  shows "{j. j < length pcs \<and> P (xs ! j) (pcs[i := pc] ! j)} =
    {j. j < length pcs \<and> P (xs ! j) (pcs ! j)} \<union> (if b then {i} else {})"
  using assms by (auto simp: nth_list_update split: if_splits)

lemma startup_inv_waiting:
  assumes "startup_inv E specs st" and "i < length specs" and "su_pc st ! i \<noteq> Finished"
  shows "su_main st = AtWait"
  using assms by (auto simp: startup_inv_def all_finished_def list_all_length)

lemma past_wait: "startup_inv E specs st \<Longrightarrow> su_main st \<noteq> AtWait \<Longrightarrow> all_finished st"
  by (simp add: startup_inv_def)

lemma startup_inv_go:
  assumes inv: "startup_inv E specs st" and i: "i < length specs" and step: "go_step E specs i st = Some st'"
  shows "startup_inv E specs st'"
proof -
  obtain pc tun es add incr where
    g: "go_local E (specs ! i) (su_pc st ! i) (su_tun st ! i) = Some (pc, tun, es, add, incr)" and
    st': "st' = st\<lparr>su_pc := (su_pc st)[i := pc], su_tun := (su_tun st)[i := tun],
      su_conns := su_conns st @ (if add then [i] else []), su_started := su_started st + (if incr then 1 else 0),
      su_log := su_log st @ map (Pair i) es\<rparr>"
    using step by (auto simp: go_step_def)
  have len: "length (su_pc st) = length specs" "length (su_tun st) = length specs"
    and l: "local_ok E (specs ! i) (su_pc st ! i) (su_tun st ! i) (log_of i (su_log st))"
    using inv i by (auto simp: startup_inv_def)
  note marks = go_local_marks [OF l g]
  have "su_pc st ! i \<noteq> Finished" using g by auto
  then have wait: "su_main st = AtWait" using startup_inv_waiting [OF inv i] by simp
  have "registered E (specs ! i) pc = (registered E (specs ! i) (su_pc st ! i) \<or> add)" by (rule marks)
  from marked_update [of i "su_pc st" "registered E", OF _ this]
  have r: "{j. j < length specs \<and> registered E (specs ! j) ((su_pc st)[i := pc] ! j)} =
      set (su_conns st) \<union> (if add then {i} else {})"
    using inv i len by (simp add: startup_inv_def)
  let ?C = "{j. j < length specs \<and> counted E (specs ! j) (su_pc st ! j)}"
  have "counted E (specs ! i) pc = (counted E (specs ! i) (su_pc st ! i) \<or> incr)" by (rule marks)
  from marked_update [of i "su_pc st" "counted E", OF _ this]
  have "{j. j < length specs \<and> counted E (specs ! j) ((su_pc st)[i := pc] ! j)} = ?C \<union> (if incr then {i} else {})"
    using i len by simp
  then have c: "card {j. j < length specs \<and> counted E (specs ! j) ((su_pc st)[i := pc] ! j)} =
      card ?C + (if incr then 1 else 0)"
    using marks(4) by simp
  have "add \<Longrightarrow> i \<notin> set (su_conns st)" using marks(2) inv by (simp add: startup_inv_def)
  moreover have "local_ok E (specs ! j) ((su_pc st)[i := pc] ! j) ((su_tun st)[i := tun] ! j)
      (log_of j (su_log st @ map (Pair i) es))" if "j < length specs" for j
    using that inv go_local_ok [OF l g] len by (cases "j = i") (auto simp: startup_inv_def)
  ultimately show ?thesis
    using inv i len wait r c unfolding st' startup_inv_def by (simp add: ball_Un)
qed

lemma startup_inv_step: "startup_inv E specs st \<Longrightarrow> startup_step E specs st st' \<Longrightarrow> startup_inv E specs st'"
proof (elim startup_stepE start_stepE)
  assume inv: "startup_inv E specs st" and s: "main_step st = Some st'"
  show "startup_inv E specs st'"
    using inv s by (auto simp: startup_inv_def main_step_def all_finished_def split: main_pc.splits if_splits)
next
  fix i d d'
  assume inv: "startup_inv E specs st" and i: "i < length specs" "pinged (su_pc st ! i)" "su_tun st ! i = Some d"
    and p: "ping_step d d'" and st': "st' = st\<lparr>su_tun := (su_tun st)[i := Some d']\<rparr>"
  have "local_ok E (specs ! j) (su_pc st ! j) ((su_tun st)[i := Some d'] ! j) (log_of j (su_log st))"
    if "j < length specs" for j
    using that inv i local_ok_probe [OF _ i(2) p] by (cases "j = i") (fastforce simp: startup_inv_def)+
  then show "startup_inv E specs st'" using inv by (auto simp: startup_inv_def st' all_finished_def)
next
  assume "startup_inv E specs st" and "signal_step st = Some st'"
  then show "startup_inv E specs st'"
    unfolding startup_inv_def all_finished_def by (auto simp: signal_step_def split: if_splits)
qed (rule startup_inv_go)

lemma startup_inv_init: "startup_inv E specs (startup_init specs)"
  by (auto simp: startup_inv_def startup_init_def local_ok_def registered_def counted_def cong: conj_cong)

interpretation startups: invariant_system "\<lambda>st. st = startup_init specs" "startup_step E specs" "startup_inv E specs"
  by unfold_locales (auto intro: startup_inv_init startup_inv_step)

subsection \<open>The sequential order behind an interleaving\<close>

lemma start_connections_events: "fst (start_connections E specs reg) = concat (map (go_events E) specs)"
  by (induction specs arbitrary: reg)
     (auto simp: go_events_def seeded_def case_prod_beta Let_def split: sum.splits option.splits)

lemma start_connections_conns:
  "conns (snd (start_connections E specs NewHealthRegistry)) =
     map (\<lambda>s. seeded E s (projr (the (start_spec E s)))) (filter (started E) specs)"
  unfolding start_connections_spec
  by (induction specs) (auto simp: NewHealthRegistry_def started_def seeded_def split: sum.splits option.splits)

lemma order_irrelevant [simp]:
  "start_spec (E\<lparr>me_order := p\<rparr>) = start_spec E"
  "go_events (E\<lparr>me_order := p\<rparr>) = go_events E"
  "started (E\<lparr>me_order := p\<rparr>) = started E"
  "seeded (E\<lparr>me_order := p\<rparr>) = seeded E"
proof -
  show s: "start_spec (E\<lparr>me_order := p\<rparr>) = start_spec E"
    by (simp add: fun_eq_iff start_spec_def StartConnection_def TailscaleConfig_start_def me_startTsnet_def
             split: option.split)
  show "seeded (E\<lparr>me_order := p\<rparr>) = seeded E" by (simp add: fun_eq_iff seeded_def)
  then show "go_events (E\<lparr>me_order := p\<rparr>) = go_events E"
    by (simp add: fun_eq_iff go_events_def s spawn_all_def spawn_one_def split: option.split sum.split)
  show "started (E\<lparr>me_order := p\<rparr>) = started E" by (simp add: fun_eq_iff started_def s)
qed

lemma mset_log:
  "\<forall>x \<in> set l. fst x < n \<Longrightarrow> mset (concat (map (\<lambda>i. log_of i l) [0..<n])) = mset (map snd l)"
proof (induction l)
  case (Cons x l)
  have "mset (concat (map (\<lambda>i. log_of i (x # l)) [0..<n])) =
      (\<Sum>i = 0..<n. (if fst x = i then {#snd x#} else {#}) + mset (log_of i l))"
    by (simp add: mset_concat interv_sum_list_conv_sum_set_nat log_of_def comp_def cong: if_cong)
       (auto intro!: sum.cong)
  also have "\<dots> = {#snd x#} + mset (concat (map (\<lambda>i. log_of i l) [0..<n]))"
    using Cons.prems by (simp add: sum.distrib mset_concat interv_sum_list_conv_sum_set_nat comp_def)
  finally show ?case using Cons by simp
qed (simp add: mset_concat interv_sum_list_conv_sum_set_nat comp_def)

lemma mset_indices:
  assumes "distinct is" and "set is = {0..<n}"
  shows "mset (map f is) = mset (map f [0..<n])"
proof -
  have "mset is = mset [0..<n]" using assms by (metis atLeastLessThan_upt distinct_upt set_eq_iff_mset_eq_distinct)
  then show ?thesis by (metis mset_map)
qed

text \<open>Once all starts have returned, the registry holds exactly the tunnels that started.\<close>

definition su_order :: "ConnectionSpec list \<Rightarrow> startup \<Rightarrow> ConnectionSpec list" where
  "su_order specs st =
     map ((!) specs) (su_conns st @ filter (\<lambda>i. i \<notin> set (su_conns st)) [0..<length specs])"

lemma finished_facts:
  assumes "startup_inv E specs st" and "all_finished st"
  shows "set (su_conns st) = {i. i < length specs \<and> started E (specs ! i)}"
    and "of_nat (length (su_conns st)) = su_started st"
    and "mset (su_order specs st) = mset specs"
    and "filter (started E) (su_order specs st) = map ((!) specs) (su_conns st)"
    and "mset (map snd (su_log st)) = mset (concat (map (go_events E) specs))"
proof -
  have pc: "su_pc st ! i = Finished" if "i < length specs" for i
    using assms that by (simp add: all_finished_def startup_inv_def list_all_length)
  show s: "set (su_conns st) = {i. i < length specs \<and> started E (specs ! i)}"
    using assms(1) by (auto simp: startup_inv_def registered_def counted_def pc)
  have d: "distinct (su_conns st)" using assms(1) by (simp add: startup_inv_def)
  have "{i. i < length specs \<and> counted E (specs ! i) (su_pc st ! i)} = set (su_conns st)"
    by (auto simp: s counted_def pc)
  then show "of_nat (length (su_conns st)) = su_started st"
    using assms(1) d by (simp add: startup_inv_def distinct_card)
  have "distinct (su_conns st @ filter (\<lambda>i. i \<notin> set (su_conns st)) [0..<length specs])"
    using d by auto
  moreover have "set (su_conns st @ filter (\<lambda>i. i \<notin> set (su_conns st)) [0..<length specs]) = {0..<length specs}"
    by (auto simp: s)
  ultimately have "mset (su_order specs st) = mset (map ((!) specs) [0..<length specs])"
    unfolding su_order_def by (rule mset_indices)
  then show "mset (su_order specs st) = mset specs" by (simp add: map_nth)
  have "filter (started E \<circ> (!) specs) (su_conns st) = su_conns st" using s by (simp add: filter_id_conv)
  moreover have "filter (started E \<circ> (!) specs) (filter (\<lambda>i. i \<notin> set (su_conns st)) [0..<length specs]) = []"
    unfolding s by (auto simp: filter_empty_conv)
  ultimately show "filter (started E) (su_order specs st) = map ((!) specs) (su_conns st)"
    unfolding su_order_def map_append filter_append filter_map by simp
  have "log_of i (su_log st) = go_events E (specs ! i)" if "i < length specs" for i
    using assms(1) that by (simp add: startup_inv_def local_ok_def pc)
  then have "map (\<lambda>i. log_of i (su_log st)) [0..<length specs] = map (\<lambda>i. go_events E (specs ! i)) [0..<length specs]"
    by simp
  also have "\<dots> = map (go_events E) specs" by (intro nth_equalityI) simp_all
  finally show "mset (map snd (su_log st)) = mset (concat (map (go_events E) specs))"
    using mset_log [of "su_log st" "length specs"] assms(1) by (simp add: startup_inv_def)
qed

lemma finished_registry:
  assumes "startup_inv E specs st" and "all_finished st"
  shows "list_all2 (rtranclp ping_step) (conns (snd (start_connections E (su_order specs st) NewHealthRegistry)))
    (conns (su_registry st))"
proof -
  have "rtranclp ping_step (seeded E (specs ! i) (projr (the (start_spec E (specs ! i))))) (the (su_tun st ! i))"
    if "i \<in> set (su_conns st)" for i
  proof -
    have i: "i < length specs" "started E (specs ! i)" using that finished_facts(1) [OF assms] by auto
    then have "su_pc st ! i = Finished"
      using assms by (simp add: all_finished_def startup_inv_def list_all_length)
    then have "local_ok E (specs ! i) Finished (su_tun st ! i) (log_of i (su_log st))"
      using assms(1) i(1) by (auto simp: startup_inv_def)
    then show ?thesis using i(2) by (auto simp: local_ok_def started_def split: option.splits sum.splits)
  qed
  then show ?thesis
    by (simp add: start_connections_conns finished_facts(4) [OF assms] su_registry_def list.rel_map
                  list_all2_same)
qed

lemma started_zero_iff:
  assumes "startup_inv E specs st" and "all_finished st" and "length specs < 2 ^ 32"
  shows "su_started st = 0 \<longleftrightarrow> su_conns st = []"
proof -
  have sub: "set (su_conns st) \<subseteq> {0..<length specs}"
    unfolding finished_facts(1) [OF assms(1,2)] by auto
  have "length (su_conns st) = card (set (su_conns st))"
    using assms(1) unfolding startup_inv_def by (metis distinct_card)
  also have "\<dots> \<le> card {0..<length specs}" by (rule card_mono [OF _ sub]) simp
  finally have "length (su_conns st) < 2 ^ 32" using assms(3) by simp
  then show ?thesis
    unfolding finished_facts(2) [OF assms(1,2), symmetric]
    by (auto simp: word_of_nat_eq_0_iff dest: nat_dvd_not_less)
qed

lemma finished_returned:
  assumes "startup_inv E specs st" and "all_finished st" and "s \<in> set specs"
  shows "start_spec E s \<noteq> None"
proof -
  obtain i where i: "i < length specs" "s = specs ! i" using assms(3) by (auto simp: in_set_conv_nth)
  then have "su_pc st ! i = Finished"
    using assms(1,2) by (simp add: all_finished_def startup_inv_def list_all_length)
  then have "local_ok E (specs ! i) Finished (su_tun st ! i) (log_of i (su_log st))"
    using assms(1) i(1) by (auto simp: startup_inv_def)
  then show ?thesis by (simp add: local_ok_def i(2))
qed

subsection \<open>Termination\<close>

definition startup_weight :: "ConnectionSpec list \<Rightarrow> startup \<Rightarrow> nat" where
  "startup_weight specs st =
     (\<Sum>i < length specs. go_weight (specs ! i) (su_pc st ! i)) +
     (case su_main st of AtWait \<Rightarrow> 2 | AtSignal \<Rightarrow> 1 | _ \<Rightarrow> 0) + (if su_cancelled st then 0 else 1)"

lemma sum_update_less:
  fixes w :: "'a \<Rightarrow> 'b \<Rightarrow> nat"
  assumes "i < length pcs" and "w (xs ! i) pc < w (xs ! i) (pcs ! i)"
  shows "(\<Sum>j < length pcs. w (xs ! j) (pcs[i := pc] ! j)) < (\<Sum>j < length pcs. w (xs ! j) (pcs ! j))"
  using assms by (intro sum_strict_mono_ex1) (auto simp: nth_list_update)

lemma startup_weight_go:
  assumes "startup_inv E specs st" and "i < length specs" and "go_step E specs i st = Some st'"
  shows "startup_weight specs st' < startup_weight specs st"
proof -
  have "length (su_pc st) = length specs" using assms(1) by (simp add: startup_inv_def)
  with assms(2,3) sum_update_less [of i "su_pc st" go_weight specs] show ?thesis
    by (auto simp: go_step_def startup_weight_def dest!: go_local_weight)
qed

lemma startup_weight_start:
  "startup_inv E specs st \<Longrightarrow> start_step E specs st st' \<Longrightarrow> startup_weight specs st' < startup_weight specs st"
proof (elim start_stepE)
  assume "main_step st = Some st'"
  then show ?thesis
    by (auto simp: main_step_def startup_weight_def split: main_pc.splits if_splits)
next
  assume "signal_step st = Some st'"
  then show ?thesis by (auto simp: signal_step_def startup_weight_def split: if_splits)
qed (rule startup_weight_go)

lemma startup_weight_step:
  "startup_inv E specs st \<Longrightarrow> startup_step E specs st st' \<Longrightarrow> startup_weight specs st' \<le> startup_weight specs st"
  by (elim startup_stepE) (auto simp: startup_weight_def dest!: startup_weight_start)

text \<open>A sequence of weights that never grows falls only finitely often.\<close>

lemma finitely_many_falls:
  fixes w :: "nat \<Rightarrow> nat"
  assumes "\<And>k. w (Suc k) \<le> w k" and "\<And>k. k \<in> K \<Longrightarrow> w (Suc k) < w k"
  shows "finite K \<and> card K \<le> w 0"
proof -
  have bound: "card (K \<inter> {..<n}) + w n \<le> w 0" for n
  proof (induction n)
    case (Suc n)
    have "K \<inter> {..<Suc n} = (if n \<in> K then insert n (K \<inter> {..<n}) else K \<inter> {..<n})"
      by (auto simp: less_Suc_eq)
    then have "card (K \<inter> {..<Suc n}) = card (K \<inter> {..<n}) + (if n \<in> K then 1 else 0)" by simp
    then show ?case using Suc assms(1) [of n] assms(2) [of n] by (cases "n \<in> K") simp_all
  qed simp
  have fin: "finite K"
  proof (rule ccontr)
    assume "infinite K"
    then obtain F where F: "F \<subseteq> K" "finite F" "card F = Suc (w 0)" by (meson infinite_arbitrarily_large)
    define n where "n = Suc (Max (insert 0 F))"
    have "F \<subseteq> K \<inter> {..<n}" using F by (auto simp: n_def less_Suc_eq_le intro: Max_ge)
    then have "card F \<le> card (K \<inter> {..<n})" by (intro card_mono) auto
    then show False using F(3) bound [of n] by simp
  qed
  define n where "n = Suc (Max (insert 0 K))"
  have "K \<inter> {..<n} = K" using fin by (auto simp: n_def less_Suc_eq_le)
  then show ?thesis using fin bound [of n] by simp
qed

lemma startup_decides_aux:
  assumes "startup_inv E specs st" and "su_main st = AtWait" and "\<forall>s \<in> set specs. start_spec E s \<noteq> None"
  shows "\<exists>st'. rtranclp (start_step E specs) st st' \<and> su_main st' \<noteq> AtWait"
  using assms
proof (induction "startup_weight specs st" arbitrary: st rule: less_induct)
  case less
  show ?case
  proof (cases "all_finished st")
    case True
    then have "main_step st = Some (st\<lparr>su_main := (if su_started st = 0 then ExitFatal else AtSignal)\<rparr>)"
      using less.prems(2) by (simp add: main_step_def all_finished_def)
    then have "rtranclp (start_step E specs) st (st\<lparr>su_main := (if su_started st = 0 then ExitFatal else AtSignal)\<rparr>)"
      by (intro r_into_rtranclp start_step.main_goroutine)
    then show ?thesis by (intro exI conjI) (assumption, simp)
  next
    case False
    then obtain i where i: "i < length specs" "su_pc st ! i \<noteq> Finished"
      using less.prems(1) by (auto simp: all_finished_def startup_inv_def list_all_length)
    then obtain st' where g: "go_step E specs i st = Some st'"
      using less.prems(1,3) go_local_progress [of E "specs ! i" "su_pc st ! i" "su_tun st ! i"]
      by (fastforce simp: startup_inv_def go_step_def)
    have s: "start_step E specs st st'"
      using g i(1) less.prems(2) by (auto simp: running_def intro: start_step.goroutine)
    have "su_main st' = AtWait" using g less.prems(2) by (auto simp: go_step_def)
    then obtain st'' where "rtranclp (start_step E specs) st' st''" "su_main st'' \<noteq> AtWait"
      using less.hyps [OF startup_weight_go [OF less.prems(1) i(1) g] startup_inv_go [OF less.prems(1) i(1) g]]
        less.prems(3) by blast
    then show ?thesis using s by (meson converse_rtranclp_into_rtranclp)
  qed
qed

text \<open>A schedule names the goroutine of every step, \<open>None\<close> for the main goroutine.\<close>

fun run_schedule :: "main_env \<Rightarrow> ConnectionSpec list \<Rightarrow> nat option list \<Rightarrow> startup \<Rightarrow> startup option" where
  "run_schedule E specs [] st = Some st"
| "run_schedule E specs (x # xs) st =
     (case (case x of
              None \<Rightarrow> main_step st
            | Some i \<Rightarrow> if running st \<and> i < length specs then go_step E specs i st else None) of
        None \<Rightarrow> None
      | Some st' \<Rightarrow> run_schedule E specs xs st')"

lemma run_schedule_steps:
  "run_schedule E specs xs st = Some st' \<Longrightarrow> rtranclp (startup_step E specs) st st'"
proof (induction E specs xs st rule: run_schedule.induct)
  case (2 E specs x xs st)
  then obtain st1 where s: "(case x of None \<Rightarrow> main_step st
      | Some i \<Rightarrow> if running st \<and> i < length specs then go_step E specs i st else None) = Some st1"
    and r: "run_schedule E specs xs st1 = Some st'"
    by (auto split: option.splits)
  have "startup_step E specs st st1"
    using s by (auto intro!: startup_step.start intro: start_step.intros split: option.splits if_splits)
  then show ?case using 2(1) [OF s r] by (rule converse_rtranclp_into_rtranclp)
qed simp

section \<open>Properties\<close>

text \<open>C8: every interleaving of the starting goroutines has the outcome of a sequential start. When
  \<^verbatim>\<open>main\<close> gets past \<^verbatim>\<open>wg.Wait\<close>, in whatever order the goroutines, their probes and a signal took their
  steps, there is an order of finishing for which \<open>main_start\<close> causes the same events, gives up
  exactly when the process did, and otherwise serves a registry whose tunnels, in the same order,
  differ from those served at most by what probes have stored since.\<close>

theorem startup_refines:
  assumes "rtranclp (startup_step E specs) (startup_init specs) st" and "su_main st \<noteq> AtWait"
    and "length specs < 2 ^ 32"
  shows "\<exists>order es out. main_start (E\<lparr>me_order := order\<rparr>) specs = (es, out) \<and>
    mset (map snd (su_log st)) = mset es \<and>
    (if su_main st = ExitFatal then out = FatalExit (New ''no connections could be started'')
     else \<exists>reg. out = Serving reg \<and> list_all2 (rtranclp ping_step) (conns reg) (conns (su_registry st)))"
proof -
  have inv: "startup_inv E specs st" using assms(1) startups.inv_reachable by blast
  then have fin: "all_finished st" using assms(2) by (rule past_wait)
  obtain order where order: "Shuffle order specs = su_order specs st"
    using finished_facts(3) [OF inv fin] Shuffle_surj by metis
  define run where "run = start_connections (E\<lparr>me_order := order\<rparr>) (su_order specs st) NewHealthRegistry"
  have reg: "list_all2 (rtranclp ping_step) (conns (snd run)) (conns (su_registry st))"
    using finished_registry [OF inv fin] by (simp add: run_def start_connections_conns)
  then have "HealthRegistry_Count (snd run) = length (su_conns st)"
    by (auto simp: HealthRegistry_Count_def su_registry_def dest: list_all2_lengthD)
  then have zero: "HealthRegistry_Count (snd run) = 0 \<longleftrightarrow> su_main st = ExitFatal"
    using started_zero_iff [OF inv fin assms(3)] inv assms(2)
    by (cases "su_main st") (auto simp: startup_inv_def)
  have "\<not> list_ex (\<lambda>s. start_spec E s = None) specs"
    using finished_returned [OF inv fin] by (auto simp: list_ex_iff)
  then have m: "main_start (E\<lparr>me_order := order\<rparr>) specs =
      (fst run, if su_main st = ExitFatal then FatalExit (New ''no connections could be started'') else Serving (snd run))"
    by (simp add: main_start_def order run_def [symmetric] case_prod_beta zero)
  have "mset (concat (map (go_events E) (su_order specs st))) = mset (concat (map (go_events E) specs))"
    using finished_facts(3) [OF inv fin] by (metis mset_concat mset_map sum_mset_sum_list)
  then have "mset (map snd (su_log st)) = mset (fst run)"
    using finished_facts(5) [OF inv fin] by (simp add: run_def start_connections_events)
  then show ?thesis using reg by (intro exI [of _ order] exI conjI) (rule m, simp_all)
qed

definition demo_pair :: "ConnectionSpec list" where
  "demo_pair = [demo_wg_spec, demo_tls_spec]"

definition demo_schedule :: "nat option list" where
  "demo_schedule = [Some 0, Some 1, Some 0, Some 1, Some 0, Some 0, Some 0, None]"

lemma demo_start_run:
  "case run_schedule demo_main demo_pair demo_schedule (startup_init demo_pair) of
     Some st \<Rightarrow> su_main st = AtSignal \<and> su_conns st = [0] \<and> length (su_log st) = 2
   | None \<Rightarrow> False"
  by code_simp

lemma demo_reachable:
  obtains st where "rtranclp (startup_step demo_main demo_pair) (startup_init demo_pair) st"
    and "su_main st = AtSignal" and "su_conns st = [0]"
  using demo_start_run by (auto split: option.splits dest: run_schedule_steps)

theorem startup_refines_witness:
  "\<exists>order es reg. main_start (demo_main\<lparr>me_order := order\<rparr>) demo_pair = (es, Serving reg) \<and> length (conns reg) = 1"
proof -
  obtain st where st: "rtranclp (startup_step demo_main demo_pair) (startup_init demo_pair) st"
    "su_main st = AtSignal" "su_conns st = [0]"
    by (rule demo_reachable)
  moreover have "length demo_pair < 2 ^ 32" by (simp add: demo_pair_def)
  ultimately obtain order es reg where "main_start (demo_main\<lparr>me_order := order\<rparr>) demo_pair = (es, Serving reg)"
    and "list_all2 (rtranclp ping_step) (conns reg) (conns (su_registry st))"
    using startup_refines [of demo_main demo_pair st] by auto
  then show ?thesis using st(3) by (fastforce simp: su_registry_def dest: list_all2_lengthD)
qed



text \<open>C9: \<^verbatim>\<open>main\<close> gets past \<^verbatim>\<open>wg.Wait\<close> exactly when every start returns. From any reachable state it can
  go on to serve or give up if they all do; if one does not, it waits for ever, and neither the
  other connections nor a signal end the wait.\<close>

theorem startup_decides:
  assumes "rtranclp (startup_step E specs) (startup_init specs) st"
  shows "(\<forall>s \<in> set specs. start_spec E s \<noteq> None) \<longleftrightarrow>
    (\<exists>st'. rtranclp (start_step E specs) st st' \<and> su_main st' \<noteq> AtWait)"
proof
  have inv: "startup_inv E specs st" using assms startups.inv_reachable by blast
  show "\<exists>st'. rtranclp (start_step E specs) st st' \<and> su_main st' \<noteq> AtWait"
    if "\<forall>s \<in> set specs. start_spec E s \<noteq> None"
    using startup_decides_aux [OF inv _ that] by (cases "su_main st = AtWait") auto
  show "\<forall>s \<in> set specs. start_spec E s \<noteq> None"
    if "\<exists>st'. rtranclp (start_step E specs) st st' \<and> su_main st' \<noteq> AtWait"
  proof -
    from that obtain st' where st': "rtranclp (start_step E specs) st st'" "su_main st' \<noteq> AtWait" by blast
    from st'(1) have "rtranclp (startup_step E specs) st st'"
      by (rule rtranclp_mono [THEN predicate2D, rotated]) (auto intro: startup_step.start)
    then have "startup_inv E specs st'" using inv startups.inv_steps by blast
    then show ?thesis using finished_returned past_wait st'(2) by blast
  qed
qed

theorem startup_decides_witness:
  "\<exists>st. rtranclp (startup_step demo_main demo_pair) (startup_init demo_pair) st \<and>
     (\<forall>s \<in> set demo_pair. start_spec demo_main s \<noteq> None)"
proof -
  obtain st where st: "rtranclp (startup_step demo_main demo_pair) (startup_init demo_pair) st" "su_main st = AtSignal"
    by (rule demo_reachable)
  then show ?thesis using startup_decides [OF st(1)] by (metis main_pc.distinct(1) rtranclp.rtrancl_refl)
qed

end
