(* ===== verification/Relay.thy ===== *)
theory Relay
  imports Http_Proxy "HOL-Library.Sublist"
begin

text \<open>
  The two goroutines that plumb a pair of connections (\<^verbatim>\<open>connForward\<close>, \<^verbatim>\<open>routine.go\<close> lines 278--288,
  and the end of \<^verbatim>\<open>HTTPServer.serve\<close>, \<^verbatim>\<open>http.go\<close> lines 138--150) as they run side by side. Each
  copies from one connection to the other and then closes what its deferred calls name, which ends
  the copy of the other one. One step is one \<^verbatim>\<open>Read\<close>, \<^verbatim>\<open>Write\<close> or \<^verbatim>\<open>Close\<close>; the results of reads and
  writes, and what arrives from the far ends, are free.
\<close>

section \<open>State\<close>

datatype side = Client | Remote

fun other :: "side \<Rightarrow> side" where
  "other Client = Remote"
| "other Remote = Client"

text \<open>Where the goroutine that copies from one side stands: in \<^verbatim>\<open>Read\<close>, in \<^verbatim>\<open>Write\<close> with a chunk, or in
  its deferred calls with what is left to close.\<close>

datatype copy_pc = Reading | Writing string | Closing "side list" | CopyDone

text \<open>Per side: what its far end has sent so far and whether it has finished, how much of that was
  read, what was written to it, whether it was closed, the goroutine that copies from it, and
  whether that copy ended in an error.\<close>

record relay =
  rl_sent :: "side \<Rightarrow> string"
  rl_ended :: "side \<Rightarrow> bool"
  rl_read :: "side \<Rightarrow> nat"
  rl_out :: "side \<Rightarrow> string"
  rl_closed :: "side \<Rightarrow> bool"
  rl_pc :: "side \<Rightarrow> copy_pc"
  rl_failed :: "side \<Rightarrow> bool"

definition relay_init :: relay where
  "relay_init =
     \<lparr>rl_sent = (\<lambda>_. []), rl_ended = (\<lambda>_. False), rl_read = (\<lambda>_. 0), rl_out = (\<lambda>_. []),
      rl_closed = (\<lambda>_. False), rl_pc = (\<lambda>_. Reading), rl_failed = (\<lambda>_. False)\<rparr>"

section \<open>Steps\<close>

text \<open>What the deferred calls close, in order. \<^verbatim>\<open>connForward\<close> closes its destination first; both
  goroutines of the HTTP proxy close the destination server first; the standard streams are never
  closed.\<close>

definition forward_order :: "side \<Rightarrow> side list" where
  "forward_order from = [other from, from]"

definition http_order :: "side \<Rightarrow> side list" where
  "http_order from = [Remote, Client]"

definition stdio_order :: "side \<Rightarrow> side list" where
  "stdio_order from = [Remote]"

datatype io_result = Got_Bytes nat | Got_EOF | Read_Error | Written | Write_Error nat | Deferred

text \<open>The next step of the goroutine that copies from \<open>x\<close>, given the result of its call. A read or a
  write on a closed connection fails; a failing write may have written a part.\<close>

fun copy_step :: "(side \<Rightarrow> side list) \<Rightarrow> side \<Rightarrow> io_result \<Rightarrow> relay \<Rightarrow> relay option" where
  "copy_step ord x (Got_Bytes n) s =
     (if rl_pc s x = Reading \<and> \<not> rl_closed s x \<and> 0 < n \<and> rl_read s x + n \<le> length (rl_sent s x) then
        Some (s\<lparr>rl_pc := (rl_pc s)(x := Writing (take n (drop (rl_read s x) (rl_sent s x)))),
                rl_read := (rl_read s)(x := rl_read s x + n)\<rparr>)
      else None)"
| "copy_step ord x Got_EOF s =
     (if rl_pc s x = Reading \<and> \<not> rl_closed s x \<and> rl_ended s x \<and> rl_read s x = length (rl_sent s x) then
        Some (s\<lparr>rl_pc := (rl_pc s)(x := Closing (ord x))\<rparr>)
      else None)"
| "copy_step ord x Read_Error s =
     (if rl_pc s x = Reading then
        Some (s\<lparr>rl_pc := (rl_pc s)(x := Closing (ord x)), rl_failed := (rl_failed s)(x := True)\<rparr>)
      else None)"
| "copy_step ord x Written s =
     (case rl_pc s x of
        Writing d \<Rightarrow>
          if rl_closed s (other x) then None
          else Some (s\<lparr>rl_pc := (rl_pc s)(x := Reading),
                       rl_out := (rl_out s)(other x := rl_out s (other x) @ d)\<rparr>)
      | _ \<Rightarrow> None)"
| "copy_step ord x (Write_Error k) s =
     (case rl_pc s x of
        Writing d \<Rightarrow>
          if rl_closed s (other x) \<and> k \<noteq> 0 then None
          else Some (s\<lparr>rl_pc := (rl_pc s)(x := Closing (ord x)), rl_failed := (rl_failed s)(x := True),
                       rl_out := (rl_out s)(other x := rl_out s (other x) @ take k d)\<rparr>)
      | _ \<Rightarrow> None)"
| "copy_step ord x Deferred s =
     (case rl_pc s x of
        Closing [] \<Rightarrow> Some (s\<lparr>rl_pc := (rl_pc s)(x := CopyDone)\<rparr>)
      | Closing (y # ys) \<Rightarrow>
          Some (s\<lparr>rl_pc := (rl_pc s)(x := Closing ys), rl_closed := (rl_closed s)(y := True)\<rparr>)
      | _ \<Rightarrow> None)"

inductive relay_step :: "(side \<Rightarrow> side list) \<Rightarrow> relay \<Rightarrow> relay \<Rightarrow> bool" for ord where
  copy: "copy_step ord x r s = Some s' \<Longrightarrow> relay_step ord s s'"
| arrive: "\<not> rl_ended s x \<Longrightarrow> relay_step ord s (s\<lparr>rl_sent := (rl_sent s)(x := rl_sent s x @ d)\<rparr>)"
| finish: "relay_step ord s (s\<lparr>rl_ended := (rl_ended s)(x := True)\<rparr>)"

inductive_cases relay_stepE [elim]: "relay_step ord s s'"

text \<open>Whether the goroutine that copies from \<open>x\<close> has left \<^verbatim>\<open>io.Copy\<close>.\<close>

definition copied :: "relay \<Rightarrow> side \<Rightarrow> bool" where
  "copied s x = (case rl_pc s x of Closing _ \<Rightarrow> True | CopyDone \<Rightarrow> True | _ \<Rightarrow> False)"

text \<open>These are the closes of the events of \<^verbatim>\<open>connForward\<close> and of the HTTP proxy's goroutines, when the
  client is connection \<open>c\<close> and the destination connection \<open>p\<close>.\<close>

definition side_conn :: "conn \<Rightarrow> conn \<Rightarrow> side \<Rightarrow> conn" where
  "side_conn c p x = (case x of Client \<Rightarrow> c | Remote \<Rightarrow> p)"

fun closed_conn :: "net_event \<Rightarrow> conn option" where
  "closed_conn (CloseConn c) = Some c"
| "closed_conn _ = None"

lemma deferred_closes:
  "List.map_filter closed_conn (connForward (Net (side_conn c p x)) (Net (side_conn c p (other x))) rest err) =
     map (side_conn c p) (forward_order x)"
  "List.map_filter closed_conn (http_copy c p dst rest) = map (side_conn c p) (http_order x)"
  "List.map_filter closed_conn (connForward Stdin (Net p) rest err) = map (side_conn c p) (stdio_order Client)"
  "List.map_filter closed_conn (connForward (Net p) Stdout rest err) = map (side_conn c p) (stdio_order Remote)"
  by (auto simp: connForward_def http_copy_def forward_order_def http_order_def stdio_order_def side_conn_def
                 map_filter_simps split: option.split)

section \<open>The invariant\<close>

definition copy_ok :: "relay \<Rightarrow> side \<Rightarrow> bool" where
  "copy_ok s x =
     (rl_read s x \<le> length (rl_sent s x) \<and>
      (case rl_pc s x of
         Reading \<Rightarrow> rl_out s (other x) = take (rl_read s x) (rl_sent s x)
       | Writing d \<Rightarrow> rl_out s (other x) @ d = take (rl_read s x) (rl_sent s x)
       | _ \<Rightarrow>
           prefix (rl_out s (other x)) (rl_sent s x) \<and>
           (rl_failed s x \<or> rl_ended s x \<and> rl_out s (other x) = rl_sent s x)))"

definition close_ok :: "(side \<Rightarrow> side list) \<Rightarrow> relay \<Rightarrow> side \<Rightarrow> bool" where
  "close_ok ord s x =
     (case rl_pc s x of
        Closing ys \<Rightarrow> \<exists>zs. ord x = zs @ ys \<and> (\<forall>z \<in> set zs. rl_closed s z)
      | CopyDone \<Rightarrow> \<forall>z \<in> set (ord x). rl_closed s z
      | _ \<Rightarrow> True)"

definition relay_inv :: "(side \<Rightarrow> side list) \<Rightarrow> relay \<Rightarrow> bool" where
  "relay_inv ord s =
     ((\<forall>x. copy_ok s x \<and> close_ok ord s x) \<and> (\<forall>y. rl_closed s y \<longrightarrow> (\<exists>x. copied s x)))"

section \<open>Lemmas\<close>

lemma other_simps [simp]: "other (other x) = x" "other x \<noteq> x" "x \<noteq> other x" "other x = other y \<longleftrightarrow> x = y"
  by (cases x; cases y; simp)+

lemma side_ne: "y \<noteq> x \<longleftrightarrow> y = other x"
  by (cases x; cases y) auto

lemma copy_step_ok:
  assumes "copy_step ord x r s = Some s'" and "copy_ok s y"
  shows "copy_ok s' y"
proof (cases "y = x")
  case True
  show ?thesis
  proof (cases r)
    case (Got_Bytes n)
    then show ?thesis using assms True by (auto simp: copy_ok_def take_add split: if_splits)
  next
    case (Write_Error k)
    have "prefix (a @ take k d) sent" if "a @ d = take n sent" for a d sent :: string and n
    proof -
      have "prefix (a @ take k d) (a @ d)" by (simp add: take_is_prefix)
      then show ?thesis using that by (metis prefix_order.trans take_is_prefix)
    qed
    then show ?thesis
      using assms True Write_Error by (auto simp: copy_ok_def split: copy_pc.splits if_splits)
  qed (use assms True in \<open>auto simp: copy_ok_def take_is_prefix split: copy_pc.splits list.splits if_splits\<close>)
next
  case False
  then have "y = other x" by (simp add: side_ne)
  then show ?thesis
    using assms
    by (cases r) (auto simp: copy_ok_def split: copy_pc.splits list.splits if_splits)
qed

lemma copy_step_close_ok:
  assumes "copy_step ord x r s = Some s'" and "close_ok ord s y"
  shows "close_ok ord s' y"
proof (cases r)
  case Deferred
  show ?thesis
  proof (cases "y = x")
    case True
    show ?thesis
    proof (cases "rl_pc s x")
      case (Closing ys)
      then obtain zs where "ord x = zs @ ys" "\<forall>z \<in> set zs. rl_closed s z"
        using assms(2) True by (auto simp: close_ok_def)
      then show ?thesis
        using assms(1) Deferred True Closing
        by (cases ys) (auto simp: close_ok_def intro!: exI [of _ "zs @ [hd ys]"])
    qed (use assms Deferred in auto)
  next
    case False
    then show ?thesis
      using assms Deferred by (auto simp: close_ok_def split: copy_pc.splits list.splits)
  qed
qed (use assms in \<open>auto simp: close_ok_def split: copy_pc.splits if_splits\<close>)

lemma copy_step_copied: "copy_step ord x r s = Some s' \<Longrightarrow> copied s y \<Longrightarrow> copied s' y"
  by (cases r) (auto simp: copied_def split: copy_pc.splits list.splits if_splits)

lemma copy_step_closed:
  "copy_step ord x r s = Some s' \<Longrightarrow> rl_closed s' y \<Longrightarrow> rl_closed s y \<or> copied s' x"
  by (cases r) (auto simp: copied_def split: copy_pc.splits list.splits if_splits)

lemma arrive_ok:
  assumes "copy_ok s y" and "\<not> rl_ended s x"
  shows "copy_ok (s\<lparr>rl_sent := (rl_sent s)(x := rl_sent s x @ d)\<rparr>) y"
  using assms by (cases "y = x"; cases "rl_pc s y") (auto simp: copy_ok_def)

lemma finish_ok: "copy_ok s y \<Longrightarrow> copy_ok (s\<lparr>rl_ended := (rl_ended s)(x := True)\<rparr>) y"
  by (cases "rl_pc s y") (auto simp: copy_ok_def)

lemma arrive_frame [simp]:
  "close_ok ord (s\<lparr>rl_sent := f\<rparr>) y = close_ok ord s y" "copied (s\<lparr>rl_sent := f\<rparr>) y = copied s y"
  "close_ok ord (s\<lparr>rl_ended := g\<rparr>) y = close_ok ord s y" "copied (s\<lparr>rl_ended := g\<rparr>) y = copied s y"
  by (simp_all add: close_ok_def copied_def split: copy_pc.split)

lemma relay_inv_step: "relay_inv ord s \<Longrightarrow> relay_step ord s s' \<Longrightarrow> relay_inv ord s'"
proof (elim relay_stepE)
  fix x r
  assume inv: "relay_inv ord s" and c: "copy_step ord x r s = Some s'"
  then show "relay_inv ord s'"
    using copy_step_ok [OF c] copy_step_close_ok [OF c] copy_step_copied [OF c] copy_step_closed [OF c]
    unfolding relay_inv_def by blast
next
  fix x d
  assume "relay_inv ord s" "s' = s\<lparr>rl_sent := (rl_sent s)(x := rl_sent s x @ d)\<rparr>" "\<not> rl_ended s x"
  then show "relay_inv ord s'" by (simp add: relay_inv_def arrive_ok)
next
  fix x
  assume "relay_inv ord s" "s' = s\<lparr>rl_ended := (rl_ended s)(x := True)\<rparr>"
  then show "relay_inv ord s'" by (simp add: relay_inv_def finish_ok)
qed

lemma relay_inv_init: "relay_inv ord relay_init"
  by (simp add: relay_inv_def relay_init_def copy_ok_def close_ok_def)

interpretation relays: invariant_system "\<lambda>s. s = relay_init" "relay_step ord" "relay_inv ord" for ord
  by unfold_locales (auto intro: relay_inv_init relay_inv_step)

subsection \<open>Winding up\<close>

text \<open>Steps of the two goroutines alone.\<close>

definition copy_run :: "(side \<Rightarrow> side list) \<Rightarrow> relay \<Rightarrow> relay \<Rightarrow> bool" where
  "copy_run ord = rtranclp (\<lambda>s s'. \<exists>x r. copy_step ord x r s = Some s')"

lemma copy_run_refl [simp]: "copy_run ord s s"
  by (simp add: copy_run_def)

lemma copy_run_trans: "copy_run ord s t \<Longrightarrow> copy_run ord t u \<Longrightarrow> copy_run ord s u"
  by (simp add: copy_run_def)

lemma copy_run_step: "copy_step ord x r s = Some t \<Longrightarrow> copy_run ord t u \<Longrightarrow> copy_run ord s u"
  using converse_rtranclp_into_rtranclp [of "\<lambda>s s'. \<exists>x r. copy_step ord x r s = Some s'"]
  unfolding copy_run_def by blast

lemma copy_run_relay: "copy_run ord s t \<Longrightarrow> rtranclp (relay_step ord) s t"
  unfolding copy_run_def by (erule rtranclp_mono [THEN predicate2D, rotated]) (auto intro: relay_step.copy)

lemma closing_finishes:
  "rl_pc s x = Closing ys \<Longrightarrow>
   \<exists>t. copy_run ord s t \<and> rl_pc t x = CopyDone \<and> rl_pc t (other x) = rl_pc s (other x) \<and>
       (\<forall>z. rl_closed t z \<longleftrightarrow> rl_closed s z \<or> z \<in> set ys)"
proof (induction ys arbitrary: s)
  case Nil
  have "copy_step ord x Deferred s = Some (s\<lparr>rl_pc := (rl_pc s)(x := CopyDone)\<rparr>)" using Nil by simp
  from copy_run_step [OF this copy_run_refl] show ?case by (intro exI conjI) (assumption, simp_all)
next
  case (Cons y ys)
  let ?s = "s\<lparr>rl_pc := (rl_pc s)(x := Closing ys), rl_closed := (rl_closed s)(y := True)\<rparr>"
  have c: "copy_step ord x Deferred s = Some ?s" using Cons.prems by simp
  obtain t where t: "copy_run ord ?s t" "rl_pc t x = CopyDone" "rl_pc t (other x) = rl_pc ?s (other x)"
    "\<forall>z. rl_closed t z \<longleftrightarrow> rl_closed ?s z \<or> z \<in> set ys"
    using Cons.IH [of ?s] by auto
  then show ?case using copy_run_step [OF c t(1)] by (intro exI [of _ t]) auto
qed

lemma copied_finishes:
  assumes "close_ok ord s x" and "copied s x"
  shows "\<exists>t. copy_run ord s t \<and> rl_pc t x = CopyDone \<and> rl_pc t (other x) = rl_pc s (other x) \<and>
    (\<forall>z. rl_closed t z \<longleftrightarrow> rl_closed s z \<or> z \<in> set (ord x))"
proof (cases "rl_pc s x")
  case (Closing ys)
  then obtain zs where z: "ord x = zs @ ys" "\<forall>z \<in> set zs. rl_closed s z"
    using assms(1) by (auto simp: close_ok_def)
  obtain t where "copy_run ord s t" "rl_pc t x = CopyDone" "rl_pc t (other x) = rl_pc s (other x)"
    "\<forall>z. rl_closed t z \<longleftrightarrow> rl_closed s z \<or> z \<in> set ys"
    using closing_finishes [OF Closing] by blast
  then show ?thesis using z by (intro exI [of _ t]) auto
next
  case CopyDone
  then show ?thesis using assms(1) by (intro exI [of _ s]) (auto simp: close_ok_def)
qed (use assms(2) in \<open>simp_all add: copied_def\<close>)

text \<open>A goroutine whose connections were closed leaves its copy.\<close>

lemma closed_leaves:
  assumes "rl_closed s x" and "rl_closed s (other x)"
  shows "\<exists>t. copy_run ord s t \<and> copied t x \<and> rl_pc t (other x) = rl_pc s (other x) \<and> rl_closed t = rl_closed s"
proof (cases "rl_pc s x")
  case Reading
  let ?t = "s\<lparr>rl_pc := (rl_pc s)(x := Closing (ord x)), rl_failed := (rl_failed s)(x := True)\<rparr>"
  have c: "copy_step ord x Read_Error s = Some ?t" using Reading by simp
  show ?thesis
    using copy_run_step [OF c copy_run_refl] by (intro exI [of _ ?t]) (simp add: copied_def)
next
  case (Writing d)
  let ?t = "s\<lparr>rl_pc := (rl_pc s)(x := Closing (ord x)), rl_failed := (rl_failed s)(x := True),
      rl_out := (rl_out s)(other x := rl_out s (other x) @ take 0 d)\<rparr>"
  have c: "copy_step ord x (Write_Error 0) s = Some ?t" using Writing by simp
  show ?thesis
    using copy_run_step [OF c copy_run_refl] by (intro exI [of _ ?t]) (simp add: copied_def)
qed (auto simp: copied_def intro!: exI [of _ s])

text \<open>Runs given by what happens in them.\<close>

datatype relay_event = Arrives side string | Finishes side | Copies side io_result

fun relay_run :: "(side \<Rightarrow> side list) \<Rightarrow> relay_event list \<Rightarrow> relay \<Rightarrow> relay option" where
  "relay_run ord [] s = Some s"
| "relay_run ord (Arrives x d # es) s =
     (if rl_ended s x then None
      else relay_run ord es (s\<lparr>rl_sent := (rl_sent s)(x := rl_sent s x @ d)\<rparr>))"
| "relay_run ord (Finishes x # es) s = relay_run ord es (s\<lparr>rl_ended := (rl_ended s)(x := True)\<rparr>)"
| "relay_run ord (Copies x r # es) s =
     (case copy_step ord x r s of None \<Rightarrow> None | Some s' \<Rightarrow> relay_run ord es s')"

lemma relay_run_steps: "relay_run ord es s = Some t \<Longrightarrow> rtranclp (relay_step ord) s t"
  by (induction ord es s rule: relay_run.induct)
     (auto intro: converse_rtranclp_into_rtranclp relay_step.intros split: if_splits option.splits)

text \<open>The client sends a request and ends its side; the answer comes while the deferred calls run.\<close>

definition half_close :: "(side \<Rightarrow> side list) \<Rightarrow> string \<Rightarrow> string \<Rightarrow> relay_event list" where
  "half_close ord request answer =
     [Arrives Client request, Copies Client (Got_Bytes (length request)), Copies Client Written,
      Finishes Client, Copies Client Got_EOF, Arrives Remote answer] @
     replicate (Suc (length (ord Client))) (Copies Client Deferred) @
     Copies Remote Read_Error # replicate (Suc (length (ord Remote))) (Copies Remote Deferred)"

section \<open>Properties\<close>

text \<open>C18: a pair of copying goroutines delivers in order and loses nothing without noticing. In every
  interleaving, what was written to a connection is a prefix of what the far end of the other one
  has sent; a copy that ended without an error has delivered everything; and no connection is
  closed while both goroutines still copy. This holds whatever the order of the deferred calls.\<close>

theorem relay_delivers:
  assumes "rtranclp (relay_step ord) relay_init s"
  shows "prefix (rl_out s (other x)) (rl_sent s x) \<and>
    (copied s x \<and> \<not> rl_failed s x \<longrightarrow> rl_ended s x \<and> rl_out s (other x) = rl_sent s x) \<and>
    (rl_closed s y \<longrightarrow> copied s Client \<or> copied s Remote)"
proof -
  have inv: "relay_inv ord s" using assms relays.inv_reachable by blast
  have "copy_ok s x" using inv by (simp add: relay_inv_def)
  then have "prefix (rl_out s (other x)) (rl_sent s x) \<and>
      (copied s x \<and> \<not> rl_failed s x \<longrightarrow> rl_ended s x \<and> rl_out s (other x) = rl_sent s x)"
    by (auto simp: copy_ok_def copied_def take_is_prefix split: copy_pc.splits)
       (metis append_prefixD take_is_prefix)
  moreover have "rl_closed s y \<longrightarrow> copied s Client \<or> copied s Remote"
    using inv unfolding relay_inv_def by (metis side.exhaust)
  ultimately show ?thesis by blast
qed



definition demo_relay :: relay where
  "demo_relay = the (relay_run forward_order (take 5 (half_close forward_order ''ping'' ''pong'')) relay_init)"

lemma demo_relay_run:
  "rtranclp (relay_step forward_order) relay_init demo_relay \<and> copied demo_relay Client \<and>
   \<not> rl_failed demo_relay Client \<and> rl_sent demo_relay Client = ''ping''"
proof -
  obtain s where s: "relay_run forward_order (take 5 (half_close forward_order ''ping'' ''pong'')) relay_init = Some s"
    "copied s Client" "\<not> rl_failed s Client" "rl_sent s Client = ''ping''"
    by (auto simp: half_close_def relay_init_def copied_def)
  then show ?thesis using relay_run_steps [OF s(1)] by (simp add: demo_relay_def)
qed

theorem relay_delivers_witness: "rl_out demo_relay Remote = ''ping'' \<and> rl_ended demo_relay Client"
  using relay_delivers [of forward_order demo_relay Client] demo_relay_run by simp



end
