(* ===== verification/Spec2Isabelle.thy ===== *)
theory Spec2Isabelle
  imports Startup Relay
begin

text \<open>
  \<^bold>\<open>A model of wireproxy.\<close> The program reads one or more configuration files, starts a userspace
  WireGuard device or an embedded Tailscale node per connection, and exposes each of them to local
  clients through proxies (SOCKS5, HTTP, SNI) and tunnels (TCP in both directions, UDP, standard
  input and output). Before it starts anything it locks itself into a sandbox; a health endpoint
  reports on the connections.

  \<^bold>\<open>Parts, and how they interact.\<close> \<^verbatim>\<open>main\<close> loads the configuration (\<^verbatim>\<open>config.go\<close>,
  \<^verbatim>\<open>tailscale_config.go\<close>), validates the connections against each other (\<^verbatim>\<open>connections.go\<close>),
  restricts itself (\<^verbatim>\<open>cmd/wireproxy/main.go\<close>), starts every connection through one of two back
  ends (\<^verbatim>\<open>wireguard.go\<close>, \<^verbatim>\<open>tailscale.go\<close>) that both provide the interface of \<^verbatim>\<open>network.go\<close>, adds
  the tunnel to the health registry (\<^verbatim>\<open>health.go\<close>), starts its liveness probes and spawns its
  routines (\<^verbatim>\<open>routine.go\<close>, \<^verbatim>\<open>http.go\<close>, \<^verbatim>\<open>sni.go\<close>, \<^verbatim>\<open>udp_proxy.go\<close>), which dial through the tunnel
  or directly as the router (\<^verbatim>\<open>router.go\<close>) decides.

  \<^bold>\<open>Theories.\<close>
  \<^item> Standard library: \<open>Go_Prelude\<close> (errors, early return, the shared contracts), \<open>Go_Strings\<close>
    (UTF-8, trimming, splitting, numbers), \<open>Go_Encoding\<close> (base64, hexadecimal), \<open>Go_Net\<close>
    (\<^verbatim>\<open>netip\<close>, host and port), \<open>Go_Path\<close> (path cleaning). \<open>Host_Env\<close> is what the program asks of
    the operating system, the ini library and the regular expressions: a record of answers.
  \<^item> Configuration: \<open>Conn_Names\<close> (names), \<open>Config_Keys\<close> (single keys), \<open>Tailscale_Config\<close> (the
    Tailscale section), \<open>Config_Sections\<close> (the other sections), \<open>Config\<close> (files: groups of
    sections, external files, routines). Structs are records and a section is a pair of lookup
    functions; a Go \<^verbatim>\<open>(value, error)\<close> is a sum.
  \<^item> Connections: \<open>Router\<close> (routing decision), \<open>Connections\<close> (loading, validation, egress),
    \<open>Virtual_Tun\<close> (the tunnel record, name resolution, routed dialers), \<open>Wireguard\<close> and
    \<open>Tailscale\<close> (the back ends and \<^verbatim>\<open>StartConnection\<close>).
  \<^item> Routines: \<open>Forwarding\<close> (TCP and standard-stream tunnels, SOCKS5 options, accept loops),
    \<open>Http_Proxy\<close>, \<open>Sni\<close>, \<open>Udp_Proxy\<close>, \<open>Ping\<close>. A handler is a function from the answers of its
    surroundings to the events it causes; the UDP tunnel and the probes, whose goroutines share
    state, are step relations with one step per critical section. \<open>Relay\<close> runs the two
    goroutines that copy between a pair of connections side by side. \<open>Routines\<close> is the
    interface \<^verbatim>\<open>RoutineSpawner\<close>: the events of a routine of any kind.
  \<^item> Program: \<open>Health\<close> (registry, reports), \<open>Sandbox\<close> (sandbox stages, network restriction),
    \<open>Wireproxy_Main\<close> (\<^verbatim>\<open>main\<close> as a function to events and an outcome, for every order in which the
    starting goroutines may finish) and \<open>Startup\<close> (those goroutines, the probes, the signal and
    the main goroutine as a step relation on a heap of tunnels, shown to have the outcomes of
    that function). This theory states what holds of the whole program.

  \<^bold>\<open>Contracts.\<close> Five locales state what several parts rely on, each interpreted on the model's own
  definitions: \<open>codec\<close> (base64, hexadecimal, IPv4 addresses and prefixes), \<open>claim_table\<close> (the
  maps with which \<^verbatim>\<open>ValidateConnections\<close> finds duplicates), \<open>invariant_system\<close> (UDP sessions, ping
  records, starting goroutines, copying goroutines), \<open>conn_handler\<close> (every connection handler disposes of its connection) and
  \<open>dialing_network\<close> (networks on which \<^verbatim>\<open>Dial\<close> and \<^verbatim>\<open>DialContext\<close> agree).

  \<^bold>\<open>What the lemmas show.\<close> Configuration: sections are partitioned into connections, what parses is
  well-formed, keys and addresses survive their round trips, validation is equivalent to a
  declarative contract, nothing panics. Back ends: the device request reads back as the
  configuration, devices and nodes are released on every failing path, started tunnels reflect
  their configuration. Routines: authentication is exact, refused clients reach nothing, every
  accepted connection is disposed of, the SNI proxy is transparent, UDP connections are neither
  leaked nor closed twice in any interleaving, carry the traffic of one client only and can always
  be drained, copied bytes arrive in order and both connections of a pair are released when one
  direction ends. Health: the status is exact, keys are hidden, answers do not depend on the order of
  start. Program: nothing starts before the sandbox is complete, privileges only shrink, what stays
  writable is known, the network rules cover every listener and are installed only where no proxy
  dials around the tunnel, every interleaving of the start has a sequential outcome and ends, what
  is served is exactly what started, every client of every routine is disposed of, and no panic is
  reachable.
  Some theorems record behaviour that differs from what the code or its documentation intends
  (configuration test, forwarded credentials, read-ahead of \<^verbatim>\<open>CONNECT\<close>, parent domains, probe
  intervals, half-closed connections).

  \<^bold>\<open>Bounds.\<close> No definition uses fuel. Loops over input recurse on it. An accept loop is given the
  results of \<^verbatim>\<open>Accept\<close> so far, so that statements about it hold for every prefix of its run. The
  gate loop of a Tailscale node is given one observation per round and is \<open>None\<close> while none of
  them ends it; \<open>startTsnet_releases_node\<close> says exactly when, and \<open>main_never_hangs\<close> that the time
  limit of 15 seconds ends it after at most 61 rounds. Random shuffles, the order of map
  iteration and the order in which goroutines finish are arguments. Durations wrap at 64 bits,
  ports are 16-bit words, other integers are unbounded where the source only stores them.

  \<^bold>\<open>Not modelled.\<close> The packages the program calls (ini, regexp, wireguard-go, the netstack, tsnet,
  the SOCKS5 server, TLS, \<^verbatim>\<open>net/http\<close> parsing, Landlock, pledge, the command-line parser) are
  arguments, with documented behaviour as hypotheses where a property needs it. Left out are log
  lines without an error, usage and version output, the redirection of the standard streams, the
  log level, and the service and packaging files. Deadlines are not part of the events, and the
  copying goroutines of different pairs of connections, which share no state, are not interleaved.
\<close>

section \<open>The whole program\<close>

lemma names_distinct_Shuffle:
  assumes "distinct (map f xs)"
  shows "distinct (map f (filter P (Shuffle pick xs)))"
proof -
  have "mset (map f (Shuffle pick xs)) = mset (map f xs)" by simp
  then have "distinct (map f (Shuffle pick xs))" using assms mset_eq_imp_distinct_iff by blast
  then show ?thesis by (rule distinct_map_filter)
qed

lemma main_serving:
  assumes "snd (main E osArgs) = Serving reg"
  obtains paths info specs where "LoadConfigSources (me_world E) paths info = Inr specs"
    and "reg = snd (start_connections E (Shuffle (me_order E) specs) NewHealthRegistry)"
    and "conns reg \<noteq> []" and "\<forall>s \<in> set specs. start_spec E s \<noteq> None"
proof -
  obtain d args opts where "snd (main_config E d args opts) = Serving reg"
    using main_stage [of E osArgs] assms by auto
  then obtain paths specs where l: "LoadConfigSources (me_world E) paths (cli_info opts) = Inr specs"
    and "snd (main_loaded E d args opts specs) = Serving reg"
    using main_config_stage [of E d args opts] by auto
  then have "snd (main_ready E opts specs) = Serving reg"
    using main_loaded_stage [of E d args opts specs] by (auto simp: Let_def split: if_splits)
  then show ?thesis
    using that [OF l] main_ready_stage [of E opts specs] by (auto simp: Let_def)
qed

text \<open>The order in which goroutines finish only matters in the last stage.\<close>

lemma main_ready_order:
  "(\<exists>e. \<forall>p. snd (main_ready (E\<lparr>me_order := p\<rparr>) opts specs) = FatalExit e) \<or>
   (\<forall>p. snd (main_ready (E\<lparr>me_order := p\<rparr>) opts specs) = snd (main_start (E\<lparr>me_order := p\<rparr>) specs))"
  by (auto simp: main_ready_def Let_def case_prod_beta split: sum.split)

lemma main_loaded_order:
  "(\<exists>r. (\<forall>reg. r \<noteq> Serving reg) \<and> (\<forall>p. snd (main_loaded (E\<lparr>me_order := p\<rparr>) d args opts specs) = r)) \<or>
   (\<forall>p. snd (main_loaded (E\<lparr>me_order := p\<rparr>) d args opts specs) = snd (main_start (E\<lparr>me_order := p\<rparr>) specs))"
  using main_ready_order [of E opts specs]
  by (auto simp: main_loaded_def Let_def case_prod_beta split: sum.split)

lemma main_config_order:
  "(\<exists>r. (\<forall>reg. r \<noteq> Serving reg) \<and> (\<forall>p. snd (main_config (E\<lparr>me_order := p\<rparr>) d args opts) = r)) \<or>
   (\<exists>paths specs. LoadConfigSources (me_world E) paths (cli_info opts) = Inr specs \<and>
      (\<forall>p. snd (main_config (E\<lparr>me_order := p\<rparr>) d args opts) = snd (main_start (E\<lparr>me_order := p\<rparr>) specs)))"
proof -
  have [simp]: "config_paths (E\<lparr>me_order := p\<rparr>) opts = config_paths E opts"
    "lock_read_config (E\<lparr>me_order := p\<rparr>) opts = lock_read_config E opts" for p
    by (simp_all add: config_paths_def lock_read_config_def)
  show ?thesis
  proof (cases "config_paths E opts")
    case (Some paths)
    then show ?thesis
      using main_loaded_order [of E d args opts]
      by (cases "lock_read_config E opts"; cases "LoadConfigSources (me_world E) paths (cli_info opts)")
         (simp_all add: main_config_def case_prod_beta, blast)
  qed (simp add: main_config_def)
qed

lemma main_order:
  assumes "snd (main (E\<lparr>me_order := p\<rparr>) osArgs) = Serving reg"
  obtains paths info specs where "LoadConfigSources (me_world E) paths info = Inr specs"
    and "\<And>q. snd (main (E\<lparr>me_order := q\<rparr>) osArgs) = snd (main_start (E\<lparr>me_order := q\<rparr>) specs)"
proof -
  have [simp]: "main_boot (E\<lparr>me_order := q\<rparr>) d = main_boot E d" for q d
    by (cases d) (simp_all add: main_boot_def)
  obtain opts where o: "\<And>q. snd (main (E\<lparr>me_order := q\<rparr>) osArgs) =
      snd (main_config (E\<lparr>me_order := q\<rparr>) (fst (main_args osArgs)) (snd (main_args osArgs)) opts)"
    using assms by (auto simp: main_def Let_def case_prod_beta split: sum.splits if_splits)
  then show ?thesis
    using main_config_order [of E "fst (main_args osArgs)" "snd (main_args osArgs)" opts] assms that by metis
qed

lemma main_start_serving:
  "snd (main_start E specs) = Serving reg \<Longrightarrow>
     reg = snd (start_connections E (Shuffle (me_order E) specs) NewHealthRegistry)"
  by (auto simp: main_start_def case_prod_beta Let_def split: if_splits)

text \<open>A start returns when the Tailscale nodes respect their time limit.\<close>

definition timely :: "main_env \<Rightarrow> bool" where
  "timely E = (\<forall>T name. me_tsnet E = Some T \<longrightarrow>
     within_context (ts_rounds (T name)) \<and> 60 < length (ts_rounds (T name)))"

lemma start_spec_returns: "timely E \<Longrightarrow> start_spec E s \<noteq> None"
proof (cases "me_tsnet E")
  case (Some T)
  assume "timely E"
  then have "startTsnet (me_world E) (me_host E) (T name) name ts \<noteq> None" for name ts
    using Some by (intro startTsnet_returns) (simp_all add: timely_def)
  then show ?thesis
    by (cases "conf_Tailscale (spec_Conf s)")
       (simp_all add: start_spec_def StartConnection_def TailscaleConfig_start_def me_startTsnet_def Some
          case_prod_beta del: not_None_eq)
qed (simp add: start_spec_def StartConnection_def TailscaleConfig_start_def me_startTsnet_def
       startTsnet_stub_def case_prod_beta split: option.split)

section \<open>Properties\<close>


definition demo_foreground :: main_env where
  "demo_foreground =
     demo_main\<lparr>me_parse := (\<lambda>_. Inr \<lparr>cli_config = [''/etc/home.conf''], cli_daemon = False, cli_info = [],
                                       cli_version = False, cli_configTest = False\<rparr>),
               me_tsnet := Some (\<lambda>_. demo_ts_backend)\<rparr>"

lemma demo_serves: "case snd (main demo_foreground [''wireproxy'']) of Serving _ \<Rightarrow> True | _ \<Rightarrow> False"
  by code_simp



definition demo_down :: main_env where
  "demo_down = demo_foreground\<lparr>me_tsnet := None, me_wireguard := (\<lambda>_. demo_backend\<lparr>wg_Up := Inl ''busy''\<rparr>)\<rparr>"


text \<open>C6: no client connection is forgotten. Whatever routine \<^verbatim>\<open>main\<close> spawns and whatever it meets, its
  events are a stretch of accepted connections, each followed by what its handler did, with
  nothing accepted outside it; and every handler disposed of its connection: it closed it, with
  everything it had dialled, or left it to exactly two goroutines that copy in both directions
  between it and one dialled connection.\<close>

theorem main_disposes_of_clients:
  assumes "Spawned name r es \<in> set (fst (main E osArgs))"
  shows "\<exists>pre serve cs post. es = pre @ concat (map (\<lambda>c. Accepted c # serve c) cs) @ post \<and>
    (\<forall>c \<in> set cs. disposes c (serve c)) \<and>
    (\<forall>d. Accepted d \<in> set es \<longrightarrow> d \<in> set cs)"
proof -
  have "well_served es" using main_safe [of E osArgs] assms by (auto simp: run_safe_def list_all_iff)
  then obtain pre serve cs post where es: "es = pre @ concat (map (\<lambda>c. Accepted c # serve c) cs) @ post"
    and d: "\<forall>c \<in> set cs. disposes c (serve c) \<and> (\<forall>d. Accepted d \<notin> set (serve c))"
    and "\<forall>d. Accepted d \<notin> set pre \<and> Accepted d \<notin> set post"
    unfolding well_served_def by blast
  then have "\<forall>d. Accepted d \<in> set es \<longrightarrow> d \<in> set cs" by auto
  then show ?thesis using es d by blast
qed

lemma demo_spawns:
  "list_ex (\<lambda>e. case e of Spawned _ _ es \<Rightarrow> Accepted 3 \<in> set es | _ \<Rightarrow> False) (fst (main demo_foreground [''wireproxy'']))"
  by code_simp

theorem main_disposes_of_clients_witness:
  "\<exists>name r es serve cs. Spawned name r es \<in> set (fst (main demo_foreground [''wireproxy''])) \<and>
     (3 :: conn) \<in> set cs \<and> disposes 3 (serve (3 :: conn))"
proof -
  obtain name r es where s: "Spawned name r es \<in> set (fst (main demo_foreground [''wireproxy'']))"
    and a: "Accepted 3 \<in> set es"
  proof -
    obtain e where "e \<in> set (fst (main demo_foreground [''wireproxy'']))"
      "case e of Spawned _ _ es \<Rightarrow> Accepted 3 \<in> set es | _ \<Rightarrow> False"
      using demo_spawns unfolding list_ex_iff by blast
    then show ?thesis using that by (auto split: main_event.split_asm)
  qed
  from main_disposes_of_clients [OF s] a show ?thesis using s by blast
qed

text \<open>C7: under the network restriction the tunnel is the only way out. When \<^verbatim>\<open>main\<close> installs
  rules for the connections it has loaded, none of them is a Tailscale connection, the health
  endpoint and every routine's TCP port have their rule, and the dial callback of every SOCKS5, HTTP and SNI proxy sends every
  destination through the tunnel, so that no rule is missing for a direct dial.\<close>

theorem restricted_egress:
  assumes "NetLocked (Some rules) \<in> set (fst (main_loaded E d args opts specs))"
    and "s \<in> set specs" and "r \<in> set (conf_Routines (spec_Conf s))"
  shows "(cli_info opts \<noteq> [] \<longrightarrow> (\<exists>w. extractPort (cli_info opts) = Inr w \<and> BindTCP w \<in> set rules)) \<and>
    conf_Tailscale (spec_Conf s) = None \<and> covered rules r \<and>
    fst (RoutedDial W H vt (routine_router r) nw a) = Tunnel \<and>
    (\<forall>c. r = Socks5 c \<longrightarrow> fst (socks5_dial W H vt (Socks5_mode c) ctx nw a fqdn) = Tunnel)"
proof -
  have n: "network_rules specs (Some (cli_info opts)) = Inr (Some rules)" and "\<not> NeedsOpenEgress specs"
    using main_loaded_net [OF assms(1)] by (auto dest: lockNetwork_rules)
  then have t: "conf_Tailscale (spec_Conf s) = None" and q: "\<not> splits_traffic r"
    using assms(2,3) by (auto simp: NeedsOpenEgress_def list_ex_iff)
  have "fst (RoutedDial W H vt (routine_router r) nw a) = Tunnel \<and>
      (\<forall>c. r = Socks5 c \<longrightarrow> fst (socks5_dial W H vt (Socks5_mode c) ctx nw a fqdn) = Tunnel)"
    using splits_traffic_router [OF q] q
    by (auto simp: RoutedDial_def route_def socks5_dial_def Socks5_mode_def routedSocks5Dial_def
                   splits_traffic_def NewDomainRouter_def Let_def)
  then show ?thesis using t network_rules_covered [OF n] network_rules_info [OF n] assms(2,3) by blast
qed

definition demo_restricted :: main_env where
  "demo_restricted =
     demo_foreground\<lparr>me_world := demo_world\<lparr>ini_LoadBytes := (\<lambda>_. Inr (sample_file [] (take 3 demo_sections)))\<rparr>\<rparr>"

definition demo_restricted_specs :: "ConnectionSpec list" where
  "demo_restricted_specs =
     (case LoadConfigSources (me_world demo_restricted) [''/etc/home.conf''] [] of Inr specs \<Rightarrow> specs | Inl _ \<Rightarrow> [])"

lemma demo_restricts:
  "list_ex (\<lambda>e. case e of NetLocked (Some rules) \<Rightarrow> rules = [BindTCP 1080] | _ \<Rightarrow> False)
     (fst (main_loaded demo_restricted False [] demo_cli demo_restricted_specs))"
  by code_simp

lemma demo_restricted_socks5:
  "list_ex (\<lambda>s. list_ex (\<lambda>r. case r of Socks5 _ \<Rightarrow> True | _ \<Rightarrow> False) (conf_Routines (spec_Conf s)))
     demo_restricted_specs"
  by code_simp

theorem restricted_egress_witness:
  "\<exists>s \<in> set demo_restricted_specs. \<exists>c. Socks5 c \<in> set (conf_Routines (spec_Conf s)) \<and>
     covered [BindTCP 1080] (Socks5 c) \<and>
     (\<forall>H vt ctx nw a fqdn. fst (socks5_dial demo_world H vt (Socks5_mode c) ctx nw a fqdn) = Tunnel)"
proof -
  obtain e where e: "e \<in> set (fst (main_loaded demo_restricted False [] demo_cli demo_restricted_specs))"
      "case e of NetLocked (Some rules) \<Rightarrow> rules = [BindTCP 1080] | _ \<Rightarrow> False"
    using demo_restricts unfolding list_ex_iff by blast
  have "e = NetLocked (Some [BindTCP 1080])"
    using e(2) by (cases e rule: main_event.exhaust) (auto split: option.splits)
  then have n: "NetLocked (Some [BindTCP 1080])
      \<in> set (fst (main_loaded demo_restricted False [] demo_cli demo_restricted_specs))"
    using e(1) by simp
  obtain s r where s: "s \<in> set demo_restricted_specs" "r \<in> set (conf_Routines (spec_Conf s))"
      "case r of Socks5 _ \<Rightarrow> True | _ \<Rightarrow> False"
    using demo_restricted_socks5 unfolding list_ex_iff by blast
  then obtain c where "r = Socks5 c" by (cases r rule: RoutineSpawner.exhaust) auto
  then show ?thesis using restricted_egress [OF n s(1,2)] s(1,2) by blast
qed

text \<open>C4: the health endpoint of a serving process answers the same whatever the order in which its
  connections finished starting. Two runs that differ only in that order either both serve, and
  then give the same answer to every request at the same time, or neither does.\<close>

theorem main_health_deterministic:
  assumes "snd (main (E\<lparr>me_order := p\<rparr>) osArgs) = Serving reg"
  shows "\<exists>reg'. snd (main (E\<lparr>me_order := q\<rparr>) osArgs) = Serving reg' \<and>
    HealthRegistry_ServeHTTP now reg' url = HealthRegistry_ServeHTTP now reg url"
proof -
  obtain paths info specs where l: "LoadConfigSources (me_world E) paths info = Inr specs"
    and m: "\<And>q. snd (main (E\<lparr>me_order := q\<rparr>) osArgs) = snd (main_start (E\<lparr>me_order := q\<rparr>) specs)"
    using assms by (rule main_order) blast
  define conns_of where "conns_of o' = conns (snd (start_connections (E\<lparr>me_order := o'\<rparr>) (Shuffle o' specs) NewHealthRegistry))" for o'
  have eq: "mset (conns_of o') = image_mset (\<lambda>s. seeded E s (projr (the (start_spec E s)))) (filter_mset (started E) (mset specs))" for o'
    by (simp add: conns_of_def start_connections_conns mset_filter)
  have reg: "conns reg = conns_of p"
    using main_start_serving [of "E\<lparr>me_order := p\<rparr>"] assms m by (simp add: conns_of_def)
  have v: "valid_connections (me_world E) specs info" "list_all wf_spec specs"
    using LoadConfigSources_ok [OF l] by auto
  have "list_all wf_spec (Shuffle p specs)" using v(2) by (simp add: list_all_iff)
  then have "distinct (map vt_Name (conns reg))"
    using v(1) names_distinct_Shuffle [of spec_Name specs "started E" p]
    by (simp add: reg conns_of_def started_names valid_connections_def)
  moreover obtain reg' where r': "snd (main_start (E\<lparr>me_order := q\<rparr>) specs) = Serving reg'" "conns reg' = conns_of q"
  proof -
    have "size (mset (conns_of q)) = size (mset (conns_of p))" by (simp only: eq)
    then show ?thesis
      using that assms m [of p]
      by (auto simp: main_start_def conns_of_def HealthRegistry_Count_def case_prod_beta Let_def split: if_splits)
  qed
  ultimately show ?thesis
    using ServeHTTP_order_independent [of reg reg' now url] m [of q] by (simp add: reg eq)
qed

theorem main_health_deterministic_witness:
  "\<exists>reg reg'. snd (main demo_foreground [''wireproxy'']) = Serving reg \<and>
     snd (main (demo_foreground\<lparr>me_order := Suc\<rparr>) [''wireproxy'']) = Serving reg' \<and>
     HealthRegistry_ServeHTTP 0 reg' ''/metrics'' = HealthRegistry_ServeHTTP 0 reg ''/metrics''"
proof -
  obtain reg where s: "snd (main demo_foreground [''wireproxy'']) = Serving reg"
    using demo_serves by (auto split: outcome.splits)
  then have "snd (main (demo_foreground\<lparr>me_order := me_order demo_foreground\<rparr>) [''wireproxy'']) = Serving reg"
    by simp
  from main_health_deterministic [OF this, of Suc 0 "''/metrics''"] show ?thesis using s by blast
qed

text \<open>C34: \<^verbatim>\<open>main\<close> never waits for ever while connections start. When every Tailscale node respects the
  time limit of its start, each run ends in the configuration check, an error, a daemon or a
  serving process, whatever the configuration.\<close>

theorem main_never_hangs:
  assumes "timely E"
  shows "snd (main E osArgs) \<noteq> Waiting"
proof -
  have "snd (main_start E specs) \<noteq> Waiting" for specs
    using start_spec_returns [OF assms] by (simp add: main_start_def case_prod_beta list_ex_iff)
  then have "snd (main_ready E opts specs) \<noteq> Waiting" for opts specs
    using main_ready_order [of E opts specs] by (metis main_env.surjective main_env.update_convs(12) outcome.distinct)
  then have "snd (main_loaded E d args opts specs) \<noteq> Waiting" for d args opts specs
    using main_loaded_stage [of E d args opts specs] by (metis (no_types, lifting) early_simps(9) outcome.distinct Let_def imageE insertE)
  then have "snd (main_config E d args opts) \<noteq> Waiting" for d args opts
    using main_config_stage [of E d args opts] by auto
  then show ?thesis using main_stage [of E osArgs] by auto
qed

theorem main_never_hangs_witness:
  "snd (main (demo_foreground\<lparr>me_tsnet := Some (\<lambda>_. slow_backend)\<rparr>) [''wireproxy'']) \<noteq> Waiting"
proof -
  have "timely (demo_foreground\<lparr>me_tsnet := Some (\<lambda>_. slow_backend)\<rparr>)"
    by (simp add: timely_def slow_backend_def within_context_def list_all_iff gate_limit_def gate_pause_def nth_append)
  then show ?thesis by (rule main_never_hangs)
qed

end
